(* ===== verification/Prelude.thy ===== *)
theory Prelude
  imports Main "HOL-Library.Word" "HOL-Library.AList" "HOL-Library.Sublist"
    "HOL-Library.Code_Target_Numeral"
begin

text \<open>
  Shared vocabulary of the ws2tcp-router development: machine integers, the outcome of code that
  may panic, the collections of rewrite and introduction rules the component theories fill, and
  generic facts on lists and options that several components use.
\<close>

unbundle bit_operations_syntax

section \<open>Machine integers and bytes\<close>

type_synonym u8 = "8 word"
type_synonym u16 = "16 word"
type_synonym u32 = "32 word"
type_synonym u64 = "64 word"
type_synonym u128 = "128 word"
type_synonym bytes = "u8 list"

section \<open>Outcomes\<close>

text \<open>
  Fallible code returns \<open>'e + 'a\<close>, with \<open>Inl\<close> for the error. Code that may panic returns an
  \<open>outcome\<close>: \<open>Panic\<close> stands for an unwinding panic of the task that runs it.
\<close>

datatype 'a outcome = Ret 'a | Panic

section \<open>Collections filled by the components\<close>

named_theorems str_simps \<open>characteristic facts of the string routines\<close>
named_theorems evals \<open>definitions unfolded to evaluate a model function on a concrete input\<close>
named_theorems inv_intros \<open>operations that keep an invariant\<close>

section \<open>Generic facts\<close>

lemma prefix_drop_append [str_simps]: "prefix p s \<Longrightarrow> p @ drop (length p) s = s"
  by (auto simp: prefix_def)

lemma map_option_prod_Some:
  "map_option (\<lambda>(a, b). (f a, g b)) x = Some (u, v) \<longleftrightarrow>
     (\<exists>a b. x = Some (a, b) \<and> u = f a \<and> v = g b)"
  by (cases x) auto

section \<open>Collecting results\<close>

text \<open>\<open>Iterator::collect\<close> into a \<open>Result\<close>: the first error, or all the values.\<close>

fun collect_results :: "('e + 'a) list \<Rightarrow> 'e + 'a list" where
  "collect_results [] = Inr []"
| "collect_results (Inl e # rs) = Inl e"
| "collect_results (Inr x # rs) =
     (case collect_results rs of Inl e \<Rightarrow> Inl e | Inr xs \<Rightarrow> Inr (x # xs))"

lemma collect_results_map_Inr [simp]: "collect_results (map Inr xs) = Inr xs"
  by (induction xs) auto

lemma collect_results_InrD: "collect_results rs = Inr xs \<Longrightarrow> rs = map Inr xs"
  by (induction rs arbitrary: xs rule: collect_results.induct) (auto split: sum.splits)

lemma collect_results_Inr_iff: "collect_results rs = Inr xs \<longleftrightarrow> rs = map Inr xs"
  using collect_results_InrD by auto

lemma collect_results_map_Inr_iff:
  "collect_results (map f ys) = Inr xs \<longleftrightarrow> list_all2 (\<lambda>y x. f y = Inr x) ys xs"
  unfolding collect_results_Inr_iff by (auto simp: list_eq_iff_nth_eq list_all2_conv_all_nth)

lemma collect_results_checked:
  assumes "\<And>y x. f y = Inr x \<longleftrightarrow> P y \<and> x = g y"
  shows "collect_results (map f ys) = Inr xs \<longleftrightarrow> (\<forall>y \<in> set ys. P y) \<and> xs = map g ys"
  unfolding collect_results_map_Inr_iff assms
  by (induction ys arbitrary: xs) (auto simp: list_all2_Cons1)

lemma collect_results_Inl:
  "collect_results rs = Inl e \<Longrightarrow> Inl e \<in> set rs"
  by (induction rs rule: collect_results.induct) (auto split: sum.splits)

end
