(* ===== verification/RustStr.thy ===== *)
theory RustStr
  imports Prelude
begin

text \<open>
  The routines of Rust's standard library on \<open>str\<close>, byte slices and integers that the sources
  call, with their laws. A Rust \<open>str\<close> is its sequence of UTF-8 bytes, an Isabelle \<open>string\<close>
  (one \<open>char\<close> per byte), so \<open>len\<close> is \<open>length\<close>; \<open>utf8_ok\<close> says that a byte
  sequence is valid UTF-8.
\<close>

section \<open>Searching and splitting\<close>

text \<open>\<open>str::split_once\<close>: split at the first occurrence of a non-empty pattern.\<close>

fun split_once :: "string \<Rightarrow> string \<Rightarrow> (string \<times> string) option" where
  "split_once pat [] = None"
| "split_once pat (x # xs) =
     (if prefix pat (x # xs) then Some ([], drop (length pat) (x # xs))
      else map_option (\<lambda>(a, b). (x # a, b)) (split_once pat xs))"

text \<open>\<open>str::rsplit_once\<close>: split at the last occurrence.\<close>

definition rsplit_once :: "string \<Rightarrow> string \<Rightarrow> (string \<times> string) option" where
  "rsplit_once pat s =
     map_option (\<lambda>(b, a). (rev a, rev b)) (split_once (rev pat) (rev s))"

definition strip_prefix :: "string \<Rightarrow> string \<Rightarrow> string option" where
  "strip_prefix p s = (if prefix p s then Some (drop (length p) s) else None)"

definition strip_suffix :: "string \<Rightarrow> string \<Rightarrow> string option" where
  "strip_suffix p s = (if suffix p s then Some (take (length s - length p) s) else None)"

text \<open>\<open>str::split\<close> on one character, and the first piece of a split on several.\<close>

fun split_on :: "char \<Rightarrow> string \<Rightarrow> string list" where
  "split_on c [] = [[]]"
| "split_on c (x # xs) =
     (if x = c then [] # split_on c xs
      else (case split_on c xs of [] \<Rightarrow> [[x]] | l # ls \<Rightarrow> (x # l) # ls))"

text \<open>\<open>str::lines\<close>: pieces that end in a newline, without it and without a carriage return before it.\<close>

fun split_inclusive :: "char \<Rightarrow> string \<Rightarrow> string list" where
  "split_inclusive c [] = []"
| "split_inclusive c (x # xs) =
     (if x = c then [x] # split_inclusive c xs
      else (case split_inclusive c xs of [] \<Rightarrow> [[x]] | l # ls \<Rightarrow> (x # l) # ls))"

definition strip_line_end :: "string \<Rightarrow> string" where
  "strip_line_end l =
     (case strip_suffix [CHR 0x0A] l of
        None \<Rightarrow> l
      | Some l' \<Rightarrow> (case strip_suffix [CHR 0x0D] l' of None \<Rightarrow> l' | Some l'' \<Rightarrow> l''))"

definition str_lines :: "string \<Rightarrow> string list" where
  "str_lines s = map strip_line_end (split_inclusive (CHR 0x0A) s)"

section \<open>Trimming\<close>

text \<open>The UTF-8 encodings of the characters with the Unicode property White\_Space.\<close>

definition ws_seqs :: "string list" where
  "ws_seqs =
     map (\<lambda>n. [char_of n]) [9, 10, 11, 12, 13, 32 :: nat] @
     [[CHR 0xC2, CHR 0x85], [CHR 0xC2, CHR 0xA0], [CHR 0xE1, CHR 0x9A, CHR 0x80]] @
     map (\<lambda>n. [CHR 0xE2, CHR 0x80, char_of n])
       [128, 129, 130, 131, 132, 133, 134, 135, 136, 137, 138, 168, 169, 175 :: nat] @
     [[CHR 0xE2, CHR 0x81, CHR 0x9F], [CHR 0xE3, CHR 0x80, CHR 0x80]]"

function strip_seqs :: "string list \<Rightarrow> string \<Rightarrow> string" where
  "strip_seqs ws s =
     (case find (\<lambda>w. w \<noteq> [] \<and> prefix w s) ws of
        None \<Rightarrow> s
      | Some w \<Rightarrow> strip_seqs ws (drop (length w) s))"
  by pat_completeness auto
termination
  by (relation "measure (\<lambda>(ws, s). length s)")
    (auto simp: find_Some_iff, metis length_greater_0_conv prefix_length_le
      diff_less order_less_le_trans)

declare strip_seqs.simps [simp del]

definition trim_start :: "string \<Rightarrow> string" where
  "trim_start s = strip_seqs ws_seqs s"

definition trim_end :: "string \<Rightarrow> string" where
  "trim_end s = rev (strip_seqs (map rev ws_seqs) (rev s))"

definition trim :: "string \<Rightarrow> string" where
  "trim s = trim_end (trim_start s)"

text \<open>\<open>[u8]::trim_ascii\<close>; ASCII white space leaves out the vertical tab.\<close>

definition ascii_ws :: "u8 \<Rightarrow> bool" where
  "ascii_ws b \<longleftrightarrow> b \<in> {9, 10, 12, 13, 32}"

definition trim_ascii :: "bytes \<Rightarrow> bytes" where
  "trim_ascii bs = rev (dropWhile ascii_ws (rev (dropWhile ascii_ws bs)))"

section \<open>Case\<close>

definition to_ascii_lowercase :: "char \<Rightarrow> char" where
  "to_ascii_lowercase c =
     (let n = of_char c :: nat in if 65 \<le> n \<and> n \<le> 90 then char_of (n + 32) else c)"

definition eq_ignore_ascii_case :: "string \<Rightarrow> string \<Rightarrow> bool" where
  "eq_ignore_ascii_case a b \<longleftrightarrow> map to_ascii_lowercase a = map to_ascii_lowercase b"

section \<open>Numbers\<close>

text \<open>\<open>char::to_digit\<close> for radix 10 and 16.\<close>

definition to_digit :: "nat \<Rightarrow> char \<Rightarrow> nat option" where
  "to_digit radix c =
     (let n = of_char c :: nat;
          d = (if 48 \<le> n \<and> n \<le> 57 then Some (n - 48)
               else if 65 \<le> n \<and> n \<le> 90 then Some (n - 55)
               else if 97 \<le> n \<and> n \<le> 122 then Some (n - 87)
               else None)
      in case d of None \<Rightarrow> None | Some v \<Rightarrow> if v < radix then Some v else None)"

text \<open>
  \<open>parse\<close> into an unsigned integer type with greatest value \<open>m\<close>: an optional plus sign, then at
  least one decimal digit; \<open>None\<close> is the \<open>ParseIntError\<close>.
\<close>

fun parse_digits :: "nat \<Rightarrow> nat \<Rightarrow> string \<Rightarrow> nat option" where
  "parse_digits m acc [] = Some acc"
| "parse_digits m acc (c # cs) =
     (case to_digit 10 c of
        None \<Rightarrow> None
      | Some d \<Rightarrow> if m < 10 * acc + d then None else parse_digits m (10 * acc + d) cs)"

definition parse_uint :: "nat \<Rightarrow> string \<Rightarrow> nat option" where
  "parse_uint m s =
     (case s of
        [] \<Rightarrow> None
      | c # cs \<Rightarrow>
          if c = CHR ''+'' then (if cs = [] then None else parse_digits m 0 cs)
          else parse_digits m 0 s)"

definition parse_u16 :: "string \<Rightarrow> u16 option" where
  "parse_u16 s = map_option of_nat (parse_uint 65535 s)"

definition parse_u8 :: "string \<Rightarrow> u8 option" where
  "parse_u8 s = map_option of_nat (parse_uint 255 s)"

text \<open>\<open>Display\<close> of an unsigned integer.\<close>

definition digit_char :: "nat \<Rightarrow> char" where
  "digit_char d = char_of (48 + d)"

fun show_nat :: "nat \<Rightarrow> string" where
  "show_nat n =
     (if n < 10 then [digit_char n] else show_nat (n div 10) @ [digit_char (n mod 10)])"

declare show_nat.simps [simp del]

section \<open>UTF-8\<close>

text \<open>
  One step of the validation loop of \<open>core::str\<close>: how many bytes the next character takes and
  whether it is well formed. For an ill-formed sequence the count is that of its maximal part.
\<close>

definition utf8_cont :: "u8 \<Rightarrow> bool" where
  "utf8_cont b \<longleftrightarrow> 0x80 \<le> b \<and> b \<le> 0xBF"

text \<open>The bytes allowed second, after a first byte of a sequence of three or four.\<close>

definition utf8_second :: "u8 \<Rightarrow> u8 \<Rightarrow> bool" where
  "utf8_second b c \<longleftrightarrow>
     utf8_cont c \<and> (b = 0xE0 \<longrightarrow> 0xA0 \<le> c) \<and> (b = 0xED \<longrightarrow> c \<le> 0x9F)
       \<and> (b = 0xF0 \<longrightarrow> 0x90 \<le> c) \<and> (b = 0xF4 \<longrightarrow> c \<le> 0x8F)"

fun utf8_tail :: "nat \<Rightarrow> bytes \<Rightarrow> nat \<times> bool" where
  "utf8_tail 0 bs = (0, True)"
| "utf8_tail (Suc n) s =
     (case s of
        [] \<Rightarrow> (0, False)
      | b # bs \<Rightarrow>
          if utf8_cont b then (case utf8_tail n bs of (k, ok) \<Rightarrow> (Suc k, ok)) else (0, False))"

definition utf8_step :: "u8 \<Rightarrow> bytes \<Rightarrow> nat \<times> bool" where
  "utf8_step b bs =
     (if b < 0x80 then (1, True)
      else if 0xC2 \<le> b \<and> b \<le> 0xDF then (case utf8_tail 1 bs of (k, ok) \<Rightarrow> (Suc k, ok))
      else if 0xE0 \<le> b \<and> b \<le> 0xF4 then
        (case bs of
           [] \<Rightarrow> (1, False)
         | c # cs \<Rightarrow>
             if utf8_second b c
             then (case utf8_tail (if b \<le> 0xEF then 1 else 2) cs of (k, ok) \<Rightarrow> (k + 2, ok))
             else (1, False))
      else (1, False))"

lemma utf8_step_pos: "0 < fst (utf8_step b bs)"
  by (auto simp: utf8_step_def split: list.splits prod.splits)

function utf8_chunks :: "bytes \<Rightarrow> (bytes \<times> bool) list" where
  "utf8_chunks [] = []"
| "utf8_chunks (b # bs) =
     (case utf8_step b bs of
        (n, ok) \<Rightarrow> (take n (b # bs), ok) # utf8_chunks (drop n (b # bs)))"
  by pat_completeness auto
termination
proof (relation "measure length", goal_cases)
  case (2 b bs x y)
  then have "0 < x" using utf8_step_pos [of b bs] by (cases "utf8_step b bs") auto
  then show ?case by simp
qed simp

definition utf8_ok :: "bytes \<Rightarrow> bool" where
  "utf8_ok bs \<longleftrightarrow> list_all snd (utf8_chunks bs)"

text \<open>Between a string and its bytes.\<close>

definition as_bytes :: "string \<Rightarrow> bytes" where
  "as_bytes s = map (\<lambda>c. of_nat (of_char c)) s"

definition str_of_bytes :: "bytes \<Rightarrow> string" where
  "str_of_bytes bs = map (\<lambda>b. char_of (unat b)) bs"

text \<open>\<open>String::from_utf8\<close> (and \<open>str::from_utf8\<close>) and \<open>String::from_utf8_lossy\<close>.\<close>

definition from_utf8 :: "bytes \<Rightarrow> string option" where
  "from_utf8 bs = (if utf8_ok bs then Some (str_of_bytes bs) else None)"

definition from_utf8_lossy :: "bytes \<Rightarrow> string" where
  "from_utf8_lossy bs =
     concat (map (\<lambda>(c, ok). if ok then str_of_bytes c else [CHR 0xEF, CHR 0xBF, CHR 0xBD])
       (utf8_chunks bs))"

section \<open>Big-endian bytes\<close>

definition to_be_bytes :: "u64 \<Rightarrow> bytes" where
  "to_be_bytes w = map (\<lambda>i. ucast (drop_bit (8 * i) w)) [7, 6, 5, 4, 3, 2, 1, 0]"

definition from_be_bytes :: "bytes \<Rightarrow> u64" where
  "from_be_bytes bs = foldl (\<lambda>a b. push_bit 8 a OR ucast b) 0 bs"

lemmas [evals] = rsplit_once_def strip_prefix_def strip_suffix_def strip_line_end_def str_lines_def
  ws_seqs_def strip_seqs.simps trim_start_def trim_end_def trim_def ascii_ws_def trim_ascii_def
  to_ascii_lowercase_def eq_ignore_ascii_case_def to_digit_def parse_uint_def parse_u16_def
  parse_u8_def digit_char_def show_nat.simps utf8_cont_def utf8_second_def utf8_step_def utf8_ok_def
  as_bytes_def str_of_bytes_def from_utf8_def from_utf8_lossy_def to_be_bytes_def from_be_bytes_def

section \<open>Laws\<close>

subsection \<open>Splitting\<close>

lemma split_once_Some:
  "split_once pat s = Some (a, b) \<Longrightarrow> s = a @ pat @ b"
proof (induction s arbitrary: a b)
  case (Cons x xs)
  then show ?case
    by (auto simp: prefix_drop_append map_option_prod_Some split: if_splits)
qed simp

text \<open>The pattern occurs nowhere to the left of the split.\<close>

lemma split_once_first:
  "split_once pat s = Some (a, b) \<Longrightarrow> s = u @ pat @ v \<Longrightarrow> length a \<le> length u"
proof (induction s arbitrary: a b u)
  case (Cons x xs)
  show ?case
  proof (cases u)
    case Nil
    with Cons.prems(2) have "prefix pat (x # xs)" by (simp add: prefix_def)
    with Cons.prems(1) show ?thesis by simp
  next
    case (Cons y ys)
    with Cons.prems Cons.IH show ?thesis
      by (fastforce split: if_splits)
  qed
qed simp

lemma split_once_None: "pat \<noteq> [] \<Longrightarrow> split_once pat s = None \<Longrightarrow> s \<noteq> u @ pat @ v"
proof (induction s arbitrary: u)
  case (Cons x xs)
  show ?case
  proof (cases u)
    case Nil
    with Cons.prems show ?thesis by (auto split: if_splits simp: prefix_def)
  next
    case (Cons y ys)
    with Cons.prems Cons.IH show ?thesis by (fastforce split: if_splits)
  qed
qed simp

lemma split_once_char_notin [str_simps]:
  "c \<notin> set a \<Longrightarrow> split_once [c] (a @ c # b) = Some (a, b)"
  by (induction a) auto

lemma split_once_char_Some:
  "split_once [c] s = Some (a, b) \<Longrightarrow> c \<notin> set a"
proof (induction s arbitrary: a b)
  case (Cons x xs)
  then show ?case by (fastforce simp: map_option_prod_Some split: if_splits)
qed simp

lemma split_once_char_iff:
  "split_once [c] s = Some (a, b) \<longleftrightarrow> s = a @ c # b \<and> c \<notin> set a"
  using split_once_Some [of "[c]" s a b] split_once_char_Some [of c s a b]
  by (auto simp: str_simps)

lemma rsplit_once_char_iff:
  "rsplit_once [c] s = Some (a, b) \<longleftrightarrow> s = a @ c # b \<and> c \<notin> set b"
proof -
  have "rsplit_once [c] s = Some (a, b) \<longleftrightarrow> split_once [c] (rev s) = Some (rev b, rev a)"
    by (auto simp: rsplit_once_def map_option_prod_Some)
  also have "\<dots> \<longleftrightarrow> rev s = rev b @ c # rev a \<and> c \<notin> set b"
    by (simp add: split_once_char_iff)
  also have "\<dots> \<longleftrightarrow> s = a @ c # b \<and> c \<notin> set b"
    by (metis append.assoc append_Cons append_Nil rev.simps(2) rev_append rev_rev_ident)
  finally show ?thesis .
qed

lemma rsplit_once_char_None: "rsplit_once [c] s = None \<longleftrightarrow> c \<notin> set s"
proof -
  have "split_once [c] t = None \<longleftrightarrow> c \<notin> set t" for t
    by (induction t) auto
  then show ?thesis by (simp add: rsplit_once_def)
qed

lemma strip_prefix_Some_iff: "strip_prefix p s = Some r \<longleftrightarrow> s = p @ r"
  by (auto simp: strip_prefix_def prefix_def)

lemma strip_prefix_append [str_simps]: "strip_prefix p (p @ r) = Some r"
  by (simp add: strip_prefix_Some_iff)

lemma strip_suffix_Some_iff: "strip_suffix p s = Some r \<longleftrightarrow> s = r @ p"
  by (auto simp: strip_suffix_def suffix_def)

lemma split_on_not_Nil [simp]: "split_on c s \<noteq> []"
  by (induction s) (auto split: list.splits)

subsection \<open>Trimming\<close>

lemma strip_seqs_suffix: "suffix (strip_seqs ws s) s"
proof (induction ws s rule: strip_seqs.induct)
  case (1 ws s)
  show ?case
  proof (cases "find (\<lambda>w. w \<noteq> [] \<and> prefix w s) ws")
    case None
    then show ?thesis by (simp add: strip_seqs.simps)
  next
    case (Some w)
    with "1.IH" have "suffix (strip_seqs ws (drop (length w) s)) (drop (length w) s)" by simp
    with Some show ?thesis
      using suffix_drop suffix_order.trans by (subst strip_seqs.simps) fastforce
  qed
qed

lemma strip_seqs_Nil [simp]: "strip_seqs ws [] = []"
  by (subst strip_seqs.simps) (simp add: find_None_iff split: option.splits, auto simp: find_Some_iff)

lemma trim_empty [simp]: "trim [] = []"
  by (simp add: trim_def trim_end_def trim_start_def)

lemma length_trim: "length (trim s) \<le> length s"
proof -
  have "length (strip_seqs ws t) \<le> length t" for ws t
    by (rule suffix_length_le [OF strip_seqs_suffix])
  then have "length (trim_end (trim_start s)) \<le> length (trim_start s)"
    "length (trim_start s) \<le> length s"
    by (simp_all add: trim_end_def trim_start_def, metis length_rev)
  then show ?thesis by (simp add: trim_def)
qed

subsection \<open>Numbers\<close>

lemma to_digit_digit_char [simp]: "d < 10 \<Longrightarrow> to_digit 10 (digit_char d) = Some d"
  by (simp add: to_digit_def digit_char_def of_char_mod_256 Let_def)

lemma digit_char_range: "d < 10 \<Longrightarrow> 48 \<le> (of_char (digit_char d) :: nat) \<and> (of_char (digit_char d) :: nat) \<le> 57"
  by (simp add: digit_char_def)

lemma show_nat_digits: "c \<in> set (show_nat n) \<Longrightarrow> \<exists>d < 10. c = digit_char d"
proof (induction n rule: show_nat.induct)
  case (1 n)
  show ?case
  proof (cases "n < 10")
    case True
    with "1.prems" show ?thesis by (auto simp: show_nat.simps [of n])
  next
    case False
    have "n mod 10 < 10" by simp
    then have last: "\<exists>d < 10. digit_char (n mod 10) = digit_char d" by blast
    from False "1.prems" have "c \<in> set (show_nat (n div 10)) \<or> c = digit_char (n mod 10)"
      by (auto simp: show_nat.simps [of n])
    with False "1.IH" last show ?thesis by blast
  qed
qed

lemma show_nat_not_Nil [simp]: "show_nat n \<noteq> []"
  by (simp add: show_nat.simps [of n])

lemma show_nat_chars:
  "c \<in> set (show_nat n) \<Longrightarrow> 48 \<le> (of_char c :: nat) \<and> (of_char c :: nat) \<le> 57"
  using show_nat_digits digit_char_range by blast

lemma show_nat_notin [simp]:
  "(of_char c :: nat) < 48 \<or> 57 < (of_char c :: nat) \<Longrightarrow> c \<notin> set (show_nat n)"
  using show_nat_chars [of c n] by linarith

lemma parse_digits_append:
  "parse_digits m acc (xs @ ys) =
     (case parse_digits m acc xs of None \<Rightarrow> None | Some a \<Rightarrow> parse_digits m a ys)"
  by (induction xs arbitrary: acc) (auto split: option.splits)

lemma parse_digits_show_nat: "n \<le> m \<Longrightarrow> parse_digits m 0 (show_nat n) = Some n"
proof (induction n rule: show_nat.induct)
  case (1 n)
  show ?case
  proof (cases "n < 10")
    case True
    with "1.prems" show ?thesis by (simp add: show_nat.simps [of n])
  next
    case False
    with "1" have "parse_digits m 0 (show_nat (n div 10)) = Some (n div 10)" by simp
    with False "1.prems" show ?thesis
      by (simp add: show_nat.simps [of n] parse_digits_append)
  qed
qed

lemma parse_uint_show_nat: "n \<le> m \<Longrightarrow> parse_uint m (show_nat n) = Some n"
proof -
  assume "n \<le> m"
  obtain c cs where s: "show_nat n = c # cs" by (cases "show_nat n") auto
  then have "c \<noteq> CHR ''+''" using show_nat_chars [of c n] by force
  with s parse_digits_show_nat [OF \<open>n \<le> m\<close>] show ?thesis by (simp add: parse_uint_def)
qed

lemma parse_u16_show [simp]: "parse_u16 (show_nat (unat p)) = Some p"
proof -
  have "unat p \<le> 65535" using unsigned_less [of p, where 'a = nat] by simp
  then show ?thesis by (simp add: parse_u16_def parse_uint_show_nat)
qed

lemma parse_u8_show [simp]: "parse_u8 (show_nat (unat p)) = Some p"
proof -
  have "unat p \<le> 255" using unsigned_less [of p, where 'a = nat] by simp
  then show ?thesis by (simp add: parse_u8_def parse_uint_show_nat)
qed

subsection \<open>Bytes\<close>

lemma str_of_as_bytes [simp]: "str_of_bytes (as_bytes s) = s"
proof -
  have "char_of (unat (of_nat (of_char c) :: u8)) = c" for c
    by (simp add: unat_of_nat)
  then show ?thesis by (simp add: str_of_bytes_def as_bytes_def map_idI)
qed

lemma as_str_of_bytes [simp]: "as_bytes (str_of_bytes bs) = bs"
proof -
  have "of_nat (of_char (char_of (unat b) :: char)) = b" for b :: u8
    using unsigned_less [of b, where 'a = nat] by simp
  then show ?thesis by (simp add: str_of_bytes_def as_bytes_def map_idI)
qed

lemma as_bytes_append [simp]: "as_bytes (a @ b) = as_bytes a @ as_bytes b"
  by (simp add: as_bytes_def)

lemma length_as_bytes [simp]: "length (as_bytes s) = length s"
  by (simp add: as_bytes_def)

lemma as_bytes_inject [simp]: "as_bytes a = as_bytes b \<longleftrightarrow> a = b"
  by (metis str_of_as_bytes)

lemma from_utf8_as_bytes: "utf8_ok (as_bytes s) \<Longrightarrow> from_utf8 (as_bytes s) = Some s"
  by (simp add: from_utf8_def)

lemma from_utf8_Some_iff: "from_utf8 bs = Some s \<longleftrightarrow> utf8_ok bs \<and> bs = as_bytes s"
  by (auto simp: from_utf8_def)

lemma concat_utf8_chunks: "concat (map fst (utf8_chunks bs)) = bs"
  by (induction bs rule: utf8_chunks.induct) (auto split: prod.splits simp del: take_Cons drop_Cons)

text \<open>An ASCII byte is no part of a longer sequence, so it splits a UTF-8 text into two.\<close>

lemma utf8_tail_ascii: "b < 0x80 \<Longrightarrow> utf8_tail n (bs @ b # cs) = utf8_tail n bs"
proof (induction n arbitrary: bs)
  case (Suc n)
  then show ?case by (cases bs) (auto simp: utf8_cont_def)
qed simp

lemma utf8_step_ascii: "b < 0x80 \<Longrightarrow> utf8_step x (bs @ b # cs) = utf8_step x bs"
proof -
  assume b: "b < 0x80"
  then have cont: "\<not> utf8_cont b" by (auto simp: utf8_cont_def)
  have "\<not> utf8_second x b" using cont by (simp add: utf8_second_def)
  then show ?thesis using utf8_tail_ascii [OF b, of _ "_ # _"] utf8_tail_ascii [OF b, of _ "[]"]
    by (cases bs) (simp_all add: utf8_step_def utf8_tail_ascii [OF b] del: utf8_tail.simps)
qed

lemma utf8_tail_le: "fst (utf8_tail n bs) \<le> length bs"
  by (induction n bs rule: utf8_tail.induct) (auto split: list.splits prod.splits)

lemma utf8_step_le: "fst (utf8_step x bs) \<le> Suc (length bs)"
  using utf8_tail_le [of 1 bs] utf8_tail_le [of 1 "tl bs"] utf8_tail_le [of 2 "tl bs"]
  by (auto simp: utf8_step_def simp del: utf8_tail.simps split: list.splits prod.splits)

lemma utf8_ok_step:
  "utf8_ok (x # bs) \<longleftrightarrow> snd (utf8_step x bs) \<and> utf8_ok (drop (fst (utf8_step x bs)) (x # bs))"
  by (auto simp: utf8_ok_def split: prod.splits simp del: drop_Cons)

lemma utf8_ok_ascii:
  assumes "b < 0x80"
  shows "utf8_ok (as @ b # cs) \<longleftrightarrow> utf8_ok as \<and> utf8_ok cs"
proof (induction as rule: utf8_chunks.induct)
  case 1
  have "utf8_step b cs = (1, True)" using assms by (simp add: utf8_step_def word_less_nat_alt word_le_nat_alt)
  then show ?case by (simp add: utf8_ok_step [of b]) (simp add: utf8_ok_def)
next
  case (2 x bs)
  obtain n ok where step: "utf8_step x bs = (n, ok)" by fastforce
  then have "n \<le> Suc (length bs)" using utf8_step_le [of x bs] by simp
  then have "drop n (x # bs @ b # cs) = drop n (x # bs) @ b # cs" by (cases n) simp_all
  with 2 [OF step [symmetric]] show ?case by (simp add: utf8_ok_step [of x] utf8_step_ascii [OF assms] step del: drop_Cons)
qed

lemma from_utf8_lossy_ok: "utf8_ok bs \<Longrightarrow> from_utf8_lossy bs = str_of_bytes bs"
proof -
  assume ok: "utf8_ok bs"
  have "from_utf8_lossy bs = concat (map (\<lambda>p. str_of_bytes (fst p)) (utf8_chunks bs))"
    unfolding from_utf8_lossy_def using ok
    by (intro arg_cong [of _ _ concat] map_cong refl) (auto simp: utf8_ok_def list_all_iff split: prod.splits)
  also have "\<dots> = str_of_bytes (concat (map fst (utf8_chunks bs)))"
    by (simp add: str_of_bytes_def map_concat comp_def)
  finally show ?thesis by (simp add: concat_utf8_chunks)
qed

lemma length_to_be_bytes [simp]: "length (to_be_bytes w) = 8"
  by (simp add: to_be_bytes_def)

lemma be_step:
  fixes w :: u64
  shows "push_bit 8 (drop_bit (8 + k) w) OR ucast (ucast (drop_bit k w) :: u8) = drop_bit k w"
proof (rule bit_word_eqI)
  fix n
  assume "n < LENGTH(64)"
  then show "bit (push_bit 8 (drop_bit (8 + k) w) OR ucast (ucast (drop_bit k w) :: u8)) n \<longleftrightarrow>
      bit (drop_bit k w) n"
    by (cases "n < 8") (auto simp: bit_simps dest: bit_imp_le_length)
qed

lemma from_to_be_bytes [simp]: "from_be_bytes (to_be_bytes w) = w"
proof -
  have "drop_bit 64 w = 0" by (rule bit_word_eqI) (auto simp: bit_simps dest: bit_imp_le_length)
  then have "push_bit 8 0 OR ucast (ucast (drop_bit 56 w) :: u8) = drop_bit 56 w"
    using be_step [of 56 w] by simp
  then show ?thesis
    using be_step [of 48 w] be_step [of 40 w] be_step [of 32 w] be_step [of 24 w]
      be_step [of 16 w] be_step [of 8 w] be_step [of 0 w]
    by (simp add: from_be_bytes_def to_be_bytes_def)
qed

lemma to_from_be_bytes: "length bs = 8 \<Longrightarrow> to_be_bytes (from_be_bytes bs) = bs"
proof -
  assume "length bs = 8"
  then obtain a b c d e f g h where bs: "bs = [a, b, c, d, e, f, g, h]"
    by (auto simp: numeral_eq_Suc length_Suc_conv)
  show ?thesis
    unfolding bs to_be_bytes_def from_be_bytes_def list.map foldl_Nil foldl_Cons list.inject
    by (intro conjI bit_word_eqI refl) (auto simp: bit_simps not_le dest: bit_imp_le_length)
qed

lemma parse_digits_chars: "parse_digits m acc s = Some n \<Longrightarrow> c \<in> set s \<Longrightarrow> to_digit 10 c \<noteq> None"
  by (induction s arbitrary: acc) (auto split: option.splits if_splits)

lemma to_digit_10_None: "(of_char c :: nat) < 48 \<or> (of_char c :: nat) = 58 \<Longrightarrow> to_digit 10 c = None"
  by (auto simp: to_digit_def Let_def)

lemma parse_digits_no_colon: "parse_digits m acc s = Some n \<Longrightarrow> CHR '':'' \<notin> set s"
  using parse_digits_chars [of m acc s n "CHR '':''"] to_digit_10_None [of "CHR '':''"] by auto

lemma parse_u16_no_colon: "parse_u16 s = Some p \<Longrightarrow> CHR '':'' \<notin> set s"
  by (auto simp: parse_u16_def parse_uint_def simp del: parse_digits.simps(2)
      dest!: parse_digits_no_colon split: list.splits if_splits)

lemma strip_prefix_None_iff: "strip_prefix p s = None \<longleftrightarrow> (\<forall>r. s \<noteq> p @ r)"
  by (auto simp: strip_prefix_def prefix_def)

subsection \<open>Trimming leaves printable text alone\<close>

definition printable :: "string \<Rightarrow> bool" where
  "printable s \<longleftrightarrow> (\<forall>c \<in> set s. 33 \<le> (of_char c :: nat) \<and> (of_char c :: nat) \<le> 126)"

lemma strip_seqs_id:
  assumes "\<And>w. w \<in> set ws \<Longrightarrow> w \<noteq> [] \<Longrightarrow> \<not> (33 \<le> (of_char (hd w) :: nat) \<and> (of_char (hd w) :: nat) \<le> 126)"
    and "printable s"
  shows "strip_seqs ws s = s"
proof -
  have "find (\<lambda>w. w \<noteq> [] \<and> prefix w s) ws = None"
    using assms by (fastforce simp: find_None_iff printable_def prefix_def neq_Nil_conv)
  then show ?thesis by (subst strip_seqs.simps) simp
qed

lemma trim_printable: "printable s \<Longrightarrow> trim s = s"
proof -
  assume s: "printable s"
  have "strip_seqs ws_seqs s = s"
    by (rule strip_seqs_id [OF _ s]) (auto simp: ws_seqs_def)
  moreover have "strip_seqs (map rev ws_seqs) (rev s) = rev s"
    using s by (intro strip_seqs_id) (auto simp: ws_seqs_def printable_def)
  ultimately show ?thesis by (simp add: trim_def trim_start_def trim_end_def)
qed

lemma printable_append [simp]: "printable (a @ b) \<longleftrightarrow> printable a \<and> printable b"
  by (auto simp: printable_def)

lemma printable_show_nat [simp]: "printable (show_nat n)"
  using show_nat_chars [of _ n] by (fastforce simp: printable_def)

end
