(* ===== verification/Target.thy ===== *)
theory Target
  imports RustStr
begin

text \<open>
  \<open>src/target.rs\<close>: the upstream named by a request path, \<open>/tcp:host:port\<close> or \<open>/udp:host:port\<close>
  with IPv6 hosts in brackets, and the bare \<open>host:port\<close> of the anonymous-target allow list.
  The lemmas give the exact language that is accepted and that \<open>addr\<close> prints a normal form.
\<close>

section \<open>Definitions\<close>

datatype protocol = Tcp | Udp

record target =
  t_protocol :: protocol
  t_host :: string
  t_port :: u16

text \<open>The messages of the \<open>anyhow\<close> errors, one constructor per \<open>bail!\<close> or \<open>ok_or_else\<close>.\<close>

datatype target_error =
    PathPrefix
  | Ipv6Format
  | HostEmpty
  | HostPortFormat
  | Ipv6NotBracketed
  | InvalidPort string

definition addr :: "target \<Rightarrow> string" where
  "addr t = t_host t @ '':'' @ show_nat (unat (t_port t))"

definition host_part :: "string \<Rightarrow> target_error + (string \<times> string)" where
  "host_part target =
     (case strip_prefix ''['' target of
        Some rest \<Rightarrow>
          (case split_once '']:'' rest of
             None \<Rightarrow> Inl Ipv6Format
           | Some (host, port) \<Rightarrow>
               if host = [] then Inl HostEmpty else Inr (''['' @ host @ '']'', port))
      | None \<Rightarrow>
          (case rsplit_once '':'' target of
             None \<Rightarrow> Inl HostPortFormat
           | Some (host, port) \<Rightarrow>
               if CHR '':'' \<in> set host then Inl Ipv6NotBracketed else Inr (host, port)))"

definition parse_host_port :: "string \<Rightarrow> target_error + (string \<times> u16)" where
  "parse_host_port target =
     (case host_part target of
        Inl e \<Rightarrow> Inl e
      | Inr (host, port) \<Rightarrow>
          if host = [] then Inl HostEmpty
          else (case parse_u16 port of
                  None \<Rightarrow> Inl (InvalidPort port)
                | Some p \<Rightarrow> Inr (host, p)))"

definition split_protocol :: "string \<Rightarrow> target_error + (protocol \<times> string)" where
  "split_protocol path =
     (case strip_prefix ''/tcp:'' path of
        Some rest \<Rightarrow> Inr (Tcp, rest)
      | None \<Rightarrow>
          (case strip_prefix ''/udp:'' path of
             Some rest \<Rightarrow> Inr (Udp, rest)
           | None \<Rightarrow> Inl PathPrefix))"

definition parse_target :: "string \<Rightarrow> target_error + target" where
  "parse_target path =
     (case split_protocol path of
        Inl e \<Rightarrow> Inl e
      | Inr (protocol, target) \<Rightarrow>
          (case parse_host_port target of
             Inl e \<Rightarrow> Inl e
           | Inr (host, port) \<Rightarrow> Inr \<lparr>t_protocol = protocol, t_host = host, t_port = port\<rparr>))"

definition parse_target_addr :: "string \<Rightarrow> target_error + target" where
  "parse_target_addr target =
     (case parse_host_port target of
        Inl e \<Rightarrow> Inl e
      | Inr (host, port) \<Rightarrow> Inr \<lparr>t_protocol = Tcp, t_host = host, t_port = port\<rparr>)"

lemmas [evals] = addr_def host_part_def parse_host_port_def split_protocol_def parse_target_def
  parse_target_addr_def

section \<open>The accepted language\<close>

text \<open>
  A host is a non-empty text without a colon that does not open a bracket, or a bracketed text
  that is not empty and does not hold the closing \<open>]:\<close> itself.
\<close>

definition host_ok :: "string \<Rightarrow> bool" where
  "host_ok h \<longleftrightarrow>
     (if prefix ''['' h
      then \<exists>x. h = ''['' @ x @ '']'' \<and> x \<noteq> [] \<and> (\<forall>u v. x @ '']'' \<noteq> u @ '']:'' @ v)
      else h \<noteq> [] \<and> CHR '':'' \<notin> set h)"

lemma split_close_bracket:
  assumes "\<forall>u v. x @ '']'' \<noteq> u @ '']:'' @ v"
  shows "split_once '']:'' (x @ '']:'' @ r) = Some (x, r)"
  using assms
proof (induction x)
  case (Cons c x)
  have "x @ '']'' \<noteq> u @ '']:'' @ v" for u v
    using Cons.prems by (metis append_Cons)
  then have IH: "split_once '']:'' (x @ '']:'' @ r) = Some (x, r)" using Cons.IH by blast
  have "\<not> prefix '']:'' (c # x @ '']:'' @ r)"
  proof
    assume "prefix '']:'' (c # x @ '']:'' @ r)"
    then have "c = CHR '']''" and "x \<noteq> [] \<and> hd x = CHR '':''"
      by (auto simp: prefix_def) (cases x; auto)+
    then have "(c # x) @ '']'' = [] @ '']:'' @ tl x @ '']''"
      by (cases x) auto
    with Cons.prems show False by blast
  qed
  with IH show ?case by simp
qed (simp add: prefix_def)

lemma split_close_bracket_Some:
  assumes "split_once '']:'' s = Some (x, r)"
  shows "x @ '']'' \<noteq> u @ '']:'' @ v"
proof
  assume eq: "x @ '']'' = u @ '']:'' @ v"
  have s: "s = x @ '']:'' @ r" using split_once_Some [OF assms] .
  with eq have "s = u @ '']:'' @ (v @ '':'' @ r)"
    by (metis append.assoc append_Cons append_Nil)
  then have "length x \<le> length u" by (rule split_once_first [OF assms])
  moreover have "length (x @ '']'') = length (u @ '']:'' @ v)" using eq by simp
  ultimately show False by simp
qed

lemma host_part_Inr_iff:
  "host_part s = Inr (h, ps) \<and> h \<noteq> [] \<longleftrightarrow>
     s = h @ '':'' @ ps \<and> host_ok h \<and> (prefix ''['' h \<or> CHR '':'' \<notin> set ps)"
proof (cases "prefix ''['' s")
  case True
  then obtain r where s: "s = ''['' @ r" by (auto simp: prefix_def)
  then have hp: "host_part s = (case split_once '']:'' r of None \<Rightarrow> Inl Ipv6Format
     | Some (host, port) \<Rightarrow> if host = [] then Inl HostEmpty else Inr (''['' @ host @ '']'', port))"
    by (simp add: host_part_def strip_prefix_def)
  show ?thesis
  proof
    assume "host_part s = Inr (h, ps) \<and> h \<noteq> []"
    then obtain x where x: "split_once '']:'' r = Some (x, ps)" "x \<noteq> []" "h = ''['' @ x @ '']''"
      by (auto simp: hp split: option.splits if_splits)
    have "r = x @ '']:'' @ ps" using split_once_Some [OF x(1)] .
    with x split_close_bracket_Some [OF x(1)] s
    show "s = h @ '':'' @ ps \<and> host_ok h \<and> (prefix ''['' h \<or> CHR '':'' \<notin> set ps)"
      by (auto simp: host_ok_def)
  next
    assume r: "s = h @ '':'' @ ps \<and> host_ok h \<and> (prefix ''['' h \<or> CHR '':'' \<notin> set ps)"
    then have "h \<noteq> []" by (auto simp: host_ok_def split: if_splits)
    with r s have "prefix ''['' h" by (cases h) (auto simp: prefix_def)
    with r obtain x where x: "h = ''['' @ x @ '']''" "x \<noteq> []"
      and no: "\<forall>u v. x @ '']'' \<noteq> u @ '']:'' @ v"
      by (auto simp: host_ok_def)
    from r s x have "r = x @ '']:'' @ ps" by simp
    with split_close_bracket [OF no, of ps] x show "host_part s = Inr (h, ps) \<and> h \<noteq> []"
      by (simp add: hp)
  qed
next
  case False
  then have hp: "host_part s = (case rsplit_once '':'' s of None \<Rightarrow> Inl HostPortFormat
     | Some (host, port) \<Rightarrow> if CHR '':'' \<in> set host then Inl Ipv6NotBracketed else Inr (host, port))"
    by (simp add: host_part_def strip_prefix_def)
  have "host_part s = Inr (h, ps) \<longleftrightarrow> rsplit_once '':'' s = Some (h, ps) \<and> CHR '':'' \<notin> set h"
    by (auto simp: hp split: option.splits if_splits)
  moreover from False have "s = h @ '':'' @ ps \<Longrightarrow> h \<noteq> [] \<Longrightarrow> \<not> prefix ''['' h"
    by (auto simp: prefix_def)
  moreover have "host_ok h \<Longrightarrow> h \<noteq> []" by (auto simp: host_ok_def split: if_splits)
  ultimately show ?thesis
    by (auto simp: rsplit_once_char_iff host_ok_def)
qed

lemma host_ok_not_Nil: "host_ok h \<Longrightarrow> h \<noteq> []"
  by (auto simp: host_ok_def split: if_splits)

lemma parse_host_port_Inr_iff:
  "parse_host_port s = Inr (h, p) \<longleftrightarrow>
     (\<exists>ps. s = h @ '':'' @ ps \<and> host_ok h \<and> parse_u16 ps = Some p)"
proof -
  have "parse_host_port s = Inr (h, p) \<longleftrightarrow>
      (\<exists>ps. (host_part s = Inr (h, ps) \<and> h \<noteq> []) \<and> parse_u16 ps = Some p)"
    by (auto simp: parse_host_port_def split: sum.splits prod.splits if_splits option.splits)
  then show ?thesis
    unfolding host_part_Inr_iff using parse_u16_no_colon by blast
qed

lemma split_protocol_Inr_iff:
  "split_protocol path = Inr (pr, r) \<longleftrightarrow>
     path = (case pr of Tcp \<Rightarrow> ''/tcp:'' | Udp \<Rightarrow> ''/udp:'') @ r"
  by (auto simp: split_protocol_def strip_prefix_def prefix_def split: protocol.splits)

section \<open>Properties\<close>

text \<open>
  (C36) \<open>parse_target\<close> accepts exactly \<open>/tcp:\<close> or \<open>/udp:\<close> followed by a host (bracketed, or free of
  colons), a colon and a port text that parses as a \<open>u16\<close>, and returns those parts.
\<close>

theorem parse_target_accepts:
  "parse_target path = Inr t \<longleftrightarrow>
     (\<exists>ps. path = (case t_protocol t of Tcp \<Rightarrow> ''/tcp:'' | Udp \<Rightarrow> ''/udp:'')
                     @ t_host t @ '':'' @ ps
           \<and> host_ok (t_host t) \<and> parse_u16 ps = Some (t_port t))"
proof -
  have "parse_target path = Inr t \<longleftrightarrow>
      (\<exists>r. split_protocol path = Inr (t_protocol t, r)
         \<and> parse_host_port r = Inr (t_host t, t_port t))"
    by (cases t) (auto simp: parse_target_def split: sum.splits prod.splits)
  then show ?thesis
    by (auto simp: split_protocol_Inr_iff parse_host_port_Inr_iff)
qed

text \<open>
  The printed address of a parsed target is a normal form: it parses back to the same host and
  port, as an allow-list entry and after either path prefix, whatever form the port was written in.
\<close>

theorem addr_round_trip:
  assumes "parse_target path = Inr t"
  shows "parse_target_addr (addr t) = Inr (t\<lparr>t_protocol := Tcp\<rparr>) \<and>
    parse_target (''/tcp:'' @ addr t) = Inr (t\<lparr>t_protocol := Tcp\<rparr>) \<and>
    parse_target (''/udp:'' @ addr t) = Inr (t\<lparr>t_protocol := Udp\<rparr>)"
proof -
  from assms have "host_ok (t_host t)"
    by (auto simp: parse_target_def parse_host_port_Inr_iff split: sum.splits prod.splits)
  then have hp: "parse_host_port (addr t) = Inr (t_host t, t_port t)"
    by (auto simp: parse_host_port_Inr_iff addr_def)
  have "split_protocol (''/tcp:'' @ addr t) = Inr (Tcp, addr t)"
    and "split_protocol (''/udp:'' @ addr t) = Inr (Udp, addr t)"
    by (simp_all add: split_protocol_Inr_iff)
  with hp show ?thesis by (simp add: parse_target_def parse_target_addr_def)
qed

lemma parse_example:
  "parse_target ''/udp:[2001:db8::1]:0053'' =
     Inr \<lparr>t_protocol = Udp, t_host = ''[2001:db8::1]'', t_port = 53\<rparr>"
  by (simp add: evals)

theorem addr_round_trip_witness:
  "parse_target_addr (addr \<lparr>t_protocol = Udp, t_host = ''[2001:db8::1]'', t_port = 53\<rparr>) =
     Inr \<lparr>t_protocol = Tcp, t_host = ''[2001:db8::1]'', t_port = 53\<rparr>"
  using addr_round_trip [OF parse_example] by simp

end
