(* ===== verification/StdNet.thy ===== *)
theory StdNet
  imports RustStr "HOL-Library.Monad_Syntax"
begin

text \<open>
  The part of \<open>std::net\<close> the sources call: addresses, their parser (\<open>core::net::parser\<close>, a
  recursive-descent parser that gives back the unread rest), \<open>to_canonical\<close>, the order on
  addresses and their \<open>Display\<close> form.
\<close>

section \<open>Addresses\<close>

datatype ip_addr = V4 u32 | V6 u128

record socket_addr =
  sa_ip :: ip_addr
  sa_port :: u16
  sa_scope :: u32

definition is_ipv4 :: "ip_addr \<Rightarrow> bool" where
  "is_ipv4 a = (case a of V4 _ \<Rightarrow> True | V6 _ \<Rightarrow> False)"

text \<open>\<open>IpAddr::to_canonical\<close>: an IPv4-mapped IPv6 address becomes the IPv4 address.\<close>

definition to_canonical :: "ip_addr \<Rightarrow> ip_addr" where
  "to_canonical a =
     (case a of
        V4 x \<Rightarrow> V4 x
      | V6 x \<Rightarrow> if drop_bit 32 x = 0xFFFF then V4 (ucast x) else V6 x)"

lemma to_canonical_idem [simp]: "to_canonical (to_canonical a) = to_canonical a"
  by (simp add: to_canonical_def split: ip_addr.splits)

text \<open>The derived order: every IPv4 address before every IPv6 address, else by value.\<close>

instantiation ip_addr :: linorder
begin

definition less_eq_ip_addr :: "ip_addr \<Rightarrow> ip_addr \<Rightarrow> bool" where
  "a \<le> b \<longleftrightarrow>
     (case (a, b) of
        (V4 x, V4 y) \<Rightarrow> x \<le> y | (V4 _, V6 _) \<Rightarrow> True
      | (V6 _, V4 _) \<Rightarrow> False | (V6 x, V6 y) \<Rightarrow> x \<le> y)"

definition less_ip_addr :: "ip_addr \<Rightarrow> ip_addr \<Rightarrow> bool" where
  "a < b \<longleftrightarrow> a \<le> b \<and> \<not> b \<le> (a :: ip_addr)"

instance
  by standard (auto simp: less_eq_ip_addr_def less_ip_addr_def split: ip_addr.splits)

end

section \<open>Parsing\<close>

type_synonym 'a parser = "string \<Rightarrow> ('a \<times> string) option"

definition read_given_char :: "char \<Rightarrow> string \<Rightarrow> string option" where
  "read_given_char c s = (case s of [] \<Rightarrow> None | x # xs \<Rightarrow> if x = c then Some xs else None)"

text \<open>
  \<open>read_number\<close>: the longest run of digits, refused when it is empty, has more than \<open>maxd\<close> digits,
  has a leading zero that is not allowed, or exceeds the greatest value \<open>m\<close> of the result type.
\<close>

definition read_number :: "nat \<Rightarrow> nat option \<Rightarrow> bool \<Rightarrow> nat \<Rightarrow> nat parser" where
  "read_number radix maxd allow_zero_prefix m s =
     (let ds = takeWhile (\<lambda>c. to_digit radix c \<noteq> None) s;
          n = foldl (\<lambda>a c. radix * a + the (to_digit radix c)) 0 ds
      in if (case maxd of None \<Rightarrow> False | Some k \<Rightarrow> k < length ds) then None
         else if ds = [] then None
         else if \<not> allow_zero_prefix \<and> hd ds = CHR ''0'' \<and> 1 < length ds then None
         else if m < n then None
         else Some (n, drop (length ds) s))"

definition read_octet :: "nat parser" where
  "read_octet = read_number 10 (Some 3) False 255"

definition read_ipv4 :: "nat parser" where
  "read_ipv4 s = do {
     (a, s) \<leftarrow> read_octet s;
     s \<leftarrow> read_given_char (CHR ''.'') s;
     (b, s) \<leftarrow> read_octet s;
     s \<leftarrow> read_given_char (CHR ''.'') s;
     (c, s) \<leftarrow> read_octet s;
     s \<leftarrow> read_given_char (CHR ''.'') s;
     (d, s) \<leftarrow> read_octet s;
     Some (((a * 256 + b) * 256 + c) * 256 + d, s)
   }"

definition read_separator :: "bool \<Rightarrow> 'a parser \<Rightarrow> 'a parser" where
  "read_separator first p s = (if first then p s else read_given_char (CHR '':'') s \<bind> p)"

text \<open>
  \<open>read_groups\<close>: up to \<open>k\<close> groups of an IPv6 address; an embedded IPv4 address counts as the last
  two and ends the reading.
\<close>

fun read_groups :: "nat \<Rightarrow> bool \<Rightarrow> string \<Rightarrow> nat list \<times> bool \<times> string" where
  "read_groups 0 first s = ([], False, s)"
| "read_groups (Suc k) first s =
     (case (if 0 < k then read_separator first read_ipv4 s else None) of
        Some (v, s') \<Rightarrow> ([v div 65536, v mod 65536], True, s')
      | None \<Rightarrow>
          (case read_separator first (read_number 16 (Some 4) True 65535) s of
             None \<Rightarrow> ([], False, s)
           | Some (g, s') \<Rightarrow>
               (case read_groups k False s' of (gs, v4, r) \<Rightarrow> (g # gs, v4, r))))"

definition ipv6_of_groups :: "nat list \<Rightarrow> u128" where
  "ipv6_of_groups gs = of_nat (foldl (\<lambda>a g. 65536 * a + g) 0 gs)"

definition read_ipv6 :: "u128 parser" where
  "read_ipv6 s =
     (case read_groups 8 True s of
        (head, v4, s1) \<Rightarrow>
          if length head = 8 then Some (ipv6_of_groups head, s1)
          else if v4 then None
          else do {
            s2 \<leftarrow> read_given_char (CHR '':'') s1;
            s3 \<leftarrow> read_given_char (CHR '':'') s2;
            (case read_groups (7 - length head) True s3 of
               (tail, _, s4) \<Rightarrow>
                 Some (ipv6_of_groups
                         (head @ replicate (8 - length head - length tail) 0 @ tail), s4))
          })"

definition read_ip_addr :: "ip_addr parser" where
  "read_ip_addr s =
     (case read_ipv4 s of
        Some (v, r) \<Rightarrow> Some (V4 (of_nat v), r)
      | None \<Rightarrow> map_option (\<lambda>(x, r). (V6 x, r)) (read_ipv6 s))"

definition read_port :: "nat parser" where
  "read_port s = read_given_char (CHR '':'') s \<bind> read_number 10 None True 65535"

definition read_scope_id :: "nat parser" where
  "read_scope_id s = read_given_char (CHR ''%'') s \<bind> read_number 10 None True 4294967295"

definition read_socket_addr_v4 :: "socket_addr parser" where
  "read_socket_addr_v4 s = do {
     (v, s) \<leftarrow> read_ipv4 s;
     (p, s) \<leftarrow> read_port s;
     Some (\<lparr>sa_ip = V4 (of_nat v), sa_port = of_nat p, sa_scope = 0\<rparr>, s)
   }"

definition read_socket_addr_v6 :: "socket_addr parser" where
  "read_socket_addr_v6 s = do {
     s \<leftarrow> read_given_char (CHR ''['') s;
     (x, s) \<leftarrow> read_ipv6 s;
     (scope, s) \<leftarrow> (case read_scope_id s of None \<Rightarrow> Some (0, s) | Some r \<Rightarrow> Some r);
     s \<leftarrow> read_given_char (CHR '']'') s;
     (p, s) \<leftarrow> read_port s;
     Some (\<lparr>sa_ip = V6 x, sa_port = of_nat p, sa_scope = of_nat scope\<rparr>, s)
   }"

text \<open>\<open>parse_with\<close>: the whole input must be read.\<close>

definition parse_with :: "'a parser \<Rightarrow> string \<Rightarrow> 'a option" where
  "parse_with p s = (case p s of Some (x, []) \<Rightarrow> Some x | _ \<Rightarrow> None)"

definition parse_ip_addr :: "string \<Rightarrow> ip_addr option" where
  "parse_ip_addr = parse_with read_ip_addr"

definition parse_socket_addr :: "string \<Rightarrow> socket_addr option" where
  "parse_socket_addr = parse_with
     (\<lambda>s. case read_socket_addr_v4 s of Some r \<Rightarrow> Some r | None \<Rightarrow> read_socket_addr_v6 s)"

section \<open>Printing\<close>

definition octet :: "u32 \<Rightarrow> nat \<Rightarrow> nat" where
  "octet x i = unat x div 256 ^ (3 - i) mod 256"

definition show_ipv4 :: "u32 \<Rightarrow> string" where
  "show_ipv4 x = show_nat (octet x 0) @ ''.'' @ show_nat (octet x 1) @ ''.''
     @ show_nat (octet x 2) @ ''.'' @ show_nat (octet x 3)"

definition hex_char :: "nat \<Rightarrow> char" where
  "hex_char d = (if d < 10 then char_of (48 + d) else char_of (87 + d))"

fun show_hex :: "nat \<Rightarrow> string" where
  "show_hex n = (if n < 16 then [hex_char n] else show_hex (n div 16) @ [hex_char (n mod 16)])"

declare show_hex.simps [simp del]

definition segments :: "u128 \<Rightarrow> nat list" where
  "segments x = map (\<lambda>i. unat x div 65536 ^ (7 - i) mod 65536) [0, 1, 2, 3, 4, 5, 6, 7]"

fun longest_zeros :: "nat list \<Rightarrow> nat \<Rightarrow> nat \<times> nat \<Rightarrow> nat \<times> nat \<Rightarrow> nat \<times> nat" where
  "longest_zeros [] i current longest = longest"
| "longest_zeros (g # gs) i current longest =
     (if g = 0 then
        (let current = (if snd current = 0 then (i, 1) else (fst current, snd current + 1));
             longest = (if snd longest < snd current then current else longest)
         in longest_zeros gs (Suc i) current longest)
      else longest_zeros gs (Suc i) (0, 0) longest)"

fun join_hex :: "nat list \<Rightarrow> string" where
  "join_hex [] = []"
| "join_hex [g] = show_hex g"
| "join_hex (g # gs) = show_hex g @ '':'' @ join_hex gs"

definition show_ipv6 :: "u128 \<Rightarrow> string" where
  "show_ipv6 x =
     (if drop_bit 32 x = 0xFFFF then ''::ffff:'' @ show_ipv4 (ucast x)
      else (let gs = segments x; (start, len) = longest_zeros gs 0 (0, 0) (0, 0)
            in if 1 < len then join_hex (take start gs) @ ''::'' @ join_hex (drop (start + len) gs)
               else join_hex gs))"

definition show_ip_addr :: "ip_addr \<Rightarrow> string" where
  "show_ip_addr a = (case a of V4 x \<Rightarrow> show_ipv4 x | V6 x \<Rightarrow> show_ipv6 x)"

definition show_socket_addr :: "socket_addr \<Rightarrow> string" where
  "show_socket_addr a =
     (case sa_ip a of
        V4 x \<Rightarrow> show_ipv4 x @ '':'' @ show_nat (unat (sa_port a))
      | V6 x \<Rightarrow>
          ''['' @ show_ipv6 x
            @ (if sa_scope a = 0 then [] else ''%'' @ show_nat (unat (sa_scope a)))
            @ '']:'' @ show_nat (unat (sa_port a)))"

lemmas [evals] = is_ipv4_def to_canonical_def read_given_char_def read_number_def read_octet_def
  read_ipv4_def read_separator_def ipv6_of_groups_def read_ipv6_def read_ip_addr_def read_port_def
  read_scope_id_def read_socket_addr_v4_def read_socket_addr_v6_def parse_with_def
  parse_ip_addr_def parse_socket_addr_def octet_def show_ipv4_def hex_char_def show_hex.simps
  segments_def show_ipv6_def show_ip_addr_def show_socket_addr_def

lemma read_groups_numeral [evals]:
  "read_groups (numeral n) first s =
     (case (if 0 < (pred_numeral n) then read_separator first read_ipv4 s else None) of
        Some (v, s') \<Rightarrow> ([v div 65536, v mod 65536], True, s')
      | None \<Rightarrow>
          (case read_separator first (read_number 16 (Some 4) True 65535) s of
             None \<Rightarrow> ([], False, s)
           | Some (g, s') \<Rightarrow>
               (case read_groups (pred_numeral n) False s' of (gs, v4, r) \<Rightarrow> (g # gs, v4, r))))"
  by (simp only: numeral_eq_Suc read_groups.simps)

lemma replicate_numeral_eval [evals]: "replicate (numeral k) x = x # replicate (pred_numeral k) x"
  by (simp add: numeral_eq_Suc)

section \<open>Reading back a printed IPv4 address\<close>

definition dec_value :: "string \<Rightarrow> nat" where
  "dec_value ds = foldl (\<lambda>a c. 10 * a + the (to_digit 10 c)) 0 ds"

lemma dec_value_show_nat: "dec_value (show_nat n) = n"
proof (induction n rule: show_nat.induct)
  case (1 n)
  then show ?case by (cases "n < 10") (simp_all add: show_nat.simps [of n] dec_value_def)
qed

lemma show_nat_head: "hd (show_nat n) = CHR ''0'' \<Longrightarrow> n = 0"
proof (induction n rule: show_nat.induct)
  case (1 n)
  show ?case
  proof (cases "n < 10")
    case True
    have "n = the (to_digit 10 (hd (show_nat n)))" using True by (simp add: show_nat.simps [of n])
    also have "\<dots> = 0" using "1.prems" by (simp add: to_digit_def)
    finally show ?thesis .
  next
    case False
    with "1.prems" have "hd (show_nat (n div 10)) = CHR ''0''"
      by (simp add: show_nat.simps [of n])
    with False "1.IH" show ?thesis by simp
  qed
qed

lemma length_show_octet: "n < 1000 \<Longrightarrow> length (show_nat n) \<le> 3"
  by (simp add: show_nat.simps [of n] show_nat.simps [of "n div 10"] show_nat.simps [of "n div 100"]
      div_mult2_eq [symmetric])

lemma takeWhile_digits:
  assumes "r = [] \<or> to_digit 10 (hd r) = None"
  shows "takeWhile (\<lambda>c. to_digit 10 c \<noteq> None) (show_nat n @ r) = show_nat n"
proof -
  have "\<forall>c \<in> set (show_nat n). to_digit 10 c \<noteq> None" by (auto dest!: show_nat_digits)
  with assms show ?thesis by (cases r) (simp_all add: takeWhile_append2)
qed

lemma read_octet_show:
  assumes "n < 256" and "r = [] \<or> to_digit 10 (hd r) = None"
  shows "read_octet (show_nat n @ r) = Some (n, r)"
proof -
  have "foldl (\<lambda>a c. 10 * a + the (to_digit 10 c)) 0 (show_nat n) = n"
    using dec_value_show_nat [of n] by (simp only: dec_value_def)
  moreover have "length (show_nat n) \<le> 3" using assms(1) length_show_octet by simp
  moreover have "hd (show_nat n) = CHR ''0'' \<Longrightarrow> length (show_nat n) = 1"
    by (drule show_nat_head) (simp add: show_nat.simps)
  ultimately show ?thesis
    unfolding read_octet_def read_number_def takeWhile_digits [OF assms(2)] Let_def
    using assms(1) by auto
qed

lemma to_digit_dot [simp]: "to_digit 10 (CHR ''.'') = None"
  by (simp add: to_digit_def)

lemma horner_step: "(n :: nat) div (m * 256) * 256 + n div m mod 256 = n div m"
  by (simp add: div_mult2_eq)

lemma octet_sum: "((octet x 0 * 256 + octet x 1) * 256 + octet x 2) * 256 + octet x 3 = unat x"
proof -
  have "unat x < 256 ^ 4" using unsigned_less [of x, where 'a = nat] by simp
  then have "octet x 0 = unat x div (65536 * 256)" by (simp add: octet_def)
  moreover have "octet x 1 = unat x div 65536 mod 256" "octet x 2 = unat x div 256 mod 256"
    "octet x 3 = unat x div 1 mod 256"
    by (simp_all add: octet_def)
  ultimately show ?thesis
    using horner_step [of "unat x" 65536] horner_step [of "unat x" 256] horner_step [of "unat x" 1]
    by simp
qed

lemma read_ipv4_show:
  "r = [] \<or> to_digit 10 (hd r) = None \<Longrightarrow> read_ipv4 (show_ipv4 x @ r) = Some (unat x, r)"
proof -
  assume r: "r = [] \<or> to_digit 10 (hd r) = None"
  have "octet x i < 256" for i by (simp add: octet_def)
  then have "read_ipv4 (show_ipv4 x @ r) =
      Some (((octet x 0 * 256 + octet x 1) * 256 + octet x 2) * 256 + octet x 3, r)"
    by (simp add: read_ipv4_def show_ipv4_def read_octet_show read_given_char_def r)
  then show ?thesis by (simp only: octet_sum)
qed

lemma parse_show_ipv4: "parse_ip_addr (show_ipv4 x) = Some (V4 x)"
  using read_ipv4_show [of "[]" x]
  by (simp add: parse_ip_addr_def parse_with_def read_ip_addr_def)

end
