(* ===== verification/Ext.thy ===== *)
theory Ext
  imports RustStr
begin

text \<open>
  The types of the values that third-party crates exchange with the sources. The crates' functions
  themselves are parameters of the model: fields of the record \<open>ext\<close> or arguments of the definitions
  that use them. What a property relies on is a named predicate on these parameters.
\<close>

section \<open>Requests and responses\<close>

text \<open>
  What \<open>httparse::Request\<close> holds after \<open>parse\<close> answered \<open>Complete\<close>; the parser is an argument,
  from the number of header slots and the bytes to this record (\<open>None\<close>: an error or a partial head).
\<close>

record parsed_head =
  ph_method :: "string option"
  ph_path :: "string option"
  ph_headers :: "(string \<times> bytes) list"

type_synonym head_parser = "nat \<Rightarrow> bytes \<Rightarrow> parsed_head option"

text \<open>
  A \<open>http::Request\<close> by what its accessors answer: \<open>method()\<close>, \<open>uri().path()\<close> and
  \<open>headers().get(name)\<close> for a lower-case name.
\<close>

record request =
  rq_method :: string
  rq_path :: string
  rq_header :: "string \<Rightarrow> bytes option"

text \<open>
  A \<open>http::Response\<close> as the sources build it: the status, the calls made on its empty header map, in
  order, and the body.
\<close>

datatype header_op = HdrInsert string string | HdrAppend string string

record response =
  rs_status :: nat
  rs_headers :: "header_op list"
  rs_body :: "string option"

section \<open>Library functions\<close>

text \<open>
  \<open>base64\<close>: the two engines. \<open>ring\<close>: SHA-256 and HMAC-SHA-256. \<open>http\<close>: \<open>HeaderValue::to_str\<close> and
  whether a text parses as a \<open>HeaderValue\<close>. \<open>subtle\<close>: the constant-time comparison.
\<close>

record ext =
  b64_std_encode :: "bytes \<Rightarrow> string"
  b64_std_decode :: "string \<Rightarrow> bytes option"
  b64_url_encode :: "bytes \<Rightarrow> string"
  b64_url_decode :: "string \<Rightarrow> bytes option"
  sha256 :: "bytes \<Rightarrow> bytes"
  hmac_sign :: "bytes \<Rightarrow> bytes \<Rightarrow> bytes"
  hmac_verify :: "bytes \<Rightarrow> bytes \<Rightarrow> bytes \<Rightarrow> bool"
  header_to_str :: "bytes \<Rightarrow> string option"
  header_parse_ok :: "string \<Rightarrow> bool"
  ct_eq :: "bytes \<Rightarrow> bytes \<Rightarrow> bool"

text \<open>\<open>request.headers().get(name).and_then(|value| value.to_str().ok())\<close>.\<close>

definition header_str :: "ext \<Rightarrow> request \<Rightarrow> string \<Rightarrow> string option" where
  "header_str x req name =
     (case rq_header req name of None \<Rightarrow> None | Some v \<Rightarrow> header_to_str x v)"

section \<open>What the properties rely on\<close>

text \<open>
  Decoding inverts encoding, the URL-safe engine writes letters, digits, \<open>-\<close> and \<open>_\<close> only, a tag verifies under the key that
  signed it, a text of printable ASCII parses as a header value and is read back as it is, and the
  constant-time comparison is equality.
\<close>

definition visible :: "string \<Rightarrow> bool" where
  "visible s \<longleftrightarrow> (\<forall>c \<in> set s. 32 \<le> (of_char c :: nat) \<and> (of_char c :: nat) \<le> 126)"

definition url_char :: "char \<Rightarrow> bool" where
  "url_char c \<longleftrightarrow> (let n = of_char c :: nat in 48 \<le> n \<and> n \<le> 57 \<or> 65 \<le> n \<and> n \<le> 90 \<or>
     97 \<le> n \<and> n \<le> 122 \<or> n = 45 \<or> n = 95)"

definition ext_ok :: "ext \<Rightarrow> bool" where
  "ext_ok x \<longleftrightarrow>
     (\<forall>bs. b64_std_decode x (b64_std_encode x bs) = Some bs) \<and>
     (\<forall>bs. b64_url_decode x (b64_url_encode x bs) = Some bs) \<and>
     (\<forall>bs. list_all url_char (b64_url_encode x bs)) \<and>
     (\<forall>k m. hmac_verify x k m (hmac_sign x k m)) \<and>
     (\<forall>s. visible s \<longrightarrow> header_parse_ok x s \<and> header_to_str x (as_bytes s) = Some s) \<and>
     (\<forall>a b. ct_eq x a b \<longleftrightarrow> a = b)"

text \<open>An instance that satisfies it, for concrete evaluations: bytes as pairs of letters.\<close>

fun nibbles :: "bytes \<Rightarrow> string" where
  "nibbles [] = []"
| "nibbles (b # bs) = char_of (97 + unat b div 16) # char_of (97 + unat b mod 16) # nibbles bs"

fun un_nibbles :: "string \<Rightarrow> bytes option" where
  "un_nibbles [] = Some []"
| "un_nibbles [c] = None"
| "un_nibbles (c # d # cs) =
     map_option (\<lambda>bs. of_nat ((of_char c - 97) * 16 + (of_char d - 97)) # bs) (un_nibbles cs)"

definition demo_ext :: ext where
  "demo_ext =
     \<lparr>b64_std_encode = nibbles, b64_std_decode = un_nibbles,
      b64_url_encode = nibbles, b64_url_decode = un_nibbles,
      sha256 = (\<lambda>bs. bs),
      hmac_sign = (\<lambda>k m. k @ m),
      hmac_verify = (\<lambda>k m t. t = k @ m),
      header_to_str = (\<lambda>bs. Some (str_of_bytes bs)),
      header_parse_ok = (\<lambda>_. True),
      ct_eq = (=)\<rparr>"

lemma un_nibbles_nibbles: "un_nibbles (nibbles bs) = Some bs"
proof (induction bs)
  case (Cons b bs)
  have b: "unat b < 256" using unsigned_less [of b, where 'a = nat] by simp
  have "unat b div 16 < 16" "unat b mod 16 < 16" using b by auto
  then have "of_char (char_of (97 + unat b div 16) :: char) = 97 + unat b div 16"
    "of_char (char_of (97 + unat b mod 16) :: char) = 97 + unat b mod 16"
    by simp_all
  with Cons show ?case by simp
qed simp

lemma nibbles_url: "list_all url_char (nibbles bs)"
proof (induction bs)
  case (Cons b bs)
  have "unat b < 256" using unsigned_less [of b, where 'a = nat] by simp
  then have "unat b div 16 < 16" "unat b mod 16 < 16" by auto
  moreover have "url_char (char_of (97 + n))" if "n < 16" for n :: nat
    using that by (simp add: url_char_def Let_def)
  ultimately show ?case using Cons by simp
qed simp

lemma demo_ext_ok: "ext_ok demo_ext"
  by (simp add: ext_ok_def demo_ext_def un_nibbles_nibbles nibbles_url)

text \<open>Encoded text holds no dot, no quote, no blank.\<close>

lemma b64_url_chars: "ext_ok x \<Longrightarrow> c \<in> set (b64_url_encode x bs) \<Longrightarrow> url_char c"
  by (auto simp: ext_ok_def list_all_iff)

lemma b64_url_notin [simp]: "ext_ok x \<Longrightarrow> \<not> url_char c \<Longrightarrow> c \<notin> set (b64_url_encode x bs)"
  using b64_url_chars by blast

lemma not_url_char [simp]: "\<not> url_char (CHR ''.'')" "\<not> url_char (CHR 0x22)" "\<not> url_char (CHR '' '')"
  by (simp_all add: url_char_def)

lemma b64_url_printable: "ext_ok x \<Longrightarrow> printable (b64_url_encode x bs)"
  using b64_url_chars [of x _ bs] by (fastforce simp: printable_def url_char_def Let_def)

end
