(* ===== verification/ClientAddr.thy ===== *)
theory ClientAddr
  imports StdNet Ext
begin

text \<open>
  \<open>src/client_addr.rs\<close>: address ranges, trusted proxies and the address a connection is reported
  under. The lemmas show what a range contains, exactly what a range is parsed to, and what a client can and
  cannot change by what it writes left of what the trusted proxies appended: nothing, as long as the head and the line can be
  read.
\<close>

section \<open>Address ranges\<close>

record ip_range =
  r_addr :: ip_addr
  r_prefix :: u8

datatype range_error = NotAnAddress string | MappedAddress string | InvalidPrefix string nat

text \<open>\<open>checked_shl\<close>: \<open>None\<close> when the shift is not less than the width.\<close>

definition checked_shl :: "'a::len word \<Rightarrow> u32 \<Rightarrow> 'a word option" where
  "checked_shl x n = (if unat n < LENGTH('a) then Some (push_bit (unat n) x) else None)"

definition unwrap_or :: "'a option \<Rightarrow> 'a \<Rightarrow> 'a" where
  "unwrap_or x d = (case x of None \<Rightarrow> d | Some v \<Rightarrow> v)"

definition IpRange_contains :: "ip_range \<Rightarrow> ip_addr \<Rightarrow> bool" where
  "IpRange_contains r ip =
     (case (r_addr r, to_canonical ip) of
        (V4 network, V4 ip) \<Rightarrow>
          (let mask = unwrap_or (checked_shl (- 1) (32 - ucast (r_prefix r))) 0
           in network AND mask = ip AND mask)
      | (V6 network, V6 ip) \<Rightarrow>
          (let mask = unwrap_or (checked_shl (- 1) (128 - ucast (r_prefix r))) 0
           in network AND mask = ip AND mask)
      | _ \<Rightarrow> False)"

definition IpRange_from_str :: "string \<Rightarrow> range_error + ip_range" where
  "IpRange_from_str input =
     (let (addr, pfx) = (case split_once ''/'' input of
                              Some (addr, pfx) \<Rightarrow> (addr, Some pfx)
                            | None \<Rightarrow> (input, None))
      in case parse_ip_addr (trim addr) of
           None \<Rightarrow> Inl (NotAnAddress input)
         | Some addr \<Rightarrow>
             if to_canonical addr \<noteq> addr then Inl (MappedAddress input)
             else
               (let max = (if is_ipv4 addr then 32 else 128 :: u8)
                in case pfx of
                     None \<Rightarrow> Inr \<lparr>r_addr = addr, r_prefix = max\<rparr>
                   | Some pfx \<Rightarrow>
                       (case parse_u8 (trim pfx) of
                          None \<Rightarrow> Inl (InvalidPrefix input (unat max))
                        | Some p \<Rightarrow>
                            if p \<le> max then Inr \<lparr>r_addr = addr, r_prefix = p\<rparr>
                            else Inl (InvalidPrefix input (unat max)))))"

definition IpRange_try_from :: "string \<Rightarrow> range_error + ip_range" where
  "IpRange_try_from input = IpRange_from_str input"

definition IpRange_loopback :: "ip_range list outcome" where
  "IpRange_loopback =
     (case collect_results (map IpRange_from_str [''127.0.0.0/8'', ''::1/128'']) of
        Inl _ \<Rightarrow> Panic
      | Inr ranges \<Rightarrow> Ret ranges)"

definition IpRange_display :: "ip_range \<Rightarrow> string" where
  "IpRange_display r = show_ip_addr (r_addr r) @ ''/'' @ show_nat (unat (r_prefix r))"

section \<open>Trusted proxies\<close>

record trusted_proxies =
  ranges :: "ip_range list"

definition TrustedProxies_new :: "ip_range list \<Rightarrow> trusted_proxies" where
  "TrustedProxies_new rs = \<lparr>ranges = rs\<rparr>"

definition TrustedProxies_contains :: "trusted_proxies \<Rightarrow> ip_addr \<Rightarrow> bool" where
  "TrustedProxies_contains tp ip = list_ex (\<lambda>r. IpRange_contains r ip) (ranges tp)"

definition parse_forwarded_address :: "string \<Rightarrow> ip_addr option" where
  "parse_forwarded_address entry =
     map_option to_canonical
       (case parse_ip_addr entry of
          Some ip \<Rightarrow> Some ip
        | None \<Rightarrow>
            (case parse_socket_addr entry of
               Some a \<Rightarrow> Some (sa_ip a)
             | None \<Rightarrow>
                 (case strip_prefix ''['' entry of
                    None \<Rightarrow> None
                  | Some e \<Rightarrow>
                      (case strip_suffix '']'' e of
                         None \<Rightarrow> None
                       | Some e \<Rightarrow> parse_ip_addr e))))"

text \<open>
  The loop of \<open>select_client\<close> over the entries from the right: \<open>Some r\<close> when it returns \<open>r\<close>,
  \<open>None\<close> when it runs to its end.
\<close>

fun select_scan :: "trusted_proxies \<Rightarrow> string list \<Rightarrow> ip_addr option option" where
  "select_scan tp [] = None"
| "select_scan tp (entry # rest) =
     (case parse_forwarded_address entry of
        None \<Rightarrow> Some None
      | Some ip \<Rightarrow> if \<not> TrustedProxies_contains tp ip then Some (Some ip) else select_scan tp rest)"

definition select_client :: "trusted_proxies \<Rightarrow> string list \<Rightarrow> ip_addr option" where
  "select_client tp entries =
     (case select_scan tp (rev entries) of
        Some r \<Rightarrow> r
      | None \<Rightarrow> (case entries of [] \<Rightarrow> None | e # _ \<Rightarrow> parse_forwarded_address e))"

definition FORWARDED_FOR :: string where
  "FORWARDED_FOR = ''x-forwarded-for''"

definition MAX_HEADERS :: nat where
  "MAX_HEADERS = 64"

definition forwarded_entries :: "(string \<times> bytes) list \<Rightarrow> string list" where
  "forwarded_entries headers =
     filter (\<lambda>entry. entry \<noteq> [])
       (map trim
         (concat (map (split_on (CHR '',''))
           (List.map_filter (\<lambda>(name, value). from_utf8 value)
             (filter (\<lambda>(name, value). eq_ignore_ascii_case name FORWARDED_FOR) headers)))))"

definition forwarded_client :: "head_parser \<Rightarrow> trusted_proxies \<Rightarrow> bytes \<Rightarrow> ip_addr option" where
  "forwarded_client httparse tp head =
     (case httparse MAX_HEADERS head of
        None \<Rightarrow> None
      | Some request \<Rightarrow> select_client tp (forwarded_entries (ph_headers request)))"

record client_addr =
  ca_peer :: socket_addr
  ca_forwarded :: "ip_addr option"

definition client_addr_of :: "head_parser \<Rightarrow> trusted_proxies \<Rightarrow> socket_addr \<Rightarrow> bytes \<Rightarrow> client_addr" where
  "client_addr_of httparse tp peer head =
     \<lparr>ca_peer = peer,
      ca_forwarded = (if TrustedProxies_contains tp (sa_ip peer)
                      then forwarded_client httparse tp head else None)\<rparr>"

definition ClientAddr_from :: "socket_addr \<Rightarrow> client_addr" where
  "ClientAddr_from peer = \<lparr>ca_peer = peer, ca_forwarded = None\<rparr>"

definition ClientAddr_display :: "client_addr \<Rightarrow> string" where
  "ClientAddr_display a =
     (case ca_forwarded a of
        Some ip \<Rightarrow> show_ip_addr ip
      | None \<Rightarrow> show_socket_addr (ca_peer a))"

fun display_ranges :: "nat \<Rightarrow> ip_range list \<Rightarrow> string" where
  "display_ranges index [] = []"
| "display_ranges index (r # rs) =
     (if 0 < index then '', '' else []) @ IpRange_display r @ display_ranges (Suc index) rs"

definition TrustedProxies_display :: "trusted_proxies \<Rightarrow> string" where
  "TrustedProxies_display tp =
     (if ranges tp = [] then ''none'' else display_ranges 0 (ranges tp))"

text \<open>\<open>FromStr for ClientAddr\<close>, which the tests of the sources use.\<close>

definition ClientAddr_from_str :: "string \<Rightarrow> client_addr option" where
  "ClientAddr_from_str input = map_option ClientAddr_from (parse_socket_addr input)"

declare TrustedProxies_new_def [simp]

lemmas [evals] = TrustedProxies_new_def ClientAddr_from_str_def checked_shl_def unwrap_or_def IpRange_contains_def IpRange_from_str_def
  IpRange_try_from_def IpRange_loopback_def IpRange_display_def TrustedProxies_contains_def
  parse_forwarded_address_def select_client_def FORWARDED_FOR_def MAX_HEADERS_def
  forwarded_entries_def forwarded_client_def client_addr_of_def ClientAddr_from_def
  ClientAddr_display_def TrustedProxies_display_def

section \<open>What a range contains\<close>

text \<open>The invariant of a range: the prefix length fits the family and the address is canonical.\<close>

definition range_ok :: "ip_range \<Rightarrow> bool" where
  "range_ok r \<longleftrightarrow>
     unat (r_prefix r) \<le> (if is_ipv4 (r_addr r) then 32 else 128) \<and>
     to_canonical (r_addr r) = r_addr r"

lemma masked_eq_iff:
  fixes x y :: "'a::len word"
  shows "x AND push_bit k (- 1) = y AND push_bit k (- 1) \<longleftrightarrow> drop_bit k x = drop_bit k y"
proof
  assume eq: "x AND push_bit k (- 1) = y AND push_bit k (- 1)"
  show "drop_bit k x = drop_bit k y"
  proof (rule bit_word_eqI)
    fix n assume "n < LENGTH('a)"
    show "bit (drop_bit k x) n \<longleftrightarrow> bit (drop_bit k y) n"
      using arg_cong [OF eq, of "\<lambda>w. bit w (k + n)"]
      by (auto simp: bit_simps dest: bit_imp_le_length)
  qed
next
  assume eq: "drop_bit k x = drop_bit k y"
  show "x AND push_bit k (- 1) = y AND push_bit k (- 1)"
  proof (rule bit_word_eqI)
    fix n assume "n < LENGTH('a)"
    show "bit (x AND push_bit k (- 1)) n \<longleftrightarrow> bit (y AND push_bit k (- 1)) n"
      using arg_cong [OF eq, of "\<lambda>w. bit w (n - k)"] by (auto simp: bit_simps)
  qed
qed

lemma drop_bit_width [simp]: "LENGTH('a) \<le> k \<Longrightarrow> drop_bit k (x :: 'a::len word) = 0"
  by (rule bit_word_eqI) (auto simp: bit_simps dest: bit_imp_le_length)

lemma unat_shift_amount:
  "unat p \<le> n \<Longrightarrow> n \<le> 128 \<Longrightarrow> unat (of_nat n - ucast (p :: u8) :: u32) = n - unat p"
proof -
  assume le: "unat p \<le> n" "n \<le> 128"
  have "unat (ucast p :: u32) = unat p" by transfer (simp add: min_def take_bit_eq_mod)
  moreover have "unat (of_nat n :: u32) = n" using le by (simp add: unat_of_nat)
  ultimately show ?thesis using le by (simp add: unat_sub word_le_nat_alt)
qed

lemma masked_range_eq:
  fixes x y :: "'a::len word"
  assumes "unat (p :: u8) \<le> LENGTH('a)" and "LENGTH('a) \<le> 128"
  shows "(let mask = unwrap_or (checked_shl (- 1) (of_nat LENGTH('a) - ucast p)) 0
          in x AND mask = y AND mask) \<longleftrightarrow>
         drop_bit (LENGTH('a) - unat p) x = drop_bit (LENGTH('a) - unat p) y"
  using assms masked_eq_iff [of x "LENGTH('a) - unat p" y]
  by (auto simp: checked_shl_def unwrap_or_def unat_shift_amount)

text \<open>
  (C39) For a well-formed range, \<open>IpRange::contains\<close> holds exactly when the address, with IPv4-mapped
  addresses read as IPv4, is of the range's family and agrees with it on the leading \<open>prefix\<close> bits;
  a prefix of zero contains the whole family.
\<close>

theorem IpRange_contains_prefix:
  assumes "range_ok r"
  shows "IpRange_contains r ip \<longleftrightarrow>
    (case (r_addr r, to_canonical ip) of
       (V4 n, V4 a) \<Rightarrow> drop_bit (32 - unat (r_prefix r)) n = drop_bit (32 - unat (r_prefix r)) a
     | (V6 n, V6 a) \<Rightarrow> drop_bit (128 - unat (r_prefix r)) n = drop_bit (128 - unat (r_prefix r)) a
     | _ \<Rightarrow> False)"
  using assms masked_range_eq [of "r_prefix r", where ?'a = 32]
    masked_range_eq [of "r_prefix r", where ?'a = 128]
  by (auto simp: IpRange_contains_def range_ok_def is_ipv4_def split: ip_addr.splits)

lemma range_10: "range_ok \<lparr>r_addr = V4 0x0A010203, r_prefix = 8\<rparr>"
  by (simp add: range_ok_def is_ipv4_def to_canonical_def)

theorem IpRange_contains_prefix_witness:
  "IpRange_contains \<lparr>r_addr = V4 0x0A010203, r_prefix = 8\<rparr> (V6 0xFFFF0A090909)"
  using IpRange_contains_prefix [OF range_10, of "V6 0xFFFF0A090909"]
  by (simp add: to_canonical_def)

text \<open>The texts before and after the first slash.\<close>

definition address_text :: "string \<Rightarrow> string" where
  "address_text input = takeWhile (\<lambda>c. c \<noteq> CHR ''/'') input"

definition prefix_text :: "string \<Rightarrow> string option" where
  "prefix_text input = (if CHR ''/'' \<in> set input then Some (drop (Suc (length (address_text input))) input) else None)"

lemma split_slash:
  "split_once ''/'' input = map_option (\<lambda>p. (address_text input, p)) (prefix_text input)"
proof (cases "CHR ''/'' \<in> set input")
  case True
  then obtain a b where input: "input = a @ CHR ''/'' # b" "CHR ''/'' \<notin> set a" by (auto dest: split_list_first)
  then have "takeWhile (\<lambda>c. c \<noteq> CHR ''/'') (a @ CHR ''/'' # b) = a @ takeWhile (\<lambda>c. c \<noteq> CHR ''/'') (CHR ''/'' # b)"
    by (intro takeWhile_append2) auto
  with input have "address_text input = a" by (simp add: address_text_def)
  with input show ?thesis by (simp add: split_once_char_notin prefix_text_def)
next
  case False
  then have "split_once ''/'' input = None"
    by (cases "split_once ''/'' input") (auto simp: split_once_char_iff)
  with False show ?thesis by (simp add: prefix_text_def)
qed

lemma address_text_whole: "CHR ''/'' \<notin> set input \<Longrightarrow> address_text input = input"
  unfolding address_text_def takeWhile_eq_all_conv by metis

definition family_width :: "ip_addr \<Rightarrow> nat" where
  "family_width ip = (if is_ipv4 ip then 32 else 128)"

text \<open>A prefix length that fits the family of \<open>ip\<close>: without one, the whole family_width.\<close>

definition prefix_length :: "string option \<Rightarrow> ip_addr \<Rightarrow> u8 \<Rightarrow> bool" where
  "prefix_length p ip k \<longleftrightarrow> unat k \<le> family_width ip \<and>
     (case p of None \<Rightarrow> unat k = family_width ip | Some t \<Rightarrow> parse_u8 (trim t) = Some k)"

lemma from_str_eq:
  "IpRange_from_str input =
     (case parse_ip_addr (trim (address_text input)) of
        None \<Rightarrow> Inl (NotAnAddress input)
      | Some ip \<Rightarrow>
          if to_canonical ip \<noteq> ip then Inl (MappedAddress input)
          else (case prefix_text input of
                  None \<Rightarrow> Inr \<lparr>r_addr = ip, r_prefix = of_nat (family_width ip)\<rparr>
                | Some t \<Rightarrow>
                    (case parse_u8 (trim t) of
                       None \<Rightarrow> Inl (InvalidPrefix input (family_width ip))
                     | Some k \<Rightarrow> if unat k \<le> family_width ip then Inr \<lparr>r_addr = ip, r_prefix = k\<rparr>
                         else Inl (InvalidPrefix input (family_width ip)))))"
proof (cases "prefix_text input")
  case None
  then have "address_text input = input" by (auto simp: prefix_text_def address_text_whole split: if_splits)
  with None show ?thesis
    by (cases "parse_ip_addr (trim input)") (simp_all add: IpRange_from_str_def split_slash family_width_def)
next
  case (Some t)
  then show ?thesis
    by (cases "parse_ip_addr (trim (address_text input))"; cases "parse_u8 (trim t)")
      (simp_all add: IpRange_from_str_def split_slash family_width_def word_le_nat_alt)
qed

lemma prefix_length_None: "prefix_length None ip k \<longleftrightarrow> k = of_nat (family_width ip)"
proof -
  have "unat (of_nat (family_width ip) :: u8) = family_width ip" by (simp add: family_width_def)
  then show ?thesis unfolding prefix_length_def by (auto simp: word_unat_eq_iff)
qed

text \<open>
  (C38) Exactly what a range is parsed to, and why it is refused. With the text before the first slash as the address and
  the text behind it as the prefix length, both trimmed: a range is accepted exactly when the address parses, is not an
  IPv4-mapped one, and the length, where one is given, is a number that fits the family; without one it is the
  whole width. Otherwise the refusal names exactly the first of these that fails, with the input and the largest length
  of the family. What is accepted is well formed, so the mask computation never subtracts below zero.
\<close>

theorem IpRange_from_str_ok:
  "(IpRange_from_str input = Inr r \<longleftrightarrow> parse_ip_addr (trim (address_text input)) = Some (r_addr r) \<and>
      to_canonical (r_addr r) = r_addr r \<and> prefix_length (prefix_text input) (r_addr r) (r_prefix r)) \<and>
   (IpRange_from_str input = Inl e \<longleftrightarrow>
      (case parse_ip_addr (trim (address_text input)) of
         None \<Rightarrow> e = NotAnAddress input
       | Some ip \<Rightarrow>
           if to_canonical ip \<noteq> ip then e = MappedAddress input
           else e = InvalidPrefix input (family_width ip) \<and> (\<nexists>k. prefix_length (prefix_text input) ip k))) \<and>
   (case IpRange_from_str input of Inr r \<Rightarrow> range_ok r | Inl _ \<Rightarrow> True)"
proof -
  have ok: "range_ok r" if "to_canonical (r_addr r) = r_addr r" "prefix_length p (r_addr r) (r_prefix r)" for p and r :: ip_range
    using that by (simp add: range_ok_def prefix_length_def family_width_def)
  let ?ip = "parse_ip_addr (trim (address_text input))"
  show ?thesis
  proof (cases "prefix_text input")
    case None
    then show ?thesis
      using ok [of "\<lparr>r_addr = ip, r_prefix = of_nat (family_width ip)\<rparr>" None for ip]
      by (cases r; cases ?ip) (auto simp: from_str_eq prefix_length_None)
  next
    case (Some t)
    then show ?thesis
      using ok [of _ "Some t"]
      by (cases r; cases ?ip; cases "parse_u8 (trim t)") (auto simp: from_str_eq prefix_length_def)
  qed
qed

section \<open>The built-in ranges\<close>

lemma loopback_eval:
  "IpRange_loopback = Ret [\<lparr>r_addr = V4 0x7F000000, r_prefix = 8\<rparr>, \<lparr>r_addr = V6 1, r_prefix = 128\<rparr>]"
  by code_simp

text \<open>
  The built-in ranges parse, so the \<open>expect\<close> of \<open>IpRange::loopback\<close> never panics, and as trusted
  proxies they contain exactly \<open>127.0.0.0/8\<close> (IPv4-mapped forms included) and \<open>::1\<close>.
\<close>

theorem IpRange_loopback_exact:
  "\<exists>rs. IpRange_loopback = Ret rs \<and> (\<forall>ip. TrustedProxies_contains \<lparr>ranges = rs\<rparr> ip \<longleftrightarrow>
     (case to_canonical ip of V4 a \<Rightarrow> drop_bit 24 a = 127 | V6 a \<Rightarrow> a = 1))"
proof -
  have "TrustedProxies_contains
      \<lparr>ranges = [\<lparr>r_addr = V4 0x7F000000, r_prefix = 8\<rparr>, \<lparr>r_addr = V6 1, r_prefix = 128\<rparr>]\<rparr> ip \<longleftrightarrow>
     (case to_canonical ip of V4 a \<Rightarrow> drop_bit 24 a = 127 | V6 a \<Rightarrow> a = 1)" for ip
    using masked_range_eq [of 8 "0x7F000000 :: u32"] masked_range_eq [of 128 "1 :: u128"]
    by (auto simp: TrustedProxies_contains_def IpRange_contains_def split: ip_addr.splits)
  then show ?thesis using loopback_eval by blast
qed

section \<open>Selecting the client\<close>

text \<open>An entry is a trusted proxy's when it is an address that the trusted ranges contain.\<close>

definition trusted_entry :: "trusted_proxies \<Rightarrow> string \<Rightarrow> bool" where
  "trusted_entry tp e \<longleftrightarrow>
     (case parse_forwarded_address e of None \<Rightarrow> False | Some ip \<Rightarrow> TrustedProxies_contains tp ip)"

lemma select_scan_dropWhile:
  "select_scan tp es =
     (case dropWhile (trusted_entry tp) es of [] \<Rightarrow> None | e # _ \<Rightarrow> Some (parse_forwarded_address e))"
  by (induction es) (auto simp: trusted_entry_def split: option.splits list.splits)

lemma dropWhile_append_hit:
  "\<exists>x \<in> set xs. \<not> P x \<Longrightarrow> dropWhile P (xs @ ys) = dropWhile P xs @ ys"
  by (induction xs) auto

lemma select_client_append:
  assumes "\<exists>e \<in> set zs. \<not> trusted_entry tp e"
  shows "select_client tp (xs @ zs) = select_client tp zs"
proof -
  obtain e r where d: "dropWhile (trusted_entry tp) (rev zs) = e # r"
    using assms by (metis dropWhile_eq_Nil_conv list.exhaust set_rev)
  then have "dropWhile (trusted_entry tp) (rev (xs @ zs)) = e # r @ rev xs"
    using assms by (simp add: dropWhile_append_hit)
  with d show ?thesis by (simp add: select_client_def select_scan_dropWhile)
qed

lemma forwarded_entries_append [simp]:
  "forwarded_entries (a @ b) = forwarded_entries a @ forwarded_entries b"
  by (simp add: forwarded_entries_def map_filter_def)

lemma parse_forwarded_canonical: "parse_forwarded_address e = Some ip \<Longrightarrow> to_canonical ip = ip"
  by (auto simp: parse_forwarded_address_def)

text \<open>
  \<open>select_client\<close> answers with the rightmost entry that is not a trusted proxy's, unusable when that
  entry is no address; when every entry is a trusted proxy's it answers with the leftmost.
\<close>

theorem select_client_rightmost:
  "select_client tp entries =
     (case dropWhile (trusted_entry tp) (rev entries) of
        e # _ \<Rightarrow> parse_forwarded_address e
      | [] \<Rightarrow> (case entries of [] \<Rightarrow> None | e # _ \<Rightarrow> parse_forwarded_address e))"
  by (cases "dropWhile (trusted_entry tp) (rev entries)")
    (simp_all add: select_client_def select_scan_dropWhile del: dropWhile_eq_Nil_conv)

text \<open>The entries of one header line; \<open>forwarded_entries\<close> are those of the lines that are UTF-8.\<close>

definition line_entries :: "string \<Rightarrow> string list" where
  "line_entries line = filter (\<lambda>entry. entry \<noteq> []) (map trim (split_on CHR '','' line))"

lemma split_on_append: "split_on c (a @ c # b) = split_on c a @ split_on c b"
  by (induction a) (auto split: list.split)

lemma forwarded_entries_Cons:
  "forwarded_entries ((name, v) # headers) =
     (if eq_ignore_ascii_case name FORWARDED_FOR \<and> utf8_ok v then line_entries (str_of_bytes v) else []) @
     forwarded_entries headers"
  by (simp add: forwarded_entries_def line_entries_def List.map_filter_def from_utf8_def)

lemma line_entries_append: "line_entries (a @ CHR '','' # b) = line_entries a @ line_entries b"
  by (simp add: line_entries_def split_on_append)

text \<open>
  What a proxy writes: a header line of its own (\<open>None\<close>), or \<open>appended\<close> after a comma behind whatever the
  line already holds.
\<close>

definition proxy_value :: "bytes option \<Rightarrow> string \<Rightarrow> bytes" where
  "proxy_value client appended =
     (case client of None \<Rightarrow> as_bytes appended | Some bs \<Rightarrow> bs @ as_bytes ('','' @ appended))"

text \<open>Whether what the client put on that line leaves it readable.\<close>

definition readable :: "bytes option \<Rightarrow> bool" where
  "readable client \<longleftrightarrow> (case client of None \<Rightarrow> True | Some bs \<Rightarrow> utf8_ok bs)"

lemma proxy_value_entries:
  assumes "utf8_ok (as_bytes appended)" and "eq_ignore_ascii_case name FORWARDED_FOR"
  shows "\<exists>forged. forwarded_entries ((name, proxy_value client appended) # later) =
    (if readable client then forged @ line_entries appended else []) @ forwarded_entries later"
proof (cases client)
  case None
  then show ?thesis using assms by (intro exI [of _ "[]"]) (simp add: proxy_value_def forwarded_entries_Cons readable_def)
next
  case (Some bs)
  have written: "proxy_value client appended = bs @ 44 # as_bytes appended" by (simp add: Some proxy_value_def as_bytes_def)
  have "utf8_ok (bs @ 44 # as_bytes appended) \<longleftrightarrow> utf8_ok bs" using assms(1) by (simp add: utf8_ok_ascii)
  moreover have "str_of_bytes (bs @ 44 # as_bytes appended) = str_of_bytes bs @ CHR '','' # appended"
  proof -
    have "str_of_bytes [44] = '',''" by code_simp
    then show ?thesis using str_of_as_bytes [of appended] by (simp add: str_of_bytes_def)
  qed
  ultimately show ?thesis
    unfolding written forwarded_entries_Cons using Some assms(2)
    by (intro exI [of _ "line_entries (str_of_bytes bs)"]) (simp add: line_entries_append readable_def)
qed

text \<open>
  (C9) A client cannot choose its reported address by what it writes in front of a proxy's entry. Let a proxy add
  \<open>appended\<close> to the header, as a line of its own or behind whatever bytes the client has put on that line, and let some
  entry from there on be no trusted proxy's. From a peer that is not trusted, or when the head does not parse
  (for instance for having too many headers), the peer itself is reported. Otherwise, as long as the line is UTF-8, the
  entries the proxies wrote decide alone: neither the client's part of the line nor any line before it matters. Bytes that
  are not UTF-8 make the whole line count for nothing, the proxy's entry included, and the other lines decide. So when
  there are no others, as with a proxy that joins all lines into one, the report is the address the proxies
  gave or the peer's own.
\<close>

theorem client_addr_no_forgery:
  assumes "httparse MAX_HEADERS head = None \<or> httparse MAX_HEADERS head = Some ph"
    and "ph_headers ph = earlier @ (name, proxy_value client appended) # later"
    and "eq_ignore_ascii_case name FORWARDED_FOR" and "utf8_ok (as_bytes appended)"
    and "\<exists>entry \<in> set (line_entries appended @ forwarded_entries later). \<not> trusted_entry tp entry"
  shows "client_addr_of httparse tp peer head =
      (if \<not> TrustedProxies_contains tp (sa_ip peer) \<or> httparse MAX_HEADERS head = None then ClientAddr_from peer
       else if readable client
       then \<lparr>ca_peer = peer, ca_forwarded = select_client tp (line_entries appended @ forwarded_entries later)\<rparr>
       else \<lparr>ca_peer = peer, ca_forwarded = select_client tp (forwarded_entries (earlier @ later))\<rparr>) \<and>
    (forwarded_entries (earlier @ later) = [] \<longrightarrow>
       client_addr_of httparse tp peer head \<in>
         {ClientAddr_from peer, \<lparr>ca_peer = peer, ca_forwarded = select_client tp (line_entries appended)\<rparr>})"
proof -
  obtain forged where entries: "forwarded_entries ((name, proxy_value client appended) # later) =
    (if readable client then forged @ line_entries appended else []) @ forwarded_entries later"
    using proxy_value_entries [OF assms(4,3)] by blast
  have "select_client tp (forwarded_entries (ph_headers ph)) =
     (if readable client then select_client tp (line_entries appended @ forwarded_entries later)
      else select_client tp (forwarded_entries (earlier @ later)))"
    using select_client_append [OF assms(5), of "forwarded_entries earlier @ forged"]
    by (simp add: assms(2) entries)
  moreover have "select_client tp [] = None" by (simp add: select_client_def)
  ultimately show ?thesis
    using assms(1) by (cases "readable client")
      (auto simp: client_addr_of_def ClientAddr_from_def forwarded_client_def)
qed

text \<open>
  The witness: loopback trusted, and a proxy that appends the client's address to the line that the client sent. Had the
  client put a byte on that line that is not UTF-8, an address on an earlier line of its own would be believed.
\<close>

definition demo_proxies :: trusted_proxies where
  "demo_proxies = \<lparr>ranges = [\<lparr>r_addr = V4 0x7F000000, r_prefix = 8\<rparr>]\<rparr>"

definition demo_peer :: socket_addr where
  "demo_peer = \<lparr>sa_ip = V4 0x7F000001, sa_port = 5555, sa_scope = 0\<rparr>"

definition demo_lines :: "bytes \<Rightarrow> (string \<times> bytes) list" where
  "demo_lines client = [(''x-forwarded-for'', as_bytes ''6.6.6.6''),
     (''X-Forwarded-For'', proxy_value (Some client) '' 203.0.113.7'')]"

definition demo_parser :: "bytes \<Rightarrow> head_parser" where
  "demo_parser client n head = Some \<lparr>ph_method = Some ''GET'', ph_path = Some ''/'', ph_headers = demo_lines client\<rparr>"

lemma demo_entries:
  "line_entries '' 203.0.113.7'' = [''203.0.113.7'']" "\<not> trusted_entry demo_proxies ''203.0.113.7''"
  "select_client demo_proxies [''203.0.113.7''] = Some (V4 0xCB007107)"
  "TrustedProxies_contains demo_proxies (sa_ip demo_peer)" "utf8_ok (as_bytes '' 203.0.113.7'')"
  "eq_ignore_ascii_case ''X-Forwarded-For'' FORWARDED_FOR" "utf8_ok (as_bytes ''10.0.0.1'')"
  by code_simp+

theorem client_addr_no_forgery_witness:
  "ca_forwarded (client_addr_of (demo_parser (as_bytes ''10.0.0.1'')) demo_proxies demo_peer []) = Some (V4 0xCB007107)"
proof -
  let ?ph = "\<lparr>ph_method = Some ''GET'', ph_path = Some ''/'', ph_headers = demo_lines (as_bytes ''10.0.0.1'')\<rparr>"
  have parsed: "demo_parser (as_bytes ''10.0.0.1'') MAX_HEADERS [] = Some ?ph" by (simp add: demo_parser_def)
  have headers: "ph_headers ?ph = [(''x-forwarded-for'', as_bytes ''6.6.6.6'')] @
      (''X-Forwarded-For'', proxy_value (Some (as_bytes ''10.0.0.1'')) '' 203.0.113.7'') # []"
    by (simp add: demo_lines_def)
  have "\<exists>entry \<in> set (line_entries '' 203.0.113.7'' @ forwarded_entries []). \<not> trusted_entry demo_proxies entry"
    using demo_entries by simp
  from client_addr_no_forgery [of "demo_parser (as_bytes ''10.0.0.1'')" "[]", OF disjI2 [OF parsed] headers demo_entries(6,5) this,
      of demo_peer] parsed demo_entries
  show ?thesis by (simp add: readable_def forwarded_entries_def List.map_filter_def)
qed

lemma undecodable_line_believes_client:
  "ca_forwarded (client_addr_of (demo_parser [0xFF]) demo_proxies demo_peer []) = Some (V4 0x06060606)"
  by code_simp

end
