(* ===== verification/Args.thy ===== *)
theory Args
  imports Target ClientAddr
begin

text \<open>
  \<open>src/args.rs\<close>: the options. \<open>clap\<close> turns the command line into \<open>cli_args\<close> and \<open>toml\<close> a configuration
  file into \<open>config_args\<close>; the model starts from these. \<open>from_cli\<close> merges the two and validates the
  result. Paths are byte strings, and the file system maps a path to the bytes of a readable file.
\<close>

section \<open>Data\<close>

datatype service_mode = WsOnly | WssOnly | Both

record args =
  ar_bind :: string
  ar_service_mode :: service_mode
  ar_port :: u16
  ar_tls_port :: u16
  ar_ipv6_only :: bool
  ar_buffer_size :: u64
  ar_udp_idle_timeout :: u64
  ar_basic_auth :: "string list"
  ar_basic_auth_file :: "string option"
  ar_anonymous_target :: "string list"
  ar_anonymous_target_file :: "string option"
  ar_trusted_proxy :: "ip_range list"
  ar_token_secret_file :: "string option"
  ar_access_token_ttl :: u64
  ar_refresh_token_ttl :: u64
  ar_tls_cert :: "string option"
  ar_tls_key :: "string option"
  ar_auto_self_signed_cert :: bool
  ar_log_file :: "string option"
  ar_log_level :: "string option"

record cli_args =
  cl_config :: "string option"
  cl_bind :: "string option"
  cl_service_mode :: "service_mode option"
  cl_port :: "u16 option"
  cl_tls_port :: "u16 option"
  cl_ipv6_only :: bool
  cl_no_ipv6_only :: bool
  cl_buffer_size :: "u64 option"
  cl_udp_idle_timeout :: "u64 option"
  cl_basic_auth :: "string list"
  cl_basic_auth_file :: "string option"
  cl_anonymous_target :: "string list"
  cl_anonymous_target_file :: "string option"
  cl_trusted_proxy :: "ip_range list"
  cl_token_secret_file :: "string option"
  cl_access_token_ttl :: "u64 option"
  cl_refresh_token_ttl :: "u64 option"
  cl_tls_cert :: "string option"
  cl_tls_key :: "string option"
  cl_auto_self_signed_cert :: bool
  cl_no_auto_self_signed_cert :: bool
  cl_log_file :: "string option"
  cl_log_level :: "string option"

record config_args =
  cf_bind :: "string option"
  cf_service_mode :: "service_mode option"
  cf_port :: "u16 option"
  cf_tls_port :: "u16 option"
  cf_ipv6_only :: "bool option"
  cf_buffer_size :: "u64 option"
  cf_udp_idle_timeout :: "u64 option"
  cf_basic_auth :: "string list option"
  cf_basic_auth_file :: "string option"
  cf_anonymous_target :: "string list option"
  cf_anonymous_target_file :: "string option"
  cf_trusted_proxy :: "ip_range list option"
  cf_token_secret_file :: "string option"
  cf_access_token_ttl :: "u64 option"
  cf_refresh_token_ttl :: "u64 option"
  cf_tls_cert :: "string option"
  cf_tls_key :: "string option"
  cf_auto_self_signed_cert :: "bool option"
  cf_log_file :: "string option"
  cf_log_level :: "string option"

datatype args_error =
    ConfigUnreadable string
  | ConfigInvalid string
  | BufferSizeZero
  | UdpIdleTimeoutZero
  | InvalidAnonymousTarget string target_error
  | AccessTokenTtlZero
  | RefreshTokenTtlZero
  | TlsCertWithoutKey
  | AutoCertWithFiles
  | WssWithoutTls
  | SamePorts

definition DEFAULT_BIND :: string where "DEFAULT_BIND = ''::''"
definition DEFAULT_PORT :: u16 where "DEFAULT_PORT = 80"
definition DEFAULT_TLS_PORT :: u16 where "DEFAULT_TLS_PORT = 443"
definition DEFAULT_BUFFER_SIZE :: u64 where "DEFAULT_BUFFER_SIZE = 16 * 1024"
definition DEFAULT_UDP_IDLE_TIMEOUT :: u64 where "DEFAULT_UDP_IDLE_TIMEOUT = 60"
definition DEFAULT_ACCESS_TOKEN_TTL :: u64 where "DEFAULT_ACCESS_TOKEN_TTL = 10 * 60"
definition DEFAULT_REFRESH_TOKEN_TTL :: u64 where "DEFAULT_REFRESH_TOKEN_TTL = 7 * 24 * 60 * 60"

section \<open>Operations\<close>

definition includes_ws :: "service_mode \<Rightarrow> bool" where
  "includes_ws m = (m = WsOnly \<or> m = Both)"

definition includes_wss :: "service_mode \<Rightarrow> bool" where
  "includes_wss m = (m = WssOnly \<or> m = Both)"

definition has_tls_config :: "args \<Rightarrow> bool" where
  "has_tls_config a = (ar_auto_self_signed_cert a \<or> (ar_tls_cert a \<noteq> None \<and> ar_tls_key a \<noteq> None))"

fun check_targets :: "string list \<Rightarrow> args_error option" where
  "check_targets [] = None"
| "check_targets (target # targets) =
     (case parse_target_addr target of
        Inl e \<Rightarrow> Some (InvalidAnonymousTarget target e)
      | Inr _ \<Rightarrow> check_targets targets)"

definition validate :: "args \<Rightarrow> args_error + unit" where
  "validate a =
     (if ar_buffer_size a = 0 then Inl BufferSizeZero
      else if ar_udp_idle_timeout a = 0 then Inl UdpIdleTimeoutZero
      else case check_targets (ar_anonymous_target a) of
             Some e \<Rightarrow> Inl e
           | None \<Rightarrow>
               if ar_access_token_ttl a = 0 then Inl AccessTokenTtlZero
               else if ar_refresh_token_ttl a = 0 then Inl RefreshTokenTtlZero
               else if (ar_tls_cert a \<noteq> None) \<noteq> (ar_tls_key a \<noteq> None) then Inl TlsCertWithoutKey
               else if ar_auto_self_signed_cert a \<and> ar_tls_cert a \<noteq> None then Inl AutoCertWithFiles
               else if includes_wss (ar_service_mode a) \<and> \<not> has_tls_config a then Inl WssWithoutTls
               else if ar_service_mode a = Both \<and> ar_port a = ar_tls_port a then Inl SamePorts
               else Inr ())"

type_synonym filesystem = "string \<Rightarrow> bytes option"

text \<open>\<open>fs::read_to_string\<close>: the file must be readable and UTF-8.\<close>

definition read_to_string :: "filesystem \<Rightarrow> string \<Rightarrow> string option" where
  "read_to_string fs path = (case fs path of None \<Rightarrow> None | Some bs \<Rightarrow> from_utf8 bs)"

definition ConfigArgs_default :: config_args where
  "ConfigArgs_default = \<lparr>cf_bind = None, cf_service_mode = None, cf_port = None, cf_tls_port = None,
     cf_ipv6_only = None, cf_buffer_size = None, cf_udp_idle_timeout = None, cf_basic_auth = None,
     cf_basic_auth_file = None, cf_anonymous_target = None, cf_anonymous_target_file = None,
     cf_trusted_proxy = None, cf_token_secret_file = None, cf_access_token_ttl = None,
     cf_refresh_token_ttl = None, cf_tls_cert = None, cf_tls_key = None,
     cf_auto_self_signed_cert = None, cf_log_file = None, cf_log_level = None\<rparr>"

definition ConfigArgs_read ::
  "(string \<Rightarrow> config_args option) \<Rightarrow> filesystem \<Rightarrow> string \<Rightarrow> args_error + config_args" where
  "ConfigArgs_read toml fs path =
     (case read_to_string fs path of
        None \<Rightarrow> Inl (ConfigUnreadable path)
      | Some contents \<Rightarrow>
          (case toml contents of None \<Rightarrow> Inl (ConfigInvalid path) | Some c \<Rightarrow> Inr c))"

definition opt_or :: "'a option \<Rightarrow> 'a option \<Rightarrow> 'a option" where
  "opt_or a b = (case a of None \<Rightarrow> b | Some _ \<Rightarrow> a)"

definition merge_tls :: "cli_args \<Rightarrow> config_args \<Rightarrow> string option \<times> string option \<times> bool" where
  "merge_tls cli config =
     (if cl_auto_self_signed_cert cli then (None, None, True)
      else if cl_no_auto_self_signed_cert cli \<or> cl_tls_cert cli \<noteq> None \<or> cl_tls_key cli \<noteq> None
      then (opt_or (cl_tls_cert cli) (cf_tls_cert config), opt_or (cl_tls_key cli) (cf_tls_key config), False)
      else (cf_tls_cert config, cf_tls_key config, unwrap_or (cf_auto_self_signed_cert config) False))"

text \<open>The trusted proxies are built last here; the sources build them in place, with the same outcome.\<close>

definition merge_args :: "cli_args \<Rightarrow> config_args \<Rightarrow> args outcome" where
  "merge_args cli config =
     (let (tls_cert, tls_key, auto) = merge_tls cli config
      in case (if cl_trusted_proxy cli = []
               then (case cf_trusted_proxy config of None \<Rightarrow> IpRange_loopback | Some rs \<Rightarrow> Ret rs)
               else Ret (cl_trusted_proxy cli)) of
           Panic \<Rightarrow> Panic
         | Ret trusted_proxy \<Rightarrow> Ret \<lparr>
             ar_bind = unwrap_or (opt_or (cl_bind cli) (cf_bind config)) DEFAULT_BIND,
             ar_service_mode = unwrap_or (opt_or (cl_service_mode cli) (cf_service_mode config)) WsOnly,
             ar_port = unwrap_or (opt_or (cl_port cli) (cf_port config)) DEFAULT_PORT,
             ar_tls_port = unwrap_or (opt_or (cl_tls_port cli) (cf_tls_port config)) DEFAULT_TLS_PORT,
             ar_ipv6_only =
               (if cl_ipv6_only cli then True else if cl_no_ipv6_only cli then False
                else unwrap_or (cf_ipv6_only config) False),
             ar_buffer_size = unwrap_or (opt_or (cl_buffer_size cli) (cf_buffer_size config)) DEFAULT_BUFFER_SIZE,
             ar_udp_idle_timeout =
               unwrap_or (opt_or (cl_udp_idle_timeout cli) (cf_udp_idle_timeout config)) DEFAULT_UDP_IDLE_TIMEOUT,
             ar_basic_auth =
               (if cl_basic_auth cli = [] then unwrap_or (cf_basic_auth config) [] else cl_basic_auth cli),
             ar_basic_auth_file = opt_or (cl_basic_auth_file cli) (cf_basic_auth_file config),
             ar_anonymous_target =
               (if cl_anonymous_target cli = [] then unwrap_or (cf_anonymous_target config) []
                else cl_anonymous_target cli),
             ar_anonymous_target_file = opt_or (cl_anonymous_target_file cli) (cf_anonymous_target_file config),
             ar_trusted_proxy = trusted_proxy,
             ar_token_secret_file = opt_or (cl_token_secret_file cli) (cf_token_secret_file config),
             ar_access_token_ttl =
               unwrap_or (opt_or (cl_access_token_ttl cli) (cf_access_token_ttl config)) DEFAULT_ACCESS_TOKEN_TTL,
             ar_refresh_token_ttl =
               unwrap_or (opt_or (cl_refresh_token_ttl cli) (cf_refresh_token_ttl config)) DEFAULT_REFRESH_TOKEN_TTL,
             ar_tls_cert = tls_cert,
             ar_tls_key = tls_key,
             ar_auto_self_signed_cert = auto,
             ar_log_file = opt_or (cl_log_file cli) (cf_log_file config),
             ar_log_level = opt_or (cl_log_level cli) (cf_log_level config)\<rparr>)"

definition from_cli ::
  "(string \<Rightarrow> config_args option) \<Rightarrow> filesystem \<Rightarrow> cli_args \<Rightarrow> (args_error + args) outcome" where
  "from_cli toml fs cli =
     (case (case cl_config cli of Some path \<Rightarrow> ConfigArgs_read toml fs path | None \<Rightarrow> Inr ConfigArgs_default) of
        Inl e \<Rightarrow> Ret (Inl e)
      | Inr config \<Rightarrow>
          (case merge_args cli config of
             Panic \<Rightarrow> Panic
           | Ret a \<Rightarrow> (case validate a of Inl e \<Rightarrow> Ret (Inl e) | Inr _ \<Rightarrow> Ret (Inr a))))"

section \<open>What is accepted\<close>

lemmas [evals] = includes_ws_def includes_wss_def has_tls_config_def validate_def read_to_string_def
  ConfigArgs_default_def ConfigArgs_read_def opt_or_def merge_tls_def merge_args_def from_cli_def
  DEFAULT_BIND_def DEFAULT_PORT_def DEFAULT_TLS_PORT_def DEFAULT_BUFFER_SIZE_def
  DEFAULT_UDP_IDLE_TIMEOUT_def DEFAULT_ACCESS_TOKEN_TTL_def DEFAULT_REFRESH_TOKEN_TTL_def

lemma check_targets_None: "check_targets ts = None \<longleftrightarrow> (\<forall>t \<in> set ts. \<exists>tg. parse_target_addr t = Inr tg)"
  by (induction ts) (auto split: sum.splits)

text \<open>The conditions on a usable configuration, one per line of the documentation.\<close>

definition valid_args :: "args \<Rightarrow> bool" where
  "valid_args a \<longleftrightarrow>
     0 < ar_buffer_size a \<and> 0 < ar_udp_idle_timeout a \<and>
     0 < ar_access_token_ttl a \<and> 0 < ar_refresh_token_ttl a \<and>
     (\<forall>t \<in> set (ar_anonymous_target a). \<exists>tg. parse_target_addr t = Inr tg) \<and>
     (ar_tls_cert a = None \<longleftrightarrow> ar_tls_key a = None) \<and>
     (ar_auto_self_signed_cert a \<longrightarrow> ar_tls_cert a = None) \<and>
     (ar_service_mode a \<noteq> WsOnly \<longrightarrow> ar_auto_self_signed_cert a \<or> ar_tls_cert a \<noteq> None) \<and>
     (ar_service_mode a = Both \<longrightarrow> ar_port a \<noteq> ar_tls_port a)"

lemma validate_iff: "validate a = Inr () \<longleftrightarrow> valid_args a"
proof -
  have wss: "includes_wss (ar_service_mode a) \<longleftrightarrow> ar_service_mode a \<noteq> WsOnly"
    by (cases "ar_service_mode a") (simp_all add: includes_wss_def)
  have "validate a = Inr () \<longleftrightarrow> ar_buffer_size a \<noteq> 0 \<and> ar_udp_idle_timeout a \<noteq> 0 \<and>
      check_targets (ar_anonymous_target a) = None \<and> ar_access_token_ttl a \<noteq> 0 \<and> ar_refresh_token_ttl a \<noteq> 0 \<and>
      (ar_tls_cert a \<noteq> None) = (ar_tls_key a \<noteq> None) \<and> \<not> (ar_auto_self_signed_cert a \<and> ar_tls_cert a \<noteq> None) \<and>
      \<not> (includes_wss (ar_service_mode a) \<and> \<not> has_tls_config a) \<and>
      \<not> (ar_service_mode a = Both \<and> ar_port a = ar_tls_port a)"
    by (cases "check_targets (ar_anonymous_target a)"; cases "ar_tls_cert a"; cases "ar_tls_key a")
      (simp_all add: validate_def)
  then show ?thesis
    unfolding valid_args_def wss has_tls_config_def check_targets_None word_neq_0_conv by blast
qed

lemma merge_args_total: "\<exists>a. merge_args cli config = Ret a"
  by (cases "cl_trusted_proxy cli"; cases "cf_trusted_proxy config")
    (simp_all add: merge_args_def loopback_eval split_beta Let_def)

text \<open>The configuration file, or the defaults without one.\<close>

definition loaded_config ::
  "(string \<Rightarrow> config_args option) \<Rightarrow> filesystem \<Rightarrow> cli_args \<Rightarrow> config_args \<Rightarrow> bool" where
  "loaded_config toml fs cli config \<longleftrightarrow>
     (case cl_config cli of
        None \<Rightarrow> config = ConfigArgs_default
      | Some path \<Rightarrow> \<exists>bs s. fs path = Some bs \<and> from_utf8 bs = Some s \<and> toml s = Some config)"

lemma from_cli_iff:
  "from_cli toml fs cli = Ret (Inr a) \<longleftrightarrow>
     (\<exists>config. loaded_config toml fs cli config \<and> merge_args cli config = Ret a \<and> valid_args a)"
proof -
  have "from_cli toml fs cli = Ret (Inr a) \<longleftrightarrow>
      (\<exists>config. loaded_config toml fs cli config \<and> merge_args cli config = Ret a \<and> validate a = Inr ())"
    by (auto simp: from_cli_def loaded_config_def ConfigArgs_read_def read_to_string_def
        split: option.splits sum.splits outcome.splits)
  then show ?thesis by (simp add: validate_iff)
qed

section \<open>What the options come to\<close>

text \<open>
  The table of the options, one line each: an option has the value of the first place that gives one, of the
  command line and the configuration file, and else its default.
\<close>

fun first_given :: "'a option list \<Rightarrow> 'a option" where
  "first_given [] = None"
| "first_given (None # places) = first_given places"
| "first_given (Some v # places) = Some v"

definition effective :: "'a option list \<Rightarrow> 'a \<Rightarrow> 'a" where
  "effective places fallback = the (first_given (places @ [Some fallback]))"

text \<open>A repeatable option gives a value when it is there at all, a switch when it is on.\<close>

definition listed :: "'a list \<Rightarrow> 'a list option" where
  "listed vs = (if vs = [] then None else Some vs)"

definition switched :: "bool \<Rightarrow> 'a \<Rightarrow> 'a option" where
  "switched on v = (if on then Some v else None)"

text \<open>
  The certificate and the key of the file are dropped when the command line asks for a generated certificate; the
  file's wish for a generated one counts only when the command line says nothing about TLS.
\<close>

definition options_of :: "cli_args \<Rightarrow> config_args \<Rightarrow> args \<Rightarrow> bool" where
  "options_of cli config a \<longleftrightarrow>
     ar_bind a = effective [cl_bind cli, cf_bind config] ''::'' \<and>
     ar_service_mode a = effective [cl_service_mode cli, cf_service_mode config] WsOnly \<and>
     ar_port a = effective [cl_port cli, cf_port config] 80 \<and>
     ar_tls_port a = effective [cl_tls_port cli, cf_tls_port config] 443 \<and>
     ar_ipv6_only a = effective [switched (cl_ipv6_only cli) True, switched (cl_no_ipv6_only cli) False, cf_ipv6_only config] False \<and>
     ar_buffer_size a = effective [cl_buffer_size cli, cf_buffer_size config] 16384 \<and>
     ar_udp_idle_timeout a = effective [cl_udp_idle_timeout cli, cf_udp_idle_timeout config] 60 \<and>
     ar_basic_auth a = effective [listed (cl_basic_auth cli), cf_basic_auth config] [] \<and>
     ar_basic_auth_file a = first_given [cl_basic_auth_file cli, cf_basic_auth_file config] \<and>
     ar_anonymous_target a = effective [listed (cl_anonymous_target cli), cf_anonymous_target config] [] \<and>
     ar_anonymous_target_file a = first_given [cl_anonymous_target_file cli, cf_anonymous_target_file config] \<and>
     ar_trusted_proxy a = effective [listed (cl_trusted_proxy cli), cf_trusted_proxy config]
       [\<lparr>r_addr = V4 0x7F000000, r_prefix = 8\<rparr>, \<lparr>r_addr = V6 1, r_prefix = 128\<rparr>] \<and>
     ar_token_secret_file a = first_given [cl_token_secret_file cli, cf_token_secret_file config] \<and>
     ar_access_token_ttl a = effective [cl_access_token_ttl cli, cf_access_token_ttl config] 600 \<and>
     ar_refresh_token_ttl a = effective [cl_refresh_token_ttl cli, cf_refresh_token_ttl config] 604800 \<and>
     ar_tls_cert a = (if cl_auto_self_signed_cert cli then None else first_given [cl_tls_cert cli, cf_tls_cert config]) \<and>
     ar_tls_key a = (if cl_auto_self_signed_cert cli then None else first_given [cl_tls_key cli, cf_tls_key config]) \<and>
     ar_auto_self_signed_cert a =
       (cl_auto_self_signed_cert cli \<or>
        cf_auto_self_signed_cert config = Some True \<and> \<not> cl_no_auto_self_signed_cert cli \<and>
          cl_tls_cert cli = None \<and> cl_tls_key cli = None) \<and>
     ar_log_file a = first_given [cl_log_file cli, cf_log_file config] \<and>
     ar_log_level a = first_given [cl_log_level cli, cf_log_level config]"

lemma first_given_one [simp]: "first_given [u] = u"
  by (cases u) simp_all

lemma merged_option: "opt_or u v = first_given [u, v]"
  by (cases u; cases v; simp add: opt_or_def)

lemma merged_default: "unwrap_or (first_given [u, v]) d = effective [u, v] d"
  by (cases u; cases v; simp add: unwrap_or_def effective_def)

lemma merged_list: "(if vs = [] then unwrap_or ls [] else vs) = effective [listed vs, ls] []"
  by (cases ls) (simp_all add: unwrap_or_def effective_def listed_def)

lemma merged_switch:
  "(if on then True else if off then False else unwrap_or b False) = effective [switched on True, switched off False, b] False"
  by (cases on; cases off; cases b) (simp_all add: unwrap_or_def effective_def switched_def)

lemma merged_tls:
  "merge_tls cli config =
     (if cl_auto_self_signed_cert cli then None else first_given [cl_tls_cert cli, cf_tls_cert config],
      if cl_auto_self_signed_cert cli then None else first_given [cl_tls_key cli, cf_tls_key config],
      cl_auto_self_signed_cert cli \<or>
        cf_auto_self_signed_cert config = Some True \<and> \<not> cl_no_auto_self_signed_cert cli \<and>
          cl_tls_cert cli = None \<and> cl_tls_key cli = None)"
  by (cases "cl_tls_cert cli"; cases "cl_tls_key cli"; cases "cf_auto_self_signed_cert config"; cases "cf_tls_cert config")
    (auto simp: merge_tls_def opt_or_def unwrap_or_def)

lemma merged_proxies:
  "(if vs = [] then (case rs of None \<Rightarrow> IpRange_loopback | Some rs \<Rightarrow> Ret rs) else Ret vs) =
     Ret (effective [listed vs, rs] [\<lparr>r_addr = V4 0x7F000000, r_prefix = 8\<rparr>, \<lparr>r_addr = V6 1, r_prefix = 128\<rparr>])"
  by (cases rs) (simp_all add: loopback_eval effective_def listed_def)

lemma merge_args_options: "merge_args cli config = Ret a \<longleftrightarrow> options_of cli config a"
  unfolding merge_args_def merged_tls merged_proxies Let_def prod.case outcome.case outcome.inject merged_option merged_default merged_list
    merged_switch DEFAULT_BIND_def DEFAULT_PORT_def DEFAULT_TLS_PORT_def DEFAULT_BUFFER_SIZE_def
    DEFAULT_UDP_IDLE_TIMEOUT_def DEFAULT_ACCESS_TOKEN_TTL_def DEFAULT_REFRESH_TOKEN_TTL_def
  by (cases a) (auto simp: options_of_def)

section \<open>Which options are refused\<close>

text \<open>All that is wrong with some options, in the order in which it is looked for.\<close>

definition faults :: "args \<Rightarrow> args_error list" where
  "faults a =
     [BufferSizeZero. ar_buffer_size a = 0] @
     [UdpIdleTimeoutZero. ar_udp_idle_timeout a = 0] @
     [InvalidAnonymousTarget t e. t \<leftarrow> ar_anonymous_target a, Inl e \<leftarrow> [parse_target_addr t]] @
     [AccessTokenTtlZero. ar_access_token_ttl a = 0] @
     [RefreshTokenTtlZero. ar_refresh_token_ttl a = 0] @
     [TlsCertWithoutKey. \<not> (ar_tls_cert a = None \<longleftrightarrow> ar_tls_key a = None)] @
     [AutoCertWithFiles. ar_auto_self_signed_cert a \<and> ar_tls_cert a \<noteq> None] @
     [WssWithoutTls. ar_service_mode a \<noteq> WsOnly \<and> \<not> ar_auto_self_signed_cert a \<and> (ar_tls_cert a = None \<or> ar_tls_key a = None)] @
     [SamePorts. ar_service_mode a = Both \<and> ar_port a = ar_tls_port a]"

lemma check_targets_faults:
  "check_targets ts = (case [InvalidAnonymousTarget t e. t \<leftarrow> ts, Inl e \<leftarrow> [parse_target_addr t]] of
     [] \<Rightarrow> None | e # _ \<Rightarrow> Some e)"
  by (induction ts) (auto split: sum.splits)

lemma first_fault:
  "(case xs @ ys of [] \<Rightarrow> ok | e # _ \<Rightarrow> err e) = (case xs of [] \<Rightarrow> (case ys of [] \<Rightarrow> ok | e # _ \<Rightarrow> err e) | e # _ \<Rightarrow> err e)"
  by (cases xs) simp_all

lemma one_fault: "(case (if P then [e] else []) of [] \<Rightarrow> ok | e # _ \<Rightarrow> err e) = (if P then err e else ok)"
  by simp

lemma validate_faults: "validate a = (case faults a of [] \<Rightarrow> Inr () | e # _ \<Rightarrow> Inl e)"
proof -
  have wss: "includes_wss (ar_service_mode a) \<longleftrightarrow> ar_service_mode a \<noteq> WsOnly"
    by (cases "ar_service_mode a") (simp_all add: includes_wss_def)
  define bad where "bad = [InvalidAnonymousTarget t e. t \<leftarrow> ar_anonymous_target a, Inl e \<leftarrow> [parse_target_addr t]]"
  have "faults a = [BufferSizeZero. ar_buffer_size a = 0] @ [UdpIdleTimeoutZero. ar_udp_idle_timeout a = 0] @ bad @
     [AccessTokenTtlZero. ar_access_token_ttl a = 0] @ [RefreshTokenTtlZero. ar_refresh_token_ttl a = 0] @
     [TlsCertWithoutKey. \<not> (ar_tls_cert a = None \<longleftrightarrow> ar_tls_key a = None)] @
     [AutoCertWithFiles. ar_auto_self_signed_cert a \<and> ar_tls_cert a \<noteq> None] @
     [WssWithoutTls. ar_service_mode a \<noteq> WsOnly \<and> \<not> ar_auto_self_signed_cert a \<and> (ar_tls_cert a = None \<or> ar_tls_key a = None)] @
     [SamePorts. ar_service_mode a = Both \<and> ar_port a = ar_tls_port a]" (is "_ = ?parts")
    by (simp only: faults_def bad_def)
  moreover have "check_targets (ar_anonymous_target a) = (case bad of [] \<Rightarrow> None | e # _ \<Rightarrow> Some e)"
    by (simp only: check_targets_faults bad_def)
  moreover have "(case ?parts of [] \<Rightarrow> Inr () | e # _ \<Rightarrow> Inl e) = validate a"
    if "check_targets (ar_anonymous_target a) = (case bad of [] \<Rightarrow> None | e # _ \<Rightarrow> Some e)"
    unfolding validate_def wss has_tls_config_def that first_fault one_fault by (cases bad) auto
  ultimately show ?thesis by simp
qed

text \<open>The error of a configuration file that cannot be used.\<close>

definition config_error ::
  "(string \<Rightarrow> config_args option) \<Rightarrow> filesystem \<Rightarrow> cli_args \<Rightarrow> args_error \<Rightarrow> bool" where
  "config_error toml fs cli e \<longleftrightarrow>
     (\<exists>path. cl_config cli = Some path \<and>
        (if \<exists>bs s. fs path = Some bs \<and> from_utf8 bs = Some s
         then e = ConfigInvalid path \<and> (\<forall>bs s. fs path = Some bs \<and> from_utf8 bs = Some s \<longrightarrow> toml s = None)
         else e = ConfigUnreadable path))"

lemma from_cli_returns: "\<exists>r. from_cli toml fs cli = Ret r"
  using merge_args_total [of cli]
  by (auto simp: from_cli_def split: option.splits sum.splits outcome.splits) (metis outcome.distinct(1))+

lemma from_cli_table:
  "from_cli toml fs cli = Ret (Inr a) \<longleftrightarrow>
     (\<exists>config. loaded_config toml fs cli config \<and> options_of cli config a \<and> faults a = [])"
proof -
  have "valid_args a \<longleftrightarrow> faults a = []"
    unfolding validate_iff [symmetric] validate_faults by (simp split: list.split)
  then show ?thesis unfolding from_cli_iff merge_args_options by blast
qed

lemma from_cli_refused:
  "from_cli toml fs cli = Ret (Inl e) \<longleftrightarrow> config_error toml fs cli e \<or>
     (\<exists>config a more. loaded_config toml fs cli config \<and> options_of cli config a \<and> faults a = e # more)"
proof -
  have valid: "validate a = Inl e \<longleftrightarrow> (\<exists>more. faults a = e # more)" for a
    unfolding validate_faults by (auto split: list.splits)
  have "from_cli toml fs cli = Ret (Inl e) \<longleftrightarrow> config_error toml fs cli e \<or>
      (\<exists>config a. loaded_config toml fs cli config \<and> merge_args cli config = Ret a \<and> validate a = Inl e)"
    by (auto simp: from_cli_def loaded_config_def config_error_def ConfigArgs_read_def read_to_string_def
        split: option.splits sum.splits outcome.splits)
  then show ?thesis unfolding merge_args_options valid by blast
qed

text \<open>
  (C32) What the options come to, and which are refused with what. Reading the options, from what \<open>clap\<close> has made
  of the command line, never panics. It yields the table of the options above, over the configuration file (which is
  empty when none is named), provided that nothing is wrong with the result: the buffer size, the UDP timeout and
  both token lifetimes are positive, every anonymous target parses, a certificate comes with its key
  and not with a generated one, a mode that serves WSS has a certificate, and two listeners have
  different ports. Otherwise it is refused, with the reason why the configuration file cannot be used, or with the
  first thing that is wrong.
\<close>

theorem from_cli_accepts:
  "(\<exists>r. from_cli toml fs cli = Ret r) \<and>
   (from_cli toml fs cli = Ret (Inr a) \<longleftrightarrow>
     (\<exists>config. loaded_config toml fs cli config \<and> options_of cli config a \<and> faults a = [])) \<and>
   (from_cli toml fs cli = Ret (Inl e) \<longleftrightarrow> config_error toml fs cli e \<or>
     (\<exists>config a more. loaded_config toml fs cli config \<and> options_of cli config a \<and> faults a = e # more))"
  by (intro conjI from_cli_returns from_cli_table from_cli_refused)

text \<open>
  The command line wins over the configuration file, which wins over the defaults: every option given
  on the command line has that value, whatever the file says; one given only in the file has the
  file's value. For TLS the command line's choice is taken as a whole: asking for a generated
  certificate drops the file's certificate and key, and naming a certificate or a key, or refusing a
  generated one, overrules the file's wish for a generated certificate.
\<close>

theorem command_line_wins:
  assumes "from_cli toml fs cli = Ret (Inr a)" and "loaded_config toml fs cli config"
  shows "ar_port a = (case (cl_port cli, cf_port config) of
      (Some p, _) \<Rightarrow> p | (None, Some p) \<Rightarrow> p | (None, None) \<Rightarrow> 80) \<and>
    ar_tls_port a = (case (cl_tls_port cli, cf_tls_port config) of
      (Some p, _) \<Rightarrow> p | (None, Some p) \<Rightarrow> p | (None, None) \<Rightarrow> 443) \<and>
    ar_access_token_ttl a = (case (cl_access_token_ttl cli, cf_access_token_ttl config) of
      (Some t, _) \<Rightarrow> t | (None, Some t) \<Rightarrow> t | (None, None) \<Rightarrow> 600) \<and>
    (cl_basic_auth cli \<noteq> [] \<longrightarrow> ar_basic_auth a = cl_basic_auth cli) \<and>
    (cl_anonymous_target cli \<noteq> [] \<longrightarrow> ar_anonymous_target a = cl_anonymous_target cli) \<and>
    (cl_trusted_proxy cli \<noteq> [] \<longrightarrow> ar_trusted_proxy a = cl_trusted_proxy cli) \<and>
    (cl_auto_self_signed_cert cli \<longrightarrow>
       ar_auto_self_signed_cert a \<and> ar_tls_cert a = None \<and> ar_tls_key a = None) \<and>
    (\<not> cl_auto_self_signed_cert cli \<and>
       (cl_no_auto_self_signed_cert cli \<or> cl_tls_cert cli \<noteq> None \<or> cl_tls_key cli \<noteq> None) \<longrightarrow>
       \<not> ar_auto_self_signed_cert a \<and> (cl_tls_cert cli \<noteq> None \<longrightarrow> ar_tls_cert a = cl_tls_cert cli))"
proof -
  obtain config' where "loaded_config toml fs cli config'" and "merge_args cli config' = Ret a"
    using assms(1) from_cli_iff by blast
  moreover from this have "config' = config"
    using assms(2) by (auto simp: loaded_config_def split: option.splits)
  ultimately have "merge_args cli config = Ret a" by simp
  then have merged: "ar_port a = unwrap_or (opt_or (cl_port cli) (cf_port config)) DEFAULT_PORT"
    "ar_tls_port a = unwrap_or (opt_or (cl_tls_port cli) (cf_tls_port config)) DEFAULT_TLS_PORT"
    "ar_access_token_ttl a =
       unwrap_or (opt_or (cl_access_token_ttl cli) (cf_access_token_ttl config)) DEFAULT_ACCESS_TOKEN_TTL"
    "cl_basic_auth cli \<noteq> [] \<Longrightarrow> ar_basic_auth a = cl_basic_auth cli"
    "cl_anonymous_target cli \<noteq> [] \<Longrightarrow> ar_anonymous_target a = cl_anonymous_target cli"
    "cl_trusted_proxy cli \<noteq> [] \<Longrightarrow> ar_trusted_proxy a = cl_trusted_proxy cli"
    "(ar_tls_cert a, ar_tls_key a, ar_auto_self_signed_cert a) = merge_tls cli config"
    by (auto simp: merge_args_def Let_def split: prod.splits outcome.splits)
  then show ?thesis
    by (auto simp: unwrap_or_def opt_or_def merge_tls_def DEFAULT_PORT_def DEFAULT_TLS_PORT_def
        DEFAULT_ACCESS_TOKEN_TTL_def split: option.splits)
qed

text \<open>A command line that names a configuration file asking for another port and a generated certificate.\<close>

definition demo_cli :: cli_args where
  "demo_cli = \<lparr>cl_config = Some ''c'', cl_bind = None, cl_service_mode = Some Both, cl_port = Some 8080,
     cl_tls_port = None, cl_ipv6_only = False, cl_no_ipv6_only = False, cl_buffer_size = None,
     cl_udp_idle_timeout = None, cl_basic_auth = [''bob:pw''], cl_basic_auth_file = None,
     cl_anonymous_target = [''localhost:22''], cl_anonymous_target_file = None, cl_trusted_proxy = [],
     cl_token_secret_file = None, cl_access_token_ttl = None, cl_refresh_token_ttl = None,
     cl_tls_cert = Some ''cert'', cl_tls_key = Some ''key'', cl_auto_self_signed_cert = False,
     cl_no_auto_self_signed_cert = False, cl_log_file = None, cl_log_level = None\<rparr>"

definition demo_config :: config_args where
  "demo_config = ConfigArgs_default\<lparr>cf_port := Some 81, cf_tls_port := Some 8443,
     cf_auto_self_signed_cert := Some True\<rparr>"

definition demo_args :: args where
  "demo_args = \<lparr>ar_bind = ''::'', ar_service_mode = Both, ar_port = 8080, ar_tls_port = 8443,
     ar_ipv6_only = False, ar_buffer_size = 16384, ar_udp_idle_timeout = 60, ar_basic_auth = [''bob:pw''],
     ar_basic_auth_file = None, ar_anonymous_target = [''localhost:22''], ar_anonymous_target_file = None,
     ar_trusted_proxy = [\<lparr>r_addr = V4 0x7F000000, r_prefix = 8\<rparr>, \<lparr>r_addr = V6 1, r_prefix = 128\<rparr>],
     ar_token_secret_file = None, ar_access_token_ttl = 600, ar_refresh_token_ttl = 604800,
     ar_tls_cert = Some ''cert'', ar_tls_key = Some ''key'', ar_auto_self_signed_cert = False,
     ar_log_file = None, ar_log_level = None\<rparr>"

lemma demo_from_cli: "from_cli (\<lambda>_. Some demo_config) (\<lambda>_. Some []) demo_cli = Ret (Inr demo_args)"
  by code_simp

lemma demo_loaded: "loaded_config (\<lambda>_. Some demo_config) (\<lambda>_. Some []) demo_cli demo_config"
  by (simp add: loaded_config_def demo_cli_def from_utf8_def utf8_ok_def)

theorem command_line_wins_witness: "ar_port demo_args = 8080 \<and> \<not> ar_auto_self_signed_cert demo_args"
  using command_line_wins [OF demo_from_cli demo_loaded] by (simp add: demo_cli_def)

end
