(* ===== verification/RustColl.thy ===== *)
theory RustColl
  imports Prelude
begin

text \<open>
  \<open>std::collections::HashMap\<close> as the sources use it: an interface by laws on lookup, the client
  lemmas that follow from the laws alone, and the association-list model that satisfies them.
  Also \<open>std::time::Instant\<close>: points in time in nanoseconds, whose addition panics when the
  result is not representable.
\<close>

section \<open>The interface\<close>

locale hash_map =
  fixes empty :: "'m"
    and get :: "'m \<Rightarrow> 'k \<Rightarrow> 'v option"
    and insert :: "'k \<Rightarrow> 'v \<Rightarrow> 'm \<Rightarrow> 'm"
    and remove :: "'k \<Rightarrow> 'm \<Rightarrow> 'm"
    and retain :: "('k \<Rightarrow> 'v \<Rightarrow> bool) \<Rightarrow> 'm \<Rightarrow> 'm"
    and len :: "'m \<Rightarrow> nat"
    and invar :: "'m \<Rightarrow> bool"
  assumes get_empty: "get empty = Map.empty"
    and get_insert: "get (insert k v m) = (get m)(k \<mapsto> v)"
    and get_remove: "invar m \<Longrightarrow> get (remove k m) = (get m)(k := None)"
    and get_retain: "invar m \<Longrightarrow> get (retain P m) k =
          (case get m k of None \<Rightarrow> None | Some v \<Rightarrow> if P k v then Some v else None)"
    and len_card: "invar m \<Longrightarrow> len m = card (dom (get m))"
    and finite_get: "finite (dom (get m))"
    and invar_empty: "invar empty"
    and invar_insert: "invar m \<Longrightarrow> invar (insert k v m)"
    and invar_remove: "invar m \<Longrightarrow> invar (remove k m)"
    and invar_retain: "invar m \<Longrightarrow> invar (retain P m)"
begin

lemma len_insert_le: "invar m \<Longrightarrow> len (insert k v m) \<le> Suc (len m)"
  by (simp add: len_card invar_insert get_insert card_insert_if finite_get)

lemma len_insert_new: "invar m \<Longrightarrow> get m k = None \<Longrightarrow> len (insert k v m) = Suc (len m)"
  by (simp add: len_card invar_insert get_insert card_insert_if finite_get domIff)

lemma len_remove_Suc: "invar m \<Longrightarrow> get m k = Some v \<Longrightarrow> Suc (len (remove k m)) = len m"
  by (simp add: len_card invar_remove get_remove)
    (metis card_Suc_Diff1 domI finite_get)

lemma dom_retain: "invar m \<Longrightarrow> dom (get (retain P m)) \<subseteq> dom (get m)"
  by (auto simp: get_retain split: option.splits)

lemma len_retain_le: "invar m \<Longrightarrow> len (retain P m) \<le> len m"
  by (simp add: len_card invar_retain dom_retain card_mono finite_get)

lemma get_retain_Some:
  "invar m \<Longrightarrow> get (retain P m) k = Some v \<longleftrightarrow> get m k = Some v \<and> P k v"
  by (auto simp: get_retain split: option.splits)

lemma get_retain_None:
  "invar m \<Longrightarrow> get (retain P m) k = None \<longleftrightarrow> (\<forall>v. get m k = Some v \<longrightarrow> \<not> P k v)"
  by (auto simp: get_retain split: option.splits)

end

section \<open>The model\<close>

type_synonym ('k, 'v) hmap = "('k \<times> 'v) list"

definition hm_get :: "('k, 'v) hmap \<Rightarrow> 'k \<Rightarrow> 'v option" where
  "hm_get m = map_of m"

definition hm_insert :: "'k \<Rightarrow> 'v \<Rightarrow> ('k, 'v) hmap \<Rightarrow> ('k, 'v) hmap" where
  "hm_insert k v m = AList.update k v m"

definition hm_remove :: "'k \<Rightarrow> ('k, 'v) hmap \<Rightarrow> ('k, 'v) hmap" where
  "hm_remove k m = AList.delete k m"

definition hm_retain :: "('k \<Rightarrow> 'v \<Rightarrow> bool) \<Rightarrow> ('k, 'v) hmap \<Rightarrow> ('k, 'v) hmap" where
  "hm_retain P m = filter (\<lambda>(k, v). P k v) m"

definition hm_len :: "('k, 'v) hmap \<Rightarrow> nat" where
  "hm_len m = length m"

definition hm_invar :: "('k, 'v) hmap \<Rightarrow> bool" where
  "hm_invar m \<longleftrightarrow> distinct (map fst m)"

lemma map_of_filter_distinct:
  "distinct (map fst m) \<Longrightarrow> map_of (filter (\<lambda>(k, v). P k v) m) k =
     (case map_of m k of None \<Rightarrow> None | Some v \<Rightarrow> if P k v then Some v else None)"
proof (induction m)
  case (Cons p m)
  have "k \<notin> fst ` set m \<Longrightarrow> map_of (filter (\<lambda>(k, v). P k v) m) k = None"
    by (auto simp: map_of_eq_None_iff)
  with Cons show ?case by (cases p) (auto split: option.splits)
qed simp

interpretation hm: hash_map "[]" hm_get hm_insert hm_remove hm_retain hm_len hm_invar
proof (unfold_locales, goal_cases)
  case (4 m P k)
  then show ?case by (simp add: hm_get_def hm_retain_def hm_invar_def map_of_filter_distinct)
next
  case (5 m)
  then have "card (set (map fst m)) = length m"
    by (metis distinct_card hm_invar_def length_map)
  then show ?case by (simp add: hm_len_def hm_get_def dom_map_of_conv_image_fst)
next
  case (10 m P)
  then show ?case by (simp add: hm_invar_def hm_retain_def distinct_map_filter)
qed (auto simp: hm_get_def hm_insert_def hm_remove_def hm_invar_def update_conv'
    delete_conv' finite_dom_map_of distinct_update distinct_delete)

lemmas hm_laws = hm.get_empty hm.get_insert hm.get_remove hm.get_retain_Some hm.get_retain_None

declare hm.invar_empty [simp] hm.invar_insert [simp] hm.invar_remove [simp] hm.invar_retain [simp]

section \<open>Instants\<close>

text \<open>
  An \<open>Instant\<close> and a \<open>Duration\<close> count nanoseconds; \<open>imax\<close> is the last representable instant
  of the platform. \<open>instant + duration\<close> panics (\<open>None\<close>) past it.
\<close>

type_synonym instant = nat
type_synonym duration = nat

definition nanos :: nat where
  "nanos = 1000000000"

definition from_secs :: "nat \<Rightarrow> duration" where
  "from_secs s = nanos * s"

definition as_secs :: "duration \<Rightarrow> nat" where
  "as_secs d = d div nanos"

definition instant_add :: "nat \<Rightarrow> instant \<Rightarrow> duration \<Rightarrow> instant option" where
  "instant_add imax t d = (if t + d \<le> imax then Some (t + d) else None)"

lemma as_secs_from_secs [simp]: "as_secs (from_secs s) = s"
  by (simp add: as_secs_def from_secs_def nanos_def)

lemma instant_add_Some [simp]: "instant_add imax t d = Some u \<longleftrightarrow> u = t + d \<and> t + d \<le> imax"
  by (auto simp: instant_add_def)

lemma instant_add_None [simp]: "instant_add imax t d = None \<longleftrightarrow> imax < t + d"
  by (auto simp: instant_add_def)

end
