(* ===== verification/Token.thy ===== *)
theory Token
  imports RustStr RustColl Ext
begin

text \<open>
  \<open>src/token.rs\<close>: access and refresh tokens. The service keeps, behind a mutex, the live refresh
  tokens, the spent ones and the revoked families. Each operation is a function from the service to
  its result and the new service; what it reads from outside (the clocks and the random bytes) comes
  in an \<open>env\<close>. A panic while the mutex is held poisons it, and every later lock panics.
\<close>

section \<open>Constants and data\<close>

definition TOKEN_BYTES :: nat where "TOKEN_BYTES = 32"
definition MIN_SECRET_BYTES :: nat where "MIN_SECRET_BYTES = 32"
definition ACCESS_TOKEN_VERSION :: u8 where "ACCESS_TOKEN_VERSION = 1"
definition MAX_FAMILY_LIFETIME :: duration where "MAX_FAMILY_LIFETIME = from_secs (30 * 24 * 60 * 60)"
definition MAX_RECORDS :: nat where "MAX_RECORDS = 100000"
definition SWEEP_INTERVAL :: duration where "SWEEP_INTERVAL = from_secs 60"

record issued_tokens =
  it_access_token :: string
  it_access_expires_in :: nat
  it_refresh_token :: string
  it_refresh_expires_in :: nat

datatype token_error = Invalid | Reused string | Full | Random

type_synonym hash = bytes

record refresh_record =
  rr_family :: u64
  rr_user :: string
  rr_expires :: instant
  rr_family_deadline :: instant

record spent_record =
  sp_family :: u64
  sp_user :: string
  sp_expires :: instant

record state =
  st_refresh :: "(hash, refresh_record) hmap"
  st_spent :: "(hash, spent_record) hmap"
  st_revoked :: "(u64, instant) hmap"
  st_next_sweep :: instant

record token_service =
  ts_key :: bytes
  ts_access_ttl :: duration
  ts_refresh_ttl :: duration
  ts_state :: state
  ts_poisoned :: bool

text \<open>
  What one call reads from outside: \<open>Instant::now()\<close>, the Unix time in seconds, the random bytes of
  \<open>random_family\<close> and \<open>generate_token\<close> (\<open>None\<close>: the generator failed), and the last
  representable instant.
\<close>

record env =
  env_now :: instant
  env_unix :: u64
  env_family :: "bytes option"
  env_token :: "bytes option"
  env_imax :: nat

section \<open>The state behind the mutex\<close>

definition force_sweep :: "nat \<Rightarrow> instant \<Rightarrow> state \<Rightarrow> state option" where
  "force_sweep imax now s =
     (case instant_add imax now SWEEP_INTERVAL of
        None \<Rightarrow> None
      | Some t \<Rightarrow> Some (s\<lparr>
          st_refresh := hm_retain (\<lambda>_ r. now < rr_expires r \<and> now < rr_family_deadline r) (st_refresh s),
          st_spent := hm_retain (\<lambda>_ r. now < sp_expires r) (st_spent s),
          st_revoked := hm_retain (\<lambda>_ until. now < until) (st_revoked s),
          st_next_sweep := t\<rparr>))"

definition sweep :: "nat \<Rightarrow> instant \<Rightarrow> state \<Rightarrow> state option" where
  "sweep imax now s = (if now < st_next_sweep s then Some s else force_sweep imax now s)"

definition revoke_family :: "nat \<Rightarrow> u64 \<Rightarrow> instant \<Rightarrow> duration \<Rightarrow> state \<Rightarrow> state option" where
  "revoke_family imax family now access_ttl s =
     (let s = s\<lparr>st_refresh := hm_retain (\<lambda>_ r. rr_family r \<noteq> family) (st_refresh s)\<rparr>
      in case instant_add imax now access_ttl of
           None \<Rightarrow> None
         | Some until \<Rightarrow> Some (s\<lparr>st_revoked := hm_insert family until (st_revoked s)\<rparr>))"

definition records :: "state \<Rightarrow> nat" where
  "records s = hm_len (st_refresh s) + hm_len (st_spent s)"

definition make_room :: "nat \<Rightarrow> instant \<Rightarrow> state \<Rightarrow> ((token_error + unit) \<times> state) outcome" where
  "make_room imax now s =
     (if MAX_RECORDS \<le> records s then
        (case force_sweep imax now s of
           None \<Rightarrow> Panic
         | Some s \<Rightarrow> if MAX_RECORDS \<le> records s then Ret (Inl Full, s) else Ret (Inr (), s))
      else Ret (Inr (), s))"

section \<open>The service\<close>

text \<open>
  \<open>self.state.lock().expect(..)\<close> around a body that returns a value and the new state. The state a
  panicking body leaves behind cannot be read again, so only the poisoning is recorded.
\<close>

definition with_state ::
  "token_service \<Rightarrow> (state \<Rightarrow> ('a \<times> state) outcome) \<Rightarrow> 'a outcome \<times> token_service" where
  "with_state svc body =
     (if ts_poisoned svc then (Panic, svc)
      else case body (ts_state svc) of
             Panic \<Rightarrow> (Panic, svc\<lparr>ts_poisoned := True\<rparr>)
           | Ret (v, s) \<Rightarrow> (Ret v, svc\<lparr>ts_state := s\<rparr>))"

definition TokenService_new :: "bytes \<Rightarrow> duration \<Rightarrow> duration \<Rightarrow> nat \<Rightarrow> instant \<Rightarrow> token_service outcome" where
  "TokenService_new secret access_ttl refresh_ttl imax now =
     (case instant_add imax now SWEEP_INTERVAL of
        None \<Rightarrow> Panic
      | Some t \<Rightarrow> Ret \<lparr>
          ts_key = secret,
          ts_access_ttl = access_ttl,
          ts_refresh_ttl = refresh_ttl,
          ts_state = \<lparr>st_refresh = [], st_spent = [], st_revoked = [], st_next_sweep = t\<rparr>,
          ts_poisoned = False\<rparr>)"

definition generate_token :: "ext \<Rightarrow> bytes option \<Rightarrow> string option" where
  "generate_token x rnd = map_option (b64_url_encode x) rnd"

definition random_family :: "bytes option \<Rightarrow> u64 option" where
  "random_family rnd = map_option from_be_bytes rnd"

definition hash_token :: "ext \<Rightarrow> string \<Rightarrow> hash" where
  "hash_token x token = sha256 x (as_bytes token)"

text \<open>The Unix seconds and the lifetime are \<open>u64\<close>; a release build wraps their sum.\<close>

definition access_payload :: "u64 \<Rightarrow> u64 \<Rightarrow> string \<Rightarrow> bytes" where
  "access_payload family expires user =
     [ACCESS_TOKEN_VERSION] @ to_be_bytes family @ to_be_bytes expires @ as_bytes user"

definition mint_access :: "ext \<Rightarrow> token_service \<Rightarrow> u64 \<Rightarrow> u64 \<Rightarrow> string \<Rightarrow> string" where
  "mint_access x svc unix_now family user =
     (let expires = unix_now + of_nat (as_secs (ts_access_ttl svc));
          payload = access_payload family expires user;
          tag = hmac_sign x (ts_key svc) payload
      in b64_url_encode x payload @ ''.'' @ b64_url_encode x tag)"

definition issue ::
  "ext \<Rightarrow> token_service \<Rightarrow> env \<Rightarrow> state \<Rightarrow> u64 \<Rightarrow> string \<Rightarrow> instant \<Rightarrow> instant
     \<Rightarrow> ((token_error + issued_tokens) \<times> state) outcome" where
  "issue x svc e s family user now family_deadline =
     (case generate_token x (env_token e) of
        None \<Rightarrow> Ret (Inl Random, s)
      | Some refresh_token \<Rightarrow>
          (case instant_add (env_imax e) now (ts_refresh_ttl svc) of
             None \<Rightarrow> Panic
           | Some t \<Rightarrow>
               (let refresh_expires = min t family_deadline;
                    s = s\<lparr>st_refresh := hm_insert (hash_token x refresh_token)
                          \<lparr>rr_family = family, rr_user = user, rr_expires = refresh_expires,
                           rr_family_deadline = family_deadline\<rparr> (st_refresh s)\<rparr>
                in Ret (Inr \<lparr>
                     it_access_token = mint_access x svc (env_unix e) family user,
                     it_access_expires_in = as_secs (ts_access_ttl svc),
                     it_refresh_token = refresh_token,
                     it_refresh_expires_in = as_secs (refresh_expires - now)\<rparr>, s))))"

definition login_body ::
  "ext \<Rightarrow> token_service \<Rightarrow> env \<Rightarrow> u64 \<Rightarrow> string \<Rightarrow> state
     \<Rightarrow> ((token_error + issued_tokens) \<times> state) outcome" where
  "login_body x svc e family user s =
     (let now = env_now e
      in case make_room (env_imax e) now s of
           Panic \<Rightarrow> Panic
         | Ret (Inl err, s) \<Rightarrow> Ret (Inl err, s)
         | Ret (Inr _, s) \<Rightarrow>
             (case instant_add (env_imax e) now MAX_FAMILY_LIFETIME of
                None \<Rightarrow> Panic
              | Some deadline \<Rightarrow> issue x svc e s family user now deadline))"

definition login ::
  "ext \<Rightarrow> env \<Rightarrow> string \<Rightarrow> token_service
     \<Rightarrow> (token_error + issued_tokens) outcome \<times> token_service" where
  "login x e user svc =
     (case random_family (env_family e) of
        None \<Rightarrow> (Ret (Inl Random), svc)
      | Some family \<Rightarrow> with_state svc (login_body x svc e family user))"

text \<open>
  \<open>refresh\<close> once the store has been swept and has room: the token is looked up among the live ones and
  consumed, or recognised as already spent.
\<close>

definition consume ::
  "ext \<Rightarrow> token_service \<Rightarrow> env \<Rightarrow> hash \<Rightarrow> (string \<Rightarrow> bool) \<Rightarrow> state
     \<Rightarrow> ((token_error + (string \<times> issued_tokens)) \<times> state) outcome" where
  "consume x svc e hash user_exists s =
     (let now = env_now e
      in case hm_get (st_refresh s) hash of
           None \<Rightarrow>
             (case hm_get (st_spent s) hash of
                None \<Rightarrow> Ret (Inl Invalid, s)
              | Some spent \<Rightarrow>
                  if now < sp_expires spent then
                    (case revoke_family (env_imax e) (sp_family spent) now (ts_access_ttl svc) s of
                       None \<Rightarrow> Panic
                     | Some s \<Rightarrow> Ret (Inl (Reused (sp_user spent)), s))
                  else Ret (Inl Invalid, s))
         | Some record \<Rightarrow>
             (let s = s\<lparr>st_refresh := hm_remove hash (st_refresh s)\<rparr>
              in if rr_expires record \<le> now \<or> rr_family_deadline record \<le> now
                    \<or> \<not> user_exists (rr_user record)
                 then Ret (Inl Invalid, s)
                 else
                   (let s = s\<lparr>st_spent := hm_insert hash
                          \<lparr>sp_family = rr_family record, sp_user = rr_user record,
                           sp_expires = rr_expires record\<rparr> (st_spent s)\<rparr>
                    in case issue x svc e s (rr_family record) (rr_user record) now
                              (rr_family_deadline record) of
                         Panic \<Rightarrow> Panic
                       | Ret (Inl err, s) \<Rightarrow> Ret (Inl err, s)
                       | Ret (Inr issued, s) \<Rightarrow> Ret (Inr (rr_user record, issued), s))))"

definition refresh_body ::
  "ext \<Rightarrow> token_service \<Rightarrow> env \<Rightarrow> string \<Rightarrow> (string \<Rightarrow> bool) \<Rightarrow> state
     \<Rightarrow> ((token_error + (string \<times> issued_tokens)) \<times> state) outcome" where
  "refresh_body x svc e refresh_token user_exists s =
     (let now = env_now e; hash = hash_token x refresh_token
      in case sweep (env_imax e) now s of
           None \<Rightarrow> Panic
         | Some s \<Rightarrow>
             (case make_room (env_imax e) now s of
                Panic \<Rightarrow> Panic
              | Ret (Inl err, s) \<Rightarrow> Ret (Inl err, s)
              | Ret (Inr _, s) \<Rightarrow> consume x svc e hash user_exists s))"

definition refresh ::
  "ext \<Rightarrow> env \<Rightarrow> string \<Rightarrow> (string \<Rightarrow> bool) \<Rightarrow> token_service
     \<Rightarrow> (token_error + (string \<times> issued_tokens)) outcome \<times> token_service" where
  "refresh x e refresh_token user_exists svc =
     with_state svc (refresh_body x svc e refresh_token user_exists)"

definition known_family :: "hash \<Rightarrow> state \<Rightarrow> u64 option" where
  "known_family hash s =
     (case hm_get (st_refresh s) hash of
        Some record \<Rightarrow> Some (rr_family record)
      | None \<Rightarrow> map_option sp_family (hm_get (st_spent s) hash))"

definition revoke_body :: "ext \<Rightarrow> token_service \<Rightarrow> env \<Rightarrow> string \<Rightarrow> state \<Rightarrow> (bool \<times> state) outcome" where
  "revoke_body x svc e refresh_token s =
     (case known_family (hash_token x refresh_token) s of
        Some family \<Rightarrow>
          (case revoke_family (env_imax e) family (env_now e) (ts_access_ttl svc) s of
             None \<Rightarrow> Panic
           | Some s \<Rightarrow> Ret (True, s))
      | None \<Rightarrow> Ret (False, s))"

definition revoke :: "ext \<Rightarrow> env \<Rightarrow> string \<Rightarrow> token_service \<Rightarrow> bool outcome \<times> token_service" where
  "revoke x e refresh_token svc = with_state svc (revoke_body x svc e refresh_token)"

text \<open>The checks of \<open>verify_access\<close> before the lock: the family and the user the token carries.\<close>

definition decode_access :: "ext \<Rightarrow> token_service \<Rightarrow> u64 \<Rightarrow> string \<Rightarrow> (u64 \<times> string) option" where
  "decode_access x svc unix_now token =
     (case split_once ''.'' token of
        None \<Rightarrow> None
      | Some (payload, tag) \<Rightarrow>
          (case b64_url_decode x payload of
             None \<Rightarrow> None
           | Some payload \<Rightarrow>
               (case b64_url_decode x tag of
                  None \<Rightarrow> None
                | Some tag \<Rightarrow>
                    if \<not> hmac_verify x (ts_key svc) payload tag then None
                    else
                      (case payload of
                         [] \<Rightarrow> None
                       | version # rest \<Rightarrow>
                           if version \<noteq> ACCESS_TOKEN_VERSION \<or> length rest < 16 then None
                           else
                             (let family = from_be_bytes (take 8 rest);
                                  expires = from_be_bytes (take 8 (drop 8 rest))
                              in case from_utf8 (drop 16 rest) of
                                   None \<Rightarrow> None
                                 | Some user \<Rightarrow>
                                     if expires \<le> unix_now then None else Some (family, user))))))"

definition verify_access :: "ext \<Rightarrow> u64 \<Rightarrow> string \<Rightarrow> token_service \<Rightarrow> string option outcome" where
  "verify_access x unix_now token svc =
     (case decode_access x svc unix_now token of
        None \<Rightarrow> Ret None
      | Some (family, user) \<Rightarrow>
          if ts_poisoned svc then Panic
          else if hm_get (st_revoked (ts_state svc)) family \<noteq> None then Ret None
          else Ret (Some user))"

text \<open>\<open>load_secret\<close>: the argument is what \<open>fs::read\<close> gives, \<open>None\<close> when it fails.\<close>

datatype secret_error = SecretUnreadable | SecretTooShort nat | SecretRandom

definition load_secret :: "bytes option \<Rightarrow> secret_error + bytes" where
  "load_secret contents =
     (case contents of
        None \<Rightarrow> Inl SecretUnreadable
      | Some contents \<Rightarrow>
          (let secret = trim_ascii contents
           in if length secret < MIN_SECRET_BYTES then Inl (SecretTooShort (length secret))
              else Inr secret))"

lemmas token_consts = TOKEN_BYTES_def MIN_SECRET_BYTES_def ACCESS_TOKEN_VERSION_def
  MAX_FAMILY_LIFETIME_def MAX_RECORDS_def SWEEP_INTERVAL_def

lemmas [evals] = token_consts from_secs_def as_secs_def nanos_def instant_add_def hm_get_def
  hm_insert_def hm_remove_def hm_retain_def hm_len_def force_sweep_def sweep_def revoke_family_def
  records_def make_room_def with_state_def TokenService_new_def generate_token_def
  random_family_def hash_token_def access_payload_def mint_access_def issue_def login_body_def
  login_def consume_def refresh_body_def refresh_def known_family_def revoke_body_def revoke_def
  decode_access_def verify_access_def load_secret_def

end
