(* ===== verification/Auth.thy ===== *)
theory Auth
  imports Args Token
begin

text \<open>
  \<open>src/auth.rs\<close>: Basic credentials and the anonymous targets, from the options and from files that are
  reloaded while the router runs, and the authorization of a request. Also \<open>TokenService::from_args\<close>
  of \<open>src/token.rs\<close>, which needs the options. The two read-write locks are never held across code that
  can panic, so they are never poisoned and the state is held directly. What is logged is in \<open>EventLog\<close>.
\<close>

section \<open>Data\<close>

definition TokenService_from_args ::
  "filesystem \<Rightarrow> bytes option \<Rightarrow> nat \<Rightarrow> instant \<Rightarrow> args \<Rightarrow> (secret_error + token_service) outcome" where
  "TokenService_from_args fs rnd imax now a =
     (case (case ar_token_secret_file a of
              Some path \<Rightarrow> load_secret (fs path)
            | None \<Rightarrow> (case rnd of None \<Rightarrow> Inl SecretRandom | Some secret \<Rightarrow> Inr secret)) of
        Inl e \<Rightarrow> Ret (Inl e)
      | Inr secret \<Rightarrow>
          (case TokenService_new secret (from_secs (unat (ar_access_token_ttl a)))
                  (from_secs (unat (ar_refresh_token_ttl a))) imax now of
             Panic \<Rightarrow> Panic
           | Ret svc \<Rightarrow> Ret (Inr svc)))"

record auth_config =
  ac_expected_authorizations :: "string list"
  ac_fixed_authorizations :: "string list"
  ac_basic_auth_file :: "string option"
  ac_anonymous_targets :: "string list"
  ac_fixed_anonymous_targets :: "string list"
  ac_anonymous_target_file :: "string option"
  ac_tokens :: "token_service option"

datatype credential_error = CredentialFormat | UsernameEmpty | PasswordEmpty

datatype auth_error =
    BadCredential credential_error
  | AuthFileUnreadable string
  | AuthFileLine string nat credential_error
  | NoCredentials
  | BadAnonymousTarget string target_error
  | TargetFileUnreadable string
  | TargetFileLine string nat target_error
  | TokenSecret secret_error

definition BASIC_CHALLENGE :: string where
  "BASIC_CHALLENGE = ''Basic realm=\"ws2tcp-router\", charset=\"UTF-8\"''"

definition BEARER_CHALLENGE :: string where
  "BEARER_CHALLENGE = ''Bearer realm=\"ws2tcp-router\"''"

definition BEARER_INVALID_CHALLENGE :: string where
  "BEARER_INVALID_CHALLENGE = ''Bearer realm=\"ws2tcp-router\", error=\"invalid_token\"''"

definition ANONYMOUS_AUTH_USER :: string where
  "ANONYMOUS_AUTH_USER = ''anonymous''"

section \<open>Configuration\<close>

definition validate_basic_auth_credential :: "string \<Rightarrow> credential_error + unit" where
  "validate_basic_auth_credential credential =
     (case split_once '':'' credential of
        None \<Rightarrow> Inl CredentialFormat
      | Some (username, password) \<Rightarrow>
          if username = [] then Inl UsernameEmpty
          else if password = [] then Inl PasswordEmpty
          else Inr ())"

definition encode_credential :: "ext \<Rightarrow> string \<Rightarrow> string" where
  "encode_credential x credential = ''Basic '' @ b64_std_encode x (as_bytes credential)"

definition encode_credentials :: "ext \<Rightarrow> string list \<Rightarrow> auth_error + string list" where
  "encode_credentials x credentials =
     collect_results (map (\<lambda>c.
       case validate_basic_auth_credential c of
         Inl e \<Rightarrow> Inl (BadCredential e)
       | Inr _ \<Rightarrow> Inr (encode_credential x c)) credentials)"

text \<open>The lines of a file that are neither blank nor comments, trimmed, with their index.\<close>

definition entry_lines :: "string \<Rightarrow> (nat \<times> string) list" where
  "entry_lines contents =
     filter (\<lambda>(index, l). l \<noteq> [] \<and> strip_prefix ''#'' l = None)
       (map (\<lambda>(index, l). (index, trim l)) (enumerate 0 (str_lines contents)))"

definition load_auth_file :: "ext \<Rightarrow> filesystem \<Rightarrow> string \<Rightarrow> auth_error + string list" where
  "load_auth_file x fs path =
     (case read_to_string fs path of
        None \<Rightarrow> Inl (AuthFileUnreadable path)
      | Some contents \<Rightarrow>
          (case collect_results (map (\<lambda>(index, c).
                  case validate_basic_auth_credential c of
                    Inl e \<Rightarrow> Inl (AuthFileLine path (index + 1) e)
                  | Inr _ \<Rightarrow> Inr c) (entry_lines contents)) of
             Inl e \<Rightarrow> Inl e
           | Inr credentials \<Rightarrow> encode_credentials x credentials))"

definition normalize_anonymous_targets :: "string list \<Rightarrow> auth_error + string list" where
  "normalize_anonymous_targets targets =
     collect_results (map (\<lambda>t.
       case parse_target_addr t of
         Inl e \<Rightarrow> Inl (BadAnonymousTarget t e)
       | Inr target \<Rightarrow> Inr (addr target)) targets)"

definition load_anonymous_target_file :: "filesystem \<Rightarrow> string \<Rightarrow> auth_error + string list" where
  "load_anonymous_target_file fs path =
     (case read_to_string fs path of
        None \<Rightarrow> Inl (TargetFileUnreadable path)
      | Some contents \<Rightarrow>
          collect_results (map (\<lambda>(index, t).
            case parse_target_addr t of
              Inl e \<Rightarrow> Inl (TargetFileLine path (index + 1) e)
            | Inr target \<Rightarrow> Inr (addr target)) (entry_lines contents)))"

definition load_optional :: "(string \<Rightarrow> auth_error + string list) \<Rightarrow> string option \<Rightarrow> auth_error + string list" where
  "load_optional load path = (case path of None \<Rightarrow> Inr [] | Some p \<Rightarrow> load p)"

definition build_auth_config ::
  "ext \<Rightarrow> filesystem \<Rightarrow> bytes option \<Rightarrow> nat \<Rightarrow> instant \<Rightarrow> args \<Rightarrow> (auth_error + auth_config option) outcome" where
  "build_auth_config x fs rnd imax now a =
     (if ar_basic_auth a = [] \<and> ar_basic_auth_file a = None then Ret (Inr None)
      else case encode_credentials x (ar_basic_auth a) of
        Inl e \<Rightarrow> Ret (Inl e)
      | Inr fixed_authorizations \<Rightarrow>
     (case load_optional (load_auth_file x fs) (ar_basic_auth_file a) of
        Inl e \<Rightarrow> Ret (Inl e)
      | Inr file_authorizations \<Rightarrow>
     (let expected_authorizations = fixed_authorizations @ file_authorizations in
      if expected_authorizations = [] then Ret (Inl NoCredentials)
      else case normalize_anonymous_targets (ar_anonymous_target a) of
        Inl e \<Rightarrow> Ret (Inl e)
      | Inr fixed_anonymous_targets \<Rightarrow>
     (case load_optional (load_anonymous_target_file fs) (ar_anonymous_target_file a) of
        Inl e \<Rightarrow> Ret (Inl e)
      | Inr file_anonymous_targets \<Rightarrow>
     (case TokenService_from_args fs rnd imax now a of
        Panic \<Rightarrow> Panic
      | Ret (Inl e) \<Rightarrow> Ret (Inl (TokenSecret e))
      | Ret (Inr tokens) \<Rightarrow> Ret (Inr (Some \<lparr>
          ac_expected_authorizations = expected_authorizations,
          ac_fixed_authorizations = fixed_authorizations,
          ac_basic_auth_file = ar_basic_auth_file a,
          ac_anonymous_targets = fixed_anonymous_targets @ file_anonymous_targets,
          ac_fixed_anonymous_targets = fixed_anonymous_targets,
          ac_anonymous_target_file = ar_anonymous_target_file a,
          ac_tokens = Some tokens\<rparr>)))))))"

section \<open>Reloading\<close>

text \<open>A reload answers whether it changed anything, and the new configuration.\<close>

definition reload_auth_file ::
  "ext \<Rightarrow> filesystem \<Rightarrow> string \<Rightarrow> auth_config \<Rightarrow> (auth_error + bool) \<times> auth_config" where
  "reload_auth_file x fs path ac =
     (case load_auth_file x fs path of
        Inl e \<Rightarrow> (Inl e, ac)
      | Inr file_authorizations \<Rightarrow>
          (let next = ac_fixed_authorizations ac @ file_authorizations
           in if next = [] then (Inl NoCredentials, ac)
              else if ac_expected_authorizations ac = next then (Inr False, ac)
              else (Inr True, ac\<lparr>ac_expected_authorizations := next\<rparr>)))"

definition reload_anonymous_target_file ::
  "filesystem \<Rightarrow> string \<Rightarrow> auth_config \<Rightarrow> (auth_error + bool) \<times> auth_config" where
  "reload_anonymous_target_file fs path ac =
     (case load_anonymous_target_file fs path of
        Inl e \<Rightarrow> (Inl e, ac)
      | Inr file_targets \<Rightarrow>
          (let next = ac_fixed_anonymous_targets ac @ file_targets
           in if ac_anonymous_targets ac = next then (Inr False, ac)
              else (Inr True, ac\<lparr>ac_anonymous_targets := next\<rparr>)))"

text \<open>
  One tick of \<open>poll_file_reload\<close>: the reload, the error remembered for the next tick, and what is
  logged (a change, a new error, or nothing).
\<close>

datatype reload_log = LogReloaded | LogFailed auth_error | LogNothing

definition poll_file_reload ::
  "(auth_config \<Rightarrow> (auth_error + bool) \<times> auth_config) \<Rightarrow> auth_error option \<times> auth_config
     \<Rightarrow> reload_log \<times> auth_error option \<times> auth_config" where
  "poll_file_reload reload s =
     (case reload (snd s) of
        (Inr True, ac) \<Rightarrow> (LogReloaded, None, ac)
      | (Inr False, ac) \<Rightarrow> (LogNothing, None, ac)
      | (Inl e, ac) \<Rightarrow> if fst s \<noteq> Some e then (LogFailed e, Some e, ac) else (LogNothing, fst s, ac))"

section \<open>Requests\<close>

definition basic_auth_username :: "ext \<Rightarrow> string \<Rightarrow> string option" where
  "basic_auth_username x authorization =
     (case strip_prefix ''Basic '' authorization of
        None \<Rightarrow> None
      | Some encoded \<Rightarrow>
          (case b64_std_decode x encoded of
             None \<Rightarrow> None
           | Some decoded \<Rightarrow>
               (case from_utf8 decoded of
                  None \<Rightarrow> None
                | Some credential \<Rightarrow>
                    (case split_once '':'' credential of
                       None \<Rightarrow> None
                     | Some (username, _) \<Rightarrow> if username = [] then None else Some username))))"

definition bearer_token :: "string \<Rightarrow> string option" where
  "bearer_token authorization =
     (case split_once '' '' authorization of
        None \<Rightarrow> None
      | Some (scheme, token) \<Rightarrow>
          if eq_ignore_ascii_case scheme ''bearer'' \<and> trim token \<noteq> [] then Some (trim token) else None)"

definition basic_user :: "ext \<Rightarrow> auth_config \<Rightarrow> string \<Rightarrow> string option" where
  "basic_user x ac authorization =
     (let matched = foldl (\<lambda>matched expected. matched \<or> ct_eq x (as_bytes authorization) (as_bytes expected))
            False (ac_expected_authorizations ac)
      in if matched then basic_auth_username x authorization else None)"

definition has_user :: "ext \<Rightarrow> auth_config \<Rightarrow> string \<Rightarrow> bool" where
  "has_user x ac user =
     list_ex (\<lambda>expected. basic_auth_username x expected = Some user) (ac_expected_authorizations ac)"

definition verify_access_token :: "ext \<Rightarrow> u64 \<Rightarrow> auth_config \<Rightarrow> string \<Rightarrow> string option outcome" where
  "verify_access_token x unix_now ac token =
     (case ac_tokens ac of
        None \<Rightarrow> Ret None
      | Some tokens \<Rightarrow>
          (case verify_access x unix_now token tokens of
             Panic \<Rightarrow> Panic
           | Ret None \<Rightarrow> Ret None
           | Ret (Some user) \<Rightarrow> Ret (if has_user x ac user then Some user else None)))"

definition allows_anonymous_target :: "auth_config \<Rightarrow> string \<Rightarrow> bool" where
  "allows_anonymous_target ac path =
     (case parse_target path of
        Inl _ \<Rightarrow> False
      | Inr target \<Rightarrow> addr target \<in> set (ac_anonymous_targets ac))"

fun append_challenges :: "ext \<Rightarrow> string list \<Rightarrow> response \<Rightarrow> response outcome" where
  "append_challenges x [] r = Ret r"
| "append_challenges x (c # cs) r =
     (if header_parse_ok x c
      then append_challenges x cs (r\<lparr>rs_headers := rs_headers r @ [HdrAppend ''www-authenticate'' c]\<rparr>)
      else Panic)"

definition unauthorized_response :: "ext \<Rightarrow> bool \<Rightarrow> string option \<Rightarrow> response outcome" where
  "unauthorized_response x basic bearer =
     append_challenges x
       ((if basic then [BASIC_CHALLENGE] else []) @ (case bearer of None \<Rightarrow> [] | Some b \<Rightarrow> [b]))
       \<lparr>rs_status = 401, rs_headers = [], rs_body = Some ''authentication required''\<rparr>"

text \<open>
  \<open>authorize_request\<close>: the user, or the response that refuses the request. The names it only logs are
  left out.
\<close>

definition authorize_request ::
  "ext \<Rightarrow> u64 \<Rightarrow> request \<Rightarrow> auth_config option \<Rightarrow> (response + string) outcome" where
  "authorize_request x unix_now req auth =
     (case auth of
        None \<Rightarrow> Ret (Inr ANONYMOUS_AUTH_USER)
      | Some ac \<Rightarrow>
          if allows_anonymous_target ac (rq_path req) then Ret (Inr ANONYMOUS_AUTH_USER)
          else
            (case (case header_str x req ''authorization'' of
                     None \<Rightarrow> Ret (False, None)
                   | Some authorization \<Rightarrow>
                       (case bearer_token authorization of
                          Some token \<Rightarrow>
                            (case verify_access_token x unix_now ac token of
                               Panic \<Rightarrow> Panic
                             | Ret authorized_user \<Rightarrow> Ret (True, authorized_user))
                        | None \<Rightarrow> Ret (False, basic_user x ac authorization))) of
               Panic \<Rightarrow> Panic
             | Ret (bearer_presented, Some user) \<Rightarrow> Ret (Inr user)
             | Ret (bearer_presented, None) \<Rightarrow>
                 (case unauthorized_response x True
                         (map_option (\<lambda>_. if bearer_presented then BEARER_INVALID_CHALLENGE
                            else BEARER_CHALLENGE) (ac_tokens ac)) of
                    Panic \<Rightarrow> Panic
                  | Ret response \<Rightarrow> Ret (Inl response))))"

lemmas [evals] = TokenService_from_args_def BASIC_CHALLENGE_def BEARER_CHALLENGE_def
  BEARER_INVALID_CHALLENGE_def ANONYMOUS_AUTH_USER_def validate_basic_auth_credential_def
  encode_credential_def encode_credentials_def entry_lines_def load_auth_file_def
  normalize_anonymous_targets_def load_anonymous_target_file_def load_optional_def
  build_auth_config_def reload_auth_file_def reload_anonymous_target_file_def poll_file_reload_def
  basic_auth_username_def bearer_token_def basic_user_def has_user_def verify_access_token_def
  allows_anonymous_target_def unauthorized_response_def authorize_request_def

end
