(* ===== verification/TokenInv.thy ===== *)
theory TokenInv
  imports Token
begin

text \<open>
  Invariants of the token store. A locale states what a predicate on the store must satisfy on the
  primitive state changes (sweep, revocation, consuming, issuing); that every operation of the
  service and every sequence of operations keeps it is proved once, inside the locale. Its
  interpretations are the well-formedness and size bound of the store, the bound on the deadline of
  a family, and the death of a revoked family.
\<close>

section \<open>Runs of the service\<close>

text \<open>
  One operation on the service at a time not before the last one; \<open>fresh\<close> restricts the families a
  login may draw, \<open>newh\<close> the hashes of the refresh tokens that may be generated. The runtime is single-threaded and no operation awaits, so operations do not
  interleave.
\<close>

inductive tok_step ::
  "ext \<Rightarrow> (u64 \<Rightarrow> bool) \<Rightarrow> (hash \<Rightarrow> bool) \<Rightarrow> token_service \<times> instant \<Rightarrow> token_service \<times> instant \<Rightarrow> bool"
  for x :: ext and fresh :: "u64 \<Rightarrow> bool" and newh :: "hash \<Rightarrow> bool" where
  step_login: "t \<le> env_now e \<Longrightarrow> \<forall>f. random_family (env_family e) = Some f \<longrightarrow> fresh f \<Longrightarrow>
     \<forall>token. generate_token x (env_token e) = Some token \<longrightarrow> newh (hash_token x token) \<Longrightarrow>
     tok_step x fresh newh (svc, t) (snd (login x e user svc), env_now e)"
| step_refresh: "t \<le> env_now e \<Longrightarrow>
     \<forall>token. generate_token x (env_token e) = Some token \<longrightarrow> newh (hash_token x token) \<Longrightarrow>
     tok_step x fresh newh (svc, t) (snd (refresh x e token user_exists svc), env_now e)"
| step_revoke: "t \<le> env_now e \<Longrightarrow>
     tok_step x fresh newh (svc, t) (snd (revoke x e token svc), env_now e)"

abbreviation tok_steps ::
  "ext \<Rightarrow> (u64 \<Rightarrow> bool) \<Rightarrow> (hash \<Rightarrow> bool) \<Rightarrow> token_service \<times> instant \<Rightarrow> token_service \<times> instant \<Rightarrow> bool" where
  "tok_steps x fresh newh \<equiv> (tok_step x fresh newh)\<^sup>*\<^sup>*"

section \<open>Shapes of results\<close>

lemma with_state_cases:
  assumes "with_state svc body = (r, svc')"
  obtains (poisoned) "ts_poisoned svc" "r = Panic" "svc' = svc"
  | (panic) "\<not> ts_poisoned svc" "body (ts_state svc) = Panic" "r = Panic" "svc' = svc\<lparr>ts_poisoned := True\<rparr>"
  | (ok) v s where "\<not> ts_poisoned svc" "body (ts_state svc) = Ret (v, s)" "r = Ret v" "svc' = svc\<lparr>ts_state := s\<rparr>"
  using assms by (auto simp: with_state_def split: if_splits outcome.splits prod.splits)

lemma with_state_frame [simp]:
  "ts_access_ttl (snd (with_state svc body)) = ts_access_ttl svc"
  "ts_refresh_ttl (snd (with_state svc body)) = ts_refresh_ttl svc"
  "ts_key (snd (with_state svc body)) = ts_key svc"
  by (auto simp: with_state_def split: outcome.splits prod.splits)

lemma ops_frame [simp]:
  "ts_access_ttl (snd (login x e u svc)) = ts_access_ttl svc"
  "ts_access_ttl (snd (refresh x e t ue svc)) = ts_access_ttl svc"
  "ts_access_ttl (snd (revoke x e t svc)) = ts_access_ttl svc"
  "ts_refresh_ttl (snd (login x e u svc)) = ts_refresh_ttl svc"
  "ts_refresh_ttl (snd (refresh x e t ue svc)) = ts_refresh_ttl svc"
  "ts_refresh_ttl (snd (revoke x e t svc)) = ts_refresh_ttl svc"
  "ts_key (snd (login x e u svc)) = ts_key svc"
  "ts_key (snd (refresh x e t ue svc)) = ts_key svc"
  "ts_key (snd (revoke x e t svc)) = ts_key svc"
  by (simp_all add: login_def refresh_def revoke_def split: option.splits)

lemma step_frame:
  "tok_step x fresh newh c c' \<Longrightarrow> ts_access_ttl (fst c') = ts_access_ttl (fst c)
     \<and> ts_key (fst c') = ts_key (fst c) \<and> snd c \<le> snd c'"
  by (induction rule: tok_step.induct) auto

lemma steps_frame:
  "tok_steps x fresh newh c c' \<Longrightarrow> ts_access_ttl (fst c') = ts_access_ttl (fst c)
     \<and> ts_key (fst c') = ts_key (fst c) \<and> snd c \<le> snd c'"
  by (induction rule: rtranclp_induct) (auto dest: step_frame)

text \<open>The record that \<open>issue\<close> stores, and the shape of its result.\<close>

definition new_record :: "token_service \<Rightarrow> env \<Rightarrow> u64 \<Rightarrow> string \<Rightarrow> instant \<Rightarrow> refresh_record" where
  "new_record svc e family user deadline =
     \<lparr>rr_family = family, rr_user = user,
      rr_expires = min (env_now e + ts_refresh_ttl svc) deadline, rr_family_deadline = deadline\<rparr>"

lemma new_record_sel [simp]:
  "rr_family (new_record svc e f u d) = f" "rr_user (new_record svc e f u d) = u"
  "rr_family_deadline (new_record svc e f u d) = d"
  "rr_expires (new_record svc e f u d) = min (env_now e + ts_refresh_ttl svc) d"
  by (simp_all add: new_record_def)

definition add_refresh :: "hash \<Rightarrow> refresh_record \<Rightarrow> state \<Rightarrow> state" where
  "add_refresh h r s = s\<lparr>st_refresh := hm_insert h r (st_refresh s)\<rparr>"

lemma issue_cases:
  assumes "issue x svc e s f u (env_now e) d = Ret (r, s')"
  obtains (random) "r = Inl Random" "s' = s"
  | (issued) token where "env_token e \<noteq> None" "generate_token x (env_token e) = Some token" "token = b64_url_encode x (the (env_token e))"
      "env_now e + ts_refresh_ttl svc \<le> env_imax e"
      "s' = add_refresh (hash_token x token) (new_record svc e f u d) s"
      "r = Inr \<lparr>it_access_token = mint_access x svc (env_unix e) f u,
        it_access_expires_in = as_secs (ts_access_ttl svc), it_refresh_token = token,
        it_refresh_expires_in = as_secs (min (env_now e + ts_refresh_ttl svc) d - env_now e)\<rparr>"
  using assms
  by (auto simp: issue_def generate_token_def new_record_def add_refresh_def Let_def
      split: option.splits if_splits)

section \<open>The interface of an invariant\<close>

definition maps_ok :: "state \<Rightarrow> bool" where
  "maps_ok s \<longleftrightarrow> hm_invar (st_refresh s) \<and> hm_invar (st_spent s) \<and> hm_invar (st_revoked s)"

definition retire :: "hash \<Rightarrow> refresh_record \<Rightarrow> state \<Rightarrow> state" where
  "retire h r s = s\<lparr>st_refresh := hm_remove h (st_refresh s),
     st_spent := hm_insert h \<lparr>sp_family = rr_family r, sp_user = rr_user r, sp_expires = rr_expires r\<rparr>
       (st_spent s)\<rparr>"

locale store_invariant =
  fixes I :: "instant \<Rightarrow> state \<Rightarrow> bool"
    and fresh :: "u64 \<Rightarrow> bool"
    and newh :: "hash \<Rightarrow> bool"
    and ttl :: duration
  assumes time: "I t s \<Longrightarrow> t \<le> t' \<Longrightarrow> I t' s"
    and swept: "I t s \<Longrightarrow> force_sweep imax t s = Some s' \<Longrightarrow> I t s'"
    and revoked: "I t s \<Longrightarrow> revoke_family imax f t ttl s = Some s' \<Longrightarrow> I t s'"
    and dropped: "I t s \<Longrightarrow> I t (s\<lparr>st_refresh := hm_remove h (st_refresh s)\<rparr>)"
    and opened: "I t s \<Longrightarrow> records s < MAX_RECORDS \<Longrightarrow> fresh (rr_family r) \<Longrightarrow> newh h \<Longrightarrow>
          rr_expires r \<le> rr_family_deadline r \<Longrightarrow> I t (add_refresh h r s)"
    and retired: "I t s \<Longrightarrow> hm_get (st_refresh s) h = Some r \<Longrightarrow> I t (retire h r s)"
    and rotated: "I t s \<Longrightarrow> records s < MAX_RECORDS \<Longrightarrow> hm_get (st_refresh s) h = Some r \<Longrightarrow>
          rr_family r' = rr_family r \<Longrightarrow> rr_family_deadline r' = rr_family_deadline r \<Longrightarrow>
          newh h' \<Longrightarrow> rr_expires r' \<le> rr_family_deadline r' \<Longrightarrow> I t (add_refresh h' r' (retire h r s))"
begin

lemma room_keeps:
  "I t s \<Longrightarrow> make_room imax t s = Ret (r, s') \<Longrightarrow> I t s' \<and> (r = Inr () \<longrightarrow> records s' < MAX_RECORDS)"
  by (auto simp: make_room_def split: if_splits option.splits dest: swept)

lemma sweep_keeps: "I t s \<Longrightarrow> sweep imax t s = Some s' \<Longrightarrow> I t s'"
  by (auto simp: sweep_def split: if_splits dest: swept)

lemma login_body_keeps:
  assumes "I (env_now e) s" and "fresh f" and "login_body x svc e f u s = Ret (r, s')"
    and "\<forall>token. generate_token x (env_token e) = Some token \<longrightarrow> newh (hash_token x token)"
  shows "I (env_now e) s'"
proof (cases "make_room (env_imax e) (env_now e) s")
  case Panic
  with assms(3) show ?thesis by (simp add: login_body_def)
next
  case (Ret p)
  obtain q s1 where p: "p = (q, s1)" by (cases p)
  with Ret have I1: "I (env_now e) s1" and room: "q = Inr () \<longrightarrow> records s1 < MAX_RECORDS"
    using room_keeps assms(1) by blast+
  show ?thesis
  proof (cases q)
    case (Inl err)
    with assms(3) Ret p I1 show ?thesis by (simp add: login_body_def)
  next
    case (Inr a)
    with assms(3) Ret p obtain d where "issue x svc e s1 f u (env_now e) d = Ret (r, s')"
      by (auto simp: login_body_def Let_def split: option.splits)
    then show ?thesis
      using I1 room Inr assms(2,4) by (cases rule: issue_cases) (auto intro: opened)
  qed
qed

lemma consume_keeps:
  assumes inv: "I (env_now e) s" and room: "records s < MAX_RECORDS" and ttl: "ts_access_ttl svc = ttl"
    and body: "consume x svc e h ue s = Ret (r, s')"
    and new: "\<forall>token. generate_token x (env_token e) = Some token \<longrightarrow> newh (hash_token x token)"
  shows "I (env_now e) s'"
proof (cases "hm_get (st_refresh s) h")
  case None
  with body inv ttl show ?thesis
    by (auto simp: consume_def Let_def dest: revoked split: option.splits if_splits)
next
  case (Some rec)
  show ?thesis
  proof (cases "rr_expires rec \<le> env_now e \<or> rr_family_deadline rec \<le> env_now e \<or> \<not> ue (rr_user rec)")
    case True
    with body Some inv show ?thesis by (auto simp: consume_def Let_def dropped)
  next
    case False
    with body Some obtain r1 where
      "issue x svc e (retire h rec s) (rr_family rec) (rr_user rec) (env_now e)
         (rr_family_deadline rec) = Ret (r1, s')"
      by (auto simp: consume_def retire_def Let_def split: outcome.splits sum.splits prod.splits)
    then show ?thesis
      using inv room Some new by (cases rule: issue_cases) (auto intro: retired rotated)
  qed
qed

lemma refresh_body_keeps:
  assumes "I (env_now e) s" and "ts_access_ttl svc = ttl" and "refresh_body x svc e token ue s = Ret (r, s')"
    and "\<forall>token. generate_token x (env_token e) = Some token \<longrightarrow> newh (hash_token x token)"
  shows "I (env_now e) s'"
proof -
  obtain s1 where s1: "sweep (env_imax e) (env_now e) s = Some s1"
    using assms(3) by (cases "sweep (env_imax e) (env_now e) s") (auto simp: refresh_body_def)
  then have I1: "I (env_now e) s1" using sweep_keeps assms(1) by blast
  obtain q s2 where s2: "make_room (env_imax e) (env_now e) s1 = Ret (q, s2)"
    using assms(3) s1
    by (cases "make_room (env_imax e) (env_now e) s1") (auto simp: refresh_body_def Let_def)
  then have I2: "I (env_now e) s2" and room: "q = Inr () \<longrightarrow> records s2 < MAX_RECORDS"
    using room_keeps I1 by blast+
  show ?thesis
    using assms(2,3,4) s1 s2 I2 room consume_keeps
    by (cases q) (auto simp: refresh_body_def Let_def)
qed

lemma revoke_body_keeps:
  assumes "I (env_now e) s" and "ts_access_ttl svc = ttl" and "revoke_body x svc e token s = Ret (r, s')"
  shows "I (env_now e) s'"
  using assms by (auto simp: revoke_body_def dest: revoked split: option.splits)

lemma with_state_keeps:
  assumes "I t (ts_state svc)" and "\<And>v s. body (ts_state svc) = Ret (v, s) \<Longrightarrow> I t s"
  shows "I t (ts_state (snd (with_state svc body)))"
  using assms by (auto simp: with_state_def split: outcome.splits)

lemma step_keeps:
  assumes "tok_step x fresh newh c c'" and "I (snd c) (ts_state (fst c))" and "ts_access_ttl (fst c) = ttl"
  shows "I (snd c') (ts_state (fst c'))"
  using assms
proof (induction rule: tok_step.induct)
  case (step_login t e svc user)
  then have "I (env_now e) (ts_state svc)" by (auto intro: time)
  with step_login show ?case
    by (auto simp: login_def split: option.splits intro: with_state_keeps login_body_keeps)
next
  case (step_refresh t e svc token ue)
  then have "I (env_now e) (ts_state svc)" by (auto intro: time)
  with step_refresh show ?case
    by (auto simp: refresh_def intro: with_state_keeps refresh_body_keeps)
next
  case (step_revoke t e svc token)
  then have "I (env_now e) (ts_state svc)" by (auto intro: time)
  with step_revoke show ?case
    by (auto simp: revoke_def intro: with_state_keeps revoke_body_keeps)
qed

lemma steps_keep:
  assumes "tok_steps x fresh newh c c'" and "I (snd c) (ts_state (fst c))" and "ts_access_ttl (fst c) = ttl"
  shows "I (snd c') (ts_state (fst c')) \<and> ts_access_ttl (fst c') = ttl"
  using assms
proof (induction rule: rtranclp_induct)
  case (step y z)
  then show ?case using step_keeps step_frame by metis
qed simp

end

end
