(* ===== verification/TokenProps.thy ===== *)
theory TokenProps
  imports TokenInv
begin

text \<open>
  The interpretations of the invariant interface (the bound of the store, the deadline of a login, a dead
  login, a remembered spent token) and the lemmas on sweeping and on access tokens that the properties of
  the token service rest on.
\<close>

section \<open>Primitive changes, field by field\<close>

lemma force_sweepD:
  assumes "force_sweep imax now s = Some s'"
  shows "st_refresh s' = hm_retain (\<lambda>_ r. now < rr_expires r \<and> now < rr_family_deadline r) (st_refresh s)"
    and "st_spent s' = hm_retain (\<lambda>_ r. now < sp_expires r) (st_spent s)"
    and "st_revoked s' = hm_retain (\<lambda>_ until. now < until) (st_revoked s)"
  using assms by (auto simp: force_sweep_def split: option.splits)

lemma revoke_familyD:
  assumes "revoke_family imax f now ttl s = Some s'"
  shows "st_refresh s' = hm_retain (\<lambda>_ r. rr_family r \<noteq> f) (st_refresh s)"
    and "st_spent s' = st_spent s"
    and "st_revoked s' = hm_insert f (now + ttl) (st_revoked s)"
  using assms by (auto simp: revoke_family_def Let_def split: option.splits)

lemmas store_simps = add_refresh_def retire_def maps_ok_def records_def hm_laws

section \<open>Well-formedness and the bound\<close>

definition store_inv :: "instant \<Rightarrow> state \<Rightarrow> bool" where
  "store_inv t s \<longleftrightarrow> maps_ok s \<and> records s \<le> MAX_RECORDS \<and>
     (\<forall>h r. hm_get (st_refresh s) h = Some r \<longrightarrow> rr_expires r \<le> rr_family_deadline r)"

lemma maps_ok_sweep: "maps_ok s \<Longrightarrow> force_sweep imax t s = Some s' \<Longrightarrow> maps_ok s'"
  by (simp add: maps_ok_def force_sweepD)

lemma maps_ok_revoke: "maps_ok s \<Longrightarrow> revoke_family imax f t ttl s = Some s' \<Longrightarrow> maps_ok s'"
  by (simp add: maps_ok_def revoke_familyD)

lemma records_sweep: "maps_ok s \<Longrightarrow> force_sweep imax t s = Some s' \<Longrightarrow> records s' \<le> records s"
  by (simp add: records_def maps_ok_def force_sweepD add_mono hm.len_retain_le)

lemma records_revoke: "maps_ok s \<Longrightarrow> revoke_family imax f t ttl s = Some s' \<Longrightarrow> records s' \<le> records s"
  by (simp add: records_def maps_ok_def revoke_familyD hm.len_retain_le)

lemma records_add: "maps_ok s \<Longrightarrow> records (add_refresh h r s) \<le> Suc (records s)"
  using hm.len_insert_le [of "st_refresh s" h r] by (simp add: records_def maps_ok_def add_refresh_def)

lemma records_retire:
  "maps_ok s \<Longrightarrow> hm_get (st_refresh s) h = Some r \<Longrightarrow> records (retire h r s) \<le> records s"
  using hm.len_remove_Suc [of "st_refresh s" h r]
    hm.len_insert_le [of "st_spent s" h
      "\<lparr>sp_family = rr_family r, sp_user = rr_user r, sp_expires = rr_expires r\<rparr>"]
  by (simp add: records_def maps_ok_def retire_def)

lemma records_drop:
  "maps_ok s \<Longrightarrow> records (s\<lparr>st_refresh := hm_remove h (st_refresh s)\<rparr>) \<le> records s"
proof (cases "hm_get (st_refresh s) h")
  case None
  assume "maps_ok s"
  with None have "hm_get (hm_remove h (st_refresh s)) = hm_get (st_refresh s)"
    by (simp add: maps_ok_def hm.get_remove fun_upd_idem)
  with \<open>maps_ok s\<close> show ?thesis by (simp add: records_def maps_ok_def hm.len_card)
next
  case (Some r)
  assume "maps_ok s"
  with Some show ?thesis
    using hm.len_remove_Suc [of "st_refresh s" h r] by (simp add: records_def maps_ok_def)
qed

interpretation bounded: store_invariant store_inv "\<lambda>_. True" "\<lambda>_. True" ttl for ttl
proof (unfold_locales, goal_cases)
  case (1 t s t')
  then show ?case by (simp add: store_inv_def)
next
  case (2 t s imax s')
  then show ?case
    using records_sweep [of s imax t s'] maps_ok_sweep [of s imax t s']
    by (auto simp: store_inv_def maps_ok_def hm_laws force_sweepD(1) [OF 2(2)])
next
  case (3 t s imax f s')
  then show ?case
    using records_revoke [of s imax f t ttl s'] maps_ok_revoke [of s imax f t ttl s']
    by (auto simp: store_inv_def maps_ok_def hm_laws revoke_familyD(1) [OF 3(2)])
next
  case (4 t s h)
  then show ?case
    using records_drop [of s h] by (auto simp: store_inv_def maps_ok_def hm_laws split: if_splits)
next
  case (5 t s r h)
  then show ?case
    using records_add [of s h r]
    by (auto simp: store_inv_def maps_ok_def hm_laws add_refresh_def split: if_splits)
next
  case (6 t s h r)
  then show ?case
    using records_retire [of s h r]
    by (auto simp: store_inv_def maps_ok_def hm_laws retire_def split: if_splits)
next
  case (7 t s h r r' h')
  then have "maps_ok (retire h r s)" by (simp add: store_inv_def maps_ok_def retire_def)
  with 7 have "records (add_refresh h' r' (retire h r s)) \<le> MAX_RECORDS"
    using records_retire [of s h r] records_add [of "retire h r s" h' r'] by (simp add: store_inv_def)
  with 7 show ?case
    by (auto simp: store_inv_def maps_ok_def hm_laws retire_def add_refresh_def split: if_splits)
qed

section \<open>The deadline of a family\<close>

definition deadline_le :: "u64 \<Rightarrow> instant \<Rightarrow> instant \<Rightarrow> state \<Rightarrow> bool" where
  "deadline_le f d t s \<longleftrightarrow> maps_ok s \<and>
     (\<forall>h r. hm_get (st_refresh s) h = Some r \<longrightarrow> rr_family r = f \<longrightarrow> rr_family_deadline r \<le> d)"

interpretation lifetime: store_invariant "deadline_le f d" "\<lambda>g. g \<noteq> f" "\<lambda>_. True" ttl for f d ttl
proof (unfold_locales, goal_cases)
  case (2 t s imax s')
  then show ?case
    using maps_ok_sweep [of s imax t s']
    by (auto simp: deadline_le_def maps_ok_def hm_laws force_sweepD(1) [OF 2(2)])
next
  case (3 t s imax g s')
  then show ?case
    using maps_ok_revoke [of s imax g t ttl s']
    by (auto simp: deadline_le_def maps_ok_def hm_laws revoke_familyD(1) [OF 3(2)])
qed (auto simp: deadline_le_def store_simps split: if_splits)

section \<open>A dead family\<close>

text \<open>
  Family \<open>f\<close> was revoked at \<open>t0\<close>: no refresh token of it is live, and it is remembered as revoked as
  long as the time is before \<open>t0 + ttl\<close>.
\<close>

definition dead :: "u64 \<Rightarrow> instant \<Rightarrow> duration \<Rightarrow> instant \<Rightarrow> state \<Rightarrow> bool" where
  "dead f t0 ttl t s \<longleftrightarrow> maps_ok s \<and> t0 \<le> t \<and>
     (\<forall>h r. hm_get (st_refresh s) h = Some r \<longrightarrow> rr_family r \<noteq> f) \<and>
     (t < t0 + ttl \<longrightarrow> (\<exists>until \<ge> t0 + ttl. hm_get (st_revoked s) f = Some until))"

interpretation grave: store_invariant "dead f t0 ttl" "\<lambda>g. g \<noteq> f" "\<lambda>_. True" ttl for f t0 ttl
proof (unfold_locales, goal_cases)
  case (2 t s imax s')
  then show ?case
    using maps_ok_sweep [of s imax t s']
    by (fastforce simp: dead_def maps_ok_def hm_laws force_sweepD(1,3) [OF 2(2)])
next
  case (3 t s imax g s')
  then show ?case
    using maps_ok_revoke [of s imax g t ttl s']
    by (auto simp: dead_def maps_ok_def hm_laws revoke_familyD(1,3) [OF 3(2)])
qed (auto simp: dead_def store_simps split: if_splits)

lemma revoke_family_dead:
  assumes "maps_ok s" and "revoke_family imax f t ttl s = Some s'"
  shows "dead f t ttl t s'"
  using assms maps_ok_revoke [OF assms]
  by (auto simp: dead_def maps_ok_def hm_laws revoke_familyD [OF assms(2)])

section \<open>Access tokens\<close>

lemma decode_mint:
  assumes "ext_ok x" and "ts_key svc' = ts_key svc" and "utf8_ok (as_bytes user)"
  shows "decode_access x svc' now (mint_access x svc unix f user) =
    (if unix + of_nat (as_secs (ts_access_ttl svc)) \<le> now then None else Some (f, user))"
proof -
  let ?e = "unix + of_nat (as_secs (ts_access_ttl svc)) :: u64"
  let ?p = "access_payload f ?e user"
  have rest: "?p = ACCESS_TOKEN_VERSION # (to_be_bytes f @ to_be_bytes ?e @ as_bytes user)"
    by (simp add: access_payload_def)
  have "split_once ''.'' (mint_access x svc unix f user) =
      Some (b64_url_encode x ?p, b64_url_encode x (hmac_sign x (ts_key svc) ?p))"
    using assms(1) by (simp add: mint_access_def Let_def split_once_char_notin)
  then show ?thesis
    using assms by (simp add: decode_access_def ext_ok_def rest from_utf8_as_bytes)
qed

lemma decode_mint_family:
  assumes "ext_ok x" and "ts_key svc' = ts_key svc"
    and "decode_access x svc' now (mint_access x svc unix f user) = Some (g, v)"
  shows "g = f \<and> now < unix + of_nat (as_secs (ts_access_ttl svc))"
proof -
  let ?e = "unix + of_nat (as_secs (ts_access_ttl svc)) :: u64"
  let ?p = "access_payload f ?e user"
  have rest: "?p = ACCESS_TOKEN_VERSION # (to_be_bytes f @ to_be_bytes ?e @ as_bytes user)"
    by (simp add: access_payload_def)
  have "split_once ''.'' (mint_access x svc unix f user) =
      Some (b64_url_encode x ?p, b64_url_encode x (hmac_sign x (ts_key svc) ?p))"
    using assms(1) by (simp add: mint_access_def Let_def split_once_char_notin)
  then show ?thesis
    using assms by (auto simp: decode_access_def ext_ok_def rest Let_def split: option.splits if_splits)
qed

text \<open>Clocks in step: the Unix time is the monotonic time plus a constant, in whole seconds.\<close>

definition clock :: "nat \<Rightarrow> instant \<Rightarrow> u64 \<Rightarrow> bool" where
  "clock offset t unix \<longleftrightarrow> unat unix = (offset + t) div nanos"

lemma unat_plus_secs:
  "unat (u :: u64) + a < 2 ^ 64 \<Longrightarrow> unat (u + of_nat a) = unat u + a"
  by (simp add: unat_word_ariths unat_of_nat)

lemma dead_rejects:
  assumes dead: "dead f t0 (from_secs a) t (ts_state svc)" and x: "ext_ok x"
    and key: "ts_key svc = ts_key mint" and ttl: "ts_access_ttl mint = from_secs a"
    and fits: "unat um + a < 2 ^ 64" and minted: "unat um \<le> (off + t0) div nanos"
    and clock: "clock off t' unix" and later: "t \<le> t'"
  shows "verify_access x unix (mint_access x mint um f user) svc \<noteq> Ret (Some v)"
proof (cases "decode_access x svc unix (mint_access x mint um f user)")
  case None
  then show ?thesis by (simp add: verify_access_def)
next
  case (Some p)
  obtain g w where p: "p = (g, w)" by (cases p)
  from decode_mint_family [OF x key Some [unfolded p]]
  have g: "g = f" and "unix < um + of_nat a" by (simp_all add: ttl)
  then have "unat unix < unat um + a" using fits by (simp add: word_less_nat_alt unat_plus_secs)
  with minted clock have "(off + t') div nanos < (off + t0) div nanos + a" by (simp add: clock_def)
  also have "\<dots> = (off + t0 + from_secs a) div nanos" by (simp add: from_secs_def nanos_def)
  finally have "t' < t0 + from_secs a"
    by (metis add.assoc add_less_cancel_left div_le_mono leD leI)
  with dead later have "hm_get (st_revoked (ts_state svc)) f \<noteq> None" by (auto simp: dead_def)
  with Some p g show ?thesis by (simp add: verify_access_def)
qed

section \<open>What sweeping may forget\<close>

text \<open>\<open>thinned now s s'\<close>: \<open>s'\<close> has lost nothing that is still valid at \<open>now\<close>, and has gained nothing.\<close>

definition thinned :: "instant \<Rightarrow> state \<Rightarrow> state \<Rightarrow> bool" where
  "thinned now s s' \<longleftrightarrow> maps_ok s' \<and>
     hm_get (st_refresh s') \<subseteq>\<^sub>m hm_get (st_refresh s) \<and>
     hm_get (st_spent s') \<subseteq>\<^sub>m hm_get (st_spent s) \<and>
     hm_get (st_revoked s') \<subseteq>\<^sub>m hm_get (st_revoked s) \<and>
     (\<forall>h r. hm_get (st_refresh s) h = Some r \<and> now < rr_expires r \<and> now < rr_family_deadline r
        \<longrightarrow> hm_get (st_refresh s') h = Some r) \<and>
     (\<forall>h r. hm_get (st_spent s) h = Some r \<and> now < sp_expires r \<longrightarrow> hm_get (st_spent s') h = Some r) \<and>
     (\<forall>f t. hm_get (st_revoked s) f = Some t \<and> now < t \<longrightarrow> hm_get (st_revoked s') f = Some t)"

lemma map_leI: "(\<And>k v. m k = Some v \<Longrightarrow> m' k = Some v) \<Longrightarrow> m \<subseteq>\<^sub>m m'"
  by (auto simp: map_le_def dom_def)

lemma map_leD: "m \<subseteq>\<^sub>m m' \<Longrightarrow> m k = Some v \<Longrightarrow> m' k = Some v"
  by (auto simp: map_le_def dom_def)

lemma thinned_refl: "maps_ok s \<Longrightarrow> thinned now s s"
  by (simp add: thinned_def)

lemma thinned_trans: "thinned now s s' \<Longrightarrow> thinned now s' s'' \<Longrightarrow> thinned now s s''"
  by (auto simp: thinned_def intro: map_le_trans)

lemma thinned_force_sweep:
  assumes "maps_ok s" and "force_sweep imax now s = Some s'"
  shows "thinned now s s'"
  using assms(1) maps_ok_sweep [OF assms]
  by (auto simp: thinned_def maps_ok_def hm_laws force_sweepD [OF assms(2)] intro!: map_leI)

lemma thinned_sweep: "maps_ok s \<Longrightarrow> sweep imax now s = Some s' \<Longrightarrow> thinned now s s'"
  by (auto simp: sweep_def thinned_refl thinned_force_sweep split: if_splits)

lemma thinned_make_room: "maps_ok s \<Longrightarrow> make_room imax now s = Ret (r, s') \<Longrightarrow> thinned now s s'"
  by (auto simp: make_room_def thinned_refl thinned_force_sweep split: if_splits option.splits)

text \<open>The store \<open>refresh\<close> has before it looks the token up, and whether there is room.\<close>

definition prepare :: "env \<Rightarrow> state \<Rightarrow> ((token_error + unit) \<times> state) outcome" where
  "prepare e s = (case sweep (env_imax e) (env_now e) s of
     None \<Rightarrow> Panic | Some s1 \<Rightarrow> make_room (env_imax e) (env_now e) s1)"

lemma refresh_body_prepare:
  "refresh_body x svc e token ue s = (case prepare e s of
     Panic \<Rightarrow> Panic
   | Ret (Inl err, s1) \<Rightarrow> Ret (Inl err, s1)
   | Ret (Inr _, s1) \<Rightarrow> consume x svc e (hash_token x token) ue s1)"
  by (simp add: refresh_body_def prepare_def Let_def split: option.split)

lemma thinned_prepare: "maps_ok s \<Longrightarrow> prepare e s = Ret (r, s') \<Longrightarrow> thinned (env_now e) s s'"
  by (auto simp: prepare_def split: option.splits
      intro: thinned_trans [OF thinned_sweep thinned_make_room] dest: thinned_sweep thinned_def [THEN iffD1])

lemma prepare_room: "prepare e s = Ret (Inr u, s') \<Longrightarrow> records s' < MAX_RECORDS"
  by (auto simp: prepare_def make_room_def split: option.splits if_splits)

lemma refresh_ok:
  assumes "refresh x e token ue svc = (Ret (Inr (u, it)), svc')" and "maps_ok (ts_state svc)"
  obtains r s1 new where "hm_get (st_refresh (ts_state svc)) (hash_token x token) = Some r"
    "env_now e < rr_expires r" "env_now e < rr_family_deadline r" "ue (rr_user r)" "u = rr_user r"
    "thinned (env_now e) (ts_state svc) s1" "hm_get (st_refresh s1) (hash_token x token) = Some r"
    "\<not> ts_poisoned svc" "env_token e \<noteq> None" "new = b64_url_encode x (the (env_token e))"
    "svc' = svc\<lparr>ts_state := add_refresh (hash_token x new)
       (new_record svc e (rr_family r) (rr_user r) (rr_family_deadline r))
       (retire (hash_token x token) r s1)\<rparr>"
    "it = \<lparr>it_access_token = mint_access x svc (env_unix e) (rr_family r) (rr_user r),
      it_access_expires_in = as_secs (ts_access_ttl svc), it_refresh_token = new,
      it_refresh_expires_in = as_secs (rr_expires
        (new_record svc e (rr_family r) (rr_user r) (rr_family_deadline r)) - env_now e)\<rparr>"
proof -
  let ?h = "hash_token x token"
  obtain s' where body: "refresh_body x svc e token ue (ts_state svc) = Ret (Inr (u, it), s')"
    and alive: "\<not> ts_poisoned svc" and svc': "svc' = svc\<lparr>ts_state := s'\<rparr>"
    using assms(1) unfolding refresh_def by (cases rule: with_state_cases) auto
  obtain s1 where s1: "prepare e (ts_state svc) = Ret (Inr (), s1)"
    and consume: "consume x svc e ?h ue s1 = Ret (Inr (u, it), s')"
    using body by (auto simp: refresh_body_prepare split: outcome.splits sum.splits prod.splits)
  have thin: "thinned (env_now e) (ts_state svc) s1" using thinned_prepare [OF assms(2) s1] .
  obtain r where r: "hm_get (st_refresh s1) ?h = Some r"
    and live: "env_now e < rr_expires r" "env_now e < rr_family_deadline r" "ue (rr_user r)"
    and u: "u = rr_user r"
    and issue: "issue x svc e (retire ?h r s1) (rr_family r) (rr_user r) (env_now e)
      (rr_family_deadline r) = Ret (Inr it, s')"
    using consume
    by (auto simp: consume_def retire_def Let_def split: option.splits if_splits outcome.splits sum.splits prod.splits)
  have "hm_get (st_refresh (ts_state svc)) ?h = Some r"
    using thin r by (auto simp: thinned_def dest: map_leD)
  with issue r live u thin alive svc' show ?thesis
    by (cases rule: issue_cases) (auto intro: that)
qed

section \<open>A spent token is remembered\<close>

text \<open>
  The hash \<open>h\<close> is not live, and until \<open>sp\<close> expires it is remembered as spent. This is kept as long as
  no generated token has the same hash.
\<close>

definition remembered :: "hash \<Rightarrow> spent_record \<Rightarrow> instant \<Rightarrow> state \<Rightarrow> bool" where
  "remembered h sp t s \<longleftrightarrow> maps_ok s \<and> hm_get (st_refresh s) h = None \<and>
     (t < sp_expires sp \<longrightarrow> hm_get (st_spent s) h = Some sp)"

interpretation memory: store_invariant "remembered h sp" "\<lambda>_. True" "\<lambda>g. g \<noteq> h" ttl for h sp ttl
proof (unfold_locales, goal_cases)
  case (2 t s imax s')
  then show ?case
    using maps_ok_sweep [of s imax t s']
    by (auto simp: remembered_def maps_ok_def hm_laws force_sweepD(1,2) [OF 2(2)])
next
  case (3 t s imax g s')
  then show ?case
    using maps_ok_revoke [of s imax g t ttl s']
    by (auto simp: remembered_def maps_ok_def hm_laws revoke_familyD(1,2) [OF 3(2)])
qed (auto simp: remembered_def store_simps)

lemma retire_remembered:
  assumes "maps_ok s" and "h' \<noteq> h"
  shows "remembered h \<lparr>sp_family = rr_family r, sp_user = rr_user r, sp_expires = rr_expires r\<rparr> t
    (add_refresh h' r' (retire h r s))"
  using assms by (simp add: remembered_def store_simps)

end
