(* ===== verification/AuthProps.thy ===== *)
theory AuthProps
  imports Auth TokenProps
begin

text \<open>
  The properties of \<open>src/auth.rs\<close>: what the configuration holds, through every reload; exactly which
  requests are authorized, and for whom; how a request is refused; what removing a user means.
\<close>

section \<open>Credentials\<close>

text \<open>A usable credential: a user without a colon, a colon and a password, neither empty.\<close>

definition valid_credential :: "string \<Rightarrow> bool" where
  "valid_credential c \<longleftrightarrow> (\<exists>u p. c = u @ '':'' @ p \<and> u \<noteq> [] \<and> p \<noteq> [] \<and> CHR '':'' \<notin> set u)"

lemma valid_credential_split:
  "valid_credential c \<longleftrightarrow> (\<exists>u p. split_once '':'' c = Some (u, p) \<and> u \<noteq> [] \<and> p \<noteq> [])"
  by (auto simp: valid_credential_def split_once_char_iff)

lemma validate_credential_iff: "validate_basic_auth_credential c = Inr () \<longleftrightarrow> valid_credential c"
  unfolding valid_credential_split
  by (auto simp: validate_basic_auth_credential_def split: option.splits)

lemma validate_credential_sum:
  "(case validate_basic_auth_credential c of Inl e \<Rightarrow> Inl (f e) | Inr _ \<Rightarrow> Inr (g c)) = Inr d \<longleftrightarrow>
     valid_credential c \<and> d = g c"
  by (auto simp: validate_credential_iff [symmetric] split: sum.splits)

lemma encode_credentials_iff:
  "encode_credentials x cs = Inr es \<longleftrightarrow> (\<forall>c \<in> set cs. valid_credential c) \<and> es = map (encode_credential x) cs"
  unfolding encode_credentials_def by (rule collect_results_checked) (rule validate_credential_sum)

lemma load_auth_file_valid:
  assumes "load_auth_file x fs path = Inr es"
  obtains cs where "es = map (encode_credential x) cs" "\<forall>c \<in> set cs. valid_credential c"
  using assms by (auto simp: load_auth_file_def encode_credentials_iff split: option.splits sum.splits)

lemma username_encoded:
  assumes "ext_ok x" and "valid_credential c"
  shows "basic_auth_username x (encode_credential x c) = Some u \<longleftrightarrow>
    (\<exists>p. c = u @ '':'' @ p \<and> CHR '':'' \<notin> set u) \<and> utf8_ok (as_bytes c)"
proof -
  from assms(2) obtain v p where c: "c = v @ CHR '':'' # p" "v \<noteq> []" "CHR '':'' \<notin> set v"
    by (auto simp: valid_credential_def)
  then have "split_once '':'' c = Some (v, p)" by (simp add: split_once_char_notin)
  then have "basic_auth_username x (encode_credential x c) = (if utf8_ok (as_bytes c) then Some v else None)"
    using assms(1) c(2)
    by (auto simp: basic_auth_username_def encode_credential_def strip_prefix_def ext_ok_def from_utf8_def)
  moreover have "(\<exists>p. c = u @ CHR '':'' # p \<and> CHR '':'' \<notin> set u) \<longleftrightarrow> u = v"
    using \<open>split_once '':'' c = Some (v, p)\<close> split_once_char_iff [of "CHR '':''" c] c
    by (metis option.inject prod.inject)
  ultimately show ?thesis by auto
qed

text \<open>The configuration holds exactly these credentials.\<close>

definition holds_credentials :: "ext \<Rightarrow> auth_config \<Rightarrow> string list \<Rightarrow> bool" where
  "holds_credentials x ac cs \<longleftrightarrow> ac_expected_authorizations ac = map (encode_credential x) cs \<and>
     (\<forall>c \<in> set cs. valid_credential c)"

text \<open>User \<open>u\<close> has password \<open>p\<close> among the credentials (text is UTF-8 in the program).\<close>

definition credential_of :: "string list \<Rightarrow> string \<Rightarrow> string \<Rightarrow> bool" where
  "credential_of cs u p \<longleftrightarrow> u @ '':'' @ p \<in> set cs \<and> CHR '':'' \<notin> set u \<and> utf8_ok (as_bytes (u @ '':'' @ p))"

lemma matched_iff:
  "foldl (\<lambda>m e. m \<or> P e) b es \<longleftrightarrow> b \<or> (\<exists>e \<in> set es. P e)"
  by (induction es arbitrary: b) auto

lemma basic_user_iff:
  assumes "ext_ok x" and "holds_credentials x ac cs"
  shows "basic_user x ac h = Some u \<longleftrightarrow>
    (\<exists>p. credential_of cs u p \<and> h = encode_credential x (u @ '':'' @ p))"
proof -
  have ct: "ct_eq x a b \<longleftrightarrow> a = b" for a b using assms(1) by (simp add: ext_ok_def)
  have "basic_user x ac h = Some u \<longleftrightarrow>
      (\<exists>c \<in> set cs. h = encode_credential x c \<and> basic_auth_username x (encode_credential x c) = Some u)"
    using assms(2) by (auto simp: basic_user_def matched_iff ct holds_credentials_def Let_def)
  also have "\<dots> \<longleftrightarrow> (\<exists>p. credential_of cs u p \<and> h = encode_credential x (u @ '':'' @ p))"
    using assms username_encoded [OF assms(1)] by (auto simp: holds_credentials_def credential_of_def)
  finally show ?thesis .
qed

lemma has_user_iff:
  assumes "ext_ok x" and "holds_credentials x ac cs"
  shows "has_user x ac u \<longleftrightarrow> (\<exists>p. credential_of cs u p)"
  using assms username_encoded [OF assms(1)]
  by (auto simp: has_user_def list_ex_iff holds_credentials_def credential_of_def)

lemma bearer_not_basic: "bearer_token (encode_credential x c) = None"
proof -
  have "split_once '' '' (''Basic'' @ CHR '' '' # b64_std_encode x (as_bytes c)) =
      Some (''Basic'', b64_std_encode x (as_bytes c))"
    by (rule split_once_char_notin) simp
  moreover have "\<not> eq_ignore_ascii_case ''Basic'' ''bearer''" by code_simp
  ultimately show ?thesis by (simp add: bearer_token_def encode_credential_def)
qed

section \<open>Authorization\<close>

lemma authorize_request_iff:
  assumes "ext_ok x" and "holds_credentials x ac cs"
  shows "authorize_request x unix_now req (Some ac) = Ret (Inr u) \<longleftrightarrow>
    (if allows_anonymous_target ac (rq_path req) then u = ''anonymous''
     else (\<exists>h. header_str x req ''authorization'' = Some h \<and>
       ((\<exists>p. credential_of cs u p \<and> h = encode_credential x (u @ '':'' @ p)) \<or>
        (\<exists>token svc p. bearer_token h = Some token \<and> ac_tokens ac = Some svc \<and>
           verify_access x unix_now token svc = Ret (Some u) \<and> credential_of cs u p))))"
proof (cases "allows_anonymous_target ac (rq_path req)")
  case True
  then show ?thesis by (auto simp: authorize_request_def ANONYMOUS_AUTH_USER_def)
next
  case False
  show ?thesis
  proof (cases "header_str x req ''authorization''")
    case None
    with False show ?thesis by (auto simp: authorize_request_def split: outcome.splits)
  next
    case (Some h)
    show ?thesis
    proof (cases "bearer_token h")
      case None
      then have "authorize_request x unix_now req (Some ac) = Ret (Inr u) \<longleftrightarrow> basic_user x ac h = Some u"
        using False Some by (auto simp: authorize_request_def split: outcome.splits option.splits)
      with None False Some show ?thesis by (simp add: basic_user_iff [OF assms])
    next
      case (Some token)
      moreover have "h \<noteq> encode_credential x c" for c using Some bearer_not_basic [of x c] by auto
      ultimately show ?thesis
        using False \<open>header_str x req ''authorization'' = Some h\<close>
        by (auto simp: authorize_request_def verify_access_token_def has_user_iff [OF assms]
            split: outcome.splits option.splits if_splits)
    qed
  qed
qed

text \<open>
  (C3) Exactly who is let in. With authentication configured, a request is authorized as user \<open>u\<close> in
  three ways only: its path names an anonymous target, and \<open>u\<close> is \<open>anonymous\<close>; or its \<open>Authorization\<close>
  header is the Basic encoding of one of the configured credentials of \<open>u\<close>; or that header carries a
  bearer token that the token service accepts for \<open>u\<close>, and \<open>u\<close> still has a configured credential.
\<close>

theorem authorize_request_exact:
  assumes "ext_ok x" and "holds_credentials x ac cs"
  shows "authorize_request x unix_now req (Some ac) = Ret (Inr u) \<longleftrightarrow>
    (if allows_anonymous_target ac (rq_path req) then u = ''anonymous''
     else (\<exists>h. header_str x req ''authorization'' = Some h \<and>
       ((\<exists>p. credential_of cs u p \<and> h = encode_credential x (u @ '':'' @ p)) \<or>
        (\<exists>token svc p. bearer_token h = Some token \<and> ac_tokens ac = Some svc \<and>
           verify_access x unix_now token svc = Ret (Some u) \<and> credential_of cs u p))))"
  using assms by (rule authorize_request_iff)

lemma visible_challenges: "visible BASIC_CHALLENGE" "visible BEARER_CHALLENGE" "visible BEARER_INVALID_CHALLENGE"
  by code_simp+

lemma unauthorized_response_eq:
  assumes "ext_ok x" and "bearer \<in> {None, Some BEARER_CHALLENGE, Some BEARER_INVALID_CHALLENGE}"
  shows "unauthorized_response x basic bearer = Ret \<lparr>rs_status = 401,
    rs_headers = map (HdrAppend ''www-authenticate'')
      ((if basic then [BASIC_CHALLENGE] else []) @ (case bearer of None \<Rightarrow> [] | Some b \<Rightarrow> [b])),
    rs_body = Some ''authentication required''\<rparr>"
  using assms visible_challenges by (auto simp: unauthorized_response_def ext_ok_def)

lemma authorize_request_returns:
  assumes "ext_ok x" and "ac_tokens ac = Some svc" and "\<not> ts_poisoned svc"
  shows "(\<exists>u. authorize_request x unix_now req (Some ac) = Ret (Inr u)) \<or>
    authorize_request x unix_now req (Some ac) = Ret (Inl \<lparr>rs_status = 401,
      rs_headers = [HdrAppend ''www-authenticate'' BASIC_CHALLENGE, HdrAppend ''www-authenticate''
        (case header_str x req ''authorization'' of
           None \<Rightarrow> BEARER_CHALLENGE
         | Some h \<Rightarrow> if bearer_token h = None then BEARER_CHALLENGE else BEARER_INVALID_CHALLENGE)],
      rs_body = Some ''authentication required''\<rparr>)"
proof -
  have "\<exists>r. verify_access_token x unix_now ac token = Ret r" for token
    using assms by (auto simp: verify_access_token_def verify_access_def split: option.splits)
  then have "verify_access_token x unix_now ac token \<noteq> Panic" for token by (metis outcome.distinct(1))
  then show ?thesis
    using assms
    by (auto simp: authorize_request_def unauthorized_response_eq split: option.splits outcome.splits)
qed

text \<open>
  A request is always either authorized or refused with a proper \<open>401\<close>: while the token service is
  not poisoned, authorization returns, and a refusal offers the Basic challenge and then the Bearer
  challenge, which says \<open>invalid_token\<close> exactly when a bearer token was presented.
\<close>

theorem authorize_request_total:
  assumes "ext_ok x" and "ac_tokens ac = Some svc" and "\<not> ts_poisoned svc"
  shows "(\<exists>u. authorize_request x unix_now req (Some ac) = Ret (Inr u)) \<or>
    authorize_request x unix_now req (Some ac) = Ret (Inl \<lparr>rs_status = 401,
      rs_headers = [HdrAppend ''www-authenticate'' BASIC_CHALLENGE, HdrAppend ''www-authenticate''
        (case header_str x req ''authorization'' of
           None \<Rightarrow> BEARER_CHALLENGE
         | Some h \<Rightarrow> if bearer_token h = None then BEARER_CHALLENGE else BEARER_INVALID_CHALLENGE)],
      rs_body = Some ''authentication required''\<rparr>)"
  using assms by (rule authorize_request_returns)

text \<open>A configuration with one credential and one anonymous target, and a request with a header.\<close>

definition demo_auth :: auth_config where
  "demo_auth = \<lparr>ac_expected_authorizations = [encode_credential demo_ext ''bob:pw''],
     ac_fixed_authorizations = [encode_credential demo_ext ''bob:pw''], ac_basic_auth_file = Some ''f'',
     ac_anonymous_targets = [''localhost:22''], ac_fixed_anonymous_targets = [''localhost:22''],
     ac_anonymous_target_file = None,
     ac_tokens = Some \<lparr>ts_key = [7, 8, 9], ts_access_ttl = 600, ts_refresh_ttl = 3600,
       ts_state = \<lparr>st_refresh = [], st_spent = [], st_revoked = [], st_next_sweep = 60\<rparr>, ts_poisoned = False\<rparr>\<rparr>"

definition demo_request :: "string \<Rightarrow> string \<Rightarrow> string \<Rightarrow> request" where
  "demo_request meth path authorization = \<lparr>rq_method = meth, rq_path = path, rq_header =
     (\<lambda>name. if name = ''authorization'' then Some (as_bytes authorization) else None)\<rparr>"

lemma demo_holds: "holds_credentials demo_ext demo_auth [''bob:pw'']"
proof -
  have "valid_credential ''bob:pw''" unfolding validate_credential_iff [symmetric] by code_simp
  then show ?thesis by (simp add: holds_credentials_def demo_auth_def)
qed

lemma demo_basic_header:
  "header_str demo_ext (demo_request ''GET'' ''/tcp:web:80'' (encode_credential demo_ext ''bob:pw'')) ''authorization''
     = Some (encode_credential demo_ext ''bob:pw'')"
  by (simp add: header_str_def demo_request_def demo_ext_def)

theorem authorize_request_exact_witness:
  "authorize_request demo_ext 0 (demo_request ''GET'' ''/tcp:web:80'' (encode_credential demo_ext ''bob:pw''))
     (Some demo_auth) = Ret (Inr ''bob'')"
proof -
  have not_anon: "\<not> allows_anonymous_target demo_auth
      (rq_path (demo_request ''GET'' ''/tcp:web:80'' (encode_credential demo_ext ''bob:pw'')))"
    by code_simp
  have "credential_of [''bob:pw''] ''bob'' ''pw''"
    unfolding credential_of_def by code_simp
  then have "\<exists>p. credential_of [''bob:pw''] ''bob'' p \<and>
      encode_credential demo_ext ''bob:pw'' = encode_credential demo_ext (''bob'' @ '':'' @ p)"
    by (intro exI [of _ "''pw''"]) simp
  with not_anon show ?thesis
    using authorize_request_exact [OF demo_ext_ok demo_holds, of 0
        "demo_request ''GET'' ''/tcp:web:80'' (encode_credential demo_ext ''bob:pw'')" "''bob''"]
    unfolding demo_basic_header by simp
qed

theorem authorize_request_total_witness:
  "\<exists>r. authorize_request demo_ext 0 (demo_request ''GET'' ''/'' ''Bearer xyz'') (Some demo_auth) = Ret r"
  using authorize_request_total [OF demo_ext_ok, of demo_auth, OF _ , of _ 0 "demo_request ''GET'' ''/'' ''Bearer xyz''"]
  by (auto simp: demo_auth_def)

section \<open>The configuration through reloads\<close>

text \<open>
  The changes of a running configuration: a reload of either file, from a file system in any state, and
  an operation on the token service.
\<close>

inductive auth_step :: "ext \<Rightarrow> auth_config \<Rightarrow> auth_config \<Rightarrow> bool" for x :: ext where
  step_credentials: "ac_basic_auth_file ac = Some path \<Longrightarrow>
     auth_step x ac (snd (reload_auth_file x fs path ac))"
| step_targets: "ac_anonymous_target_file ac = Some path \<Longrightarrow>
     auth_step x ac (snd (reload_anonymous_target_file fs path ac))"
| step_tokens: "ac_tokens ac = Some svc \<Longrightarrow> tok_step x (\<lambda>_. True) (\<lambda>_. True) (svc, t) (svc', t') \<Longrightarrow>
     auth_step x ac (ac\<lparr>ac_tokens := Some svc'\<rparr>)"

text \<open>
  The configuration holds the fixed credentials and those of the last good file, never none; the
  anonymous targets are the printed addresses of well-formed targets; and there is a token service.
\<close>

definition auth_inv :: "ext \<Rightarrow> string list \<Rightarrow> auth_config \<Rightarrow> bool" where
  "auth_inv x fixed ac \<longleftrightarrow>
     ac_fixed_authorizations ac = map (encode_credential x) fixed \<and>
     (\<exists>file. holds_credentials x ac (fixed @ file) \<and> fixed @ file \<noteq> []) \<and>
     (\<forall>a \<in> set (ac_anonymous_targets ac @ ac_fixed_anonymous_targets ac). \<exists>t. a = addr t \<and> host_ok (t_host t)) \<and>
     set (ac_fixed_anonymous_targets ac) \<subseteq> set (ac_anonymous_targets ac) \<and>
     ac_tokens ac \<noteq> None"

lemma parse_target_addr_iff:
  "parse_target_addr s = Inr t \<longleftrightarrow> t_protocol t = Tcp \<and> parse_host_port s = Inr (t_host t, t_port t)"
  by (cases t) (auto simp: parse_target_addr_def split: sum.splits)

lemma parse_target_addr_host_ok: "parse_target_addr s = Inr t \<Longrightarrow> host_ok (t_host t)"
  by (auto simp: parse_target_addr_iff parse_host_port_Inr_iff)

definition addresses :: "string list \<Rightarrow> bool" where
  "addresses as \<longleftrightarrow> (\<forall>a \<in> set as. \<exists>t. a = addr t \<and> host_ok (t_host t))"

lemma collect_addresses:
  assumes "collect_results (map (\<lambda>p. case parse_target_addr (g p) of Inl e \<Rightarrow> Inl (f p e) | Inr t \<Rightarrow> Inr (addr t)) ps) = Inr as"
  shows "addresses as"
  using assms
proof (induction ps arbitrary: as)
  case (Cons p ps)
  then show ?case
    by (cases "parse_target_addr (g p)")
      (auto simp: addresses_def dest!: parse_target_addr_host_ok split: sum.splits)
qed (simp add: addresses_def)

lemma load_targets_addresses: "load_anonymous_target_file fs path = Inr as \<Longrightarrow> addresses as"
  unfolding load_anonymous_target_file_def split_beta
  by (auto split: option.splits intro: collect_addresses [where g = snd and f = "\<lambda>p. TargetFileLine path (fst p + 1)"])

lemma normalize_addresses: "normalize_anonymous_targets ts = Inr as \<Longrightarrow> addresses as"
  unfolding normalize_anonymous_targets_def by (rule collect_addresses [where g = "\<lambda>t. t" and f = BadAnonymousTarget])

lemma auth_step_inv:
  assumes "auth_step x ac ac'" and "auth_inv x fixed ac"
  shows "auth_inv x fixed ac'"
  using assms
proof (cases rule: auth_step.cases)
  case (step_credentials path fs)
  show ?thesis
  proof (cases "load_auth_file x fs path")
    case (Inl e)
    with assms step_credentials show ?thesis by (simp add: reload_auth_file_def)
  next
    case (Inr es)
    then obtain cs where "es = map (encode_credential x) cs" "\<forall>c \<in> set cs. valid_credential c"
      by (rule load_auth_file_valid)
    with Inr assms(2) step_credentials show ?thesis
      by (cases "ac' = ac")
        (auto simp: reload_auth_file_def auth_inv_def holds_credentials_def Let_def
          intro!: exI [of _ cs] split: if_splits)
  qed
next
  case (step_targets path fs)
  then show ?thesis
    using assms(2)
    by (auto simp: reload_anonymous_target_file_def auth_inv_def holds_credentials_def Let_def addresses_def
        dest!: load_targets_addresses split: sum.splits)
qed (auto simp: auth_inv_def holds_credentials_def)

lemma build_auth_config_inv:
  assumes "build_auth_config x fs rnd imax now a = Ret (Inr (Some ac))"
  shows "auth_inv x (ar_basic_auth a) ac \<and> (\<forall>c \<in> set (ar_basic_auth a). valid_credential c)"
proof -
  obtain fixed from_file targets file_targets tokens where
    fixed: "encode_credentials x (ar_basic_auth a) = Inr fixed"
    and file_ok: "load_optional (load_auth_file x fs) (ar_basic_auth_file a) = Inr from_file"
    and some: "fixed @ from_file \<noteq> []"
    and targets: "normalize_anonymous_targets (ar_anonymous_target a) = Inr targets"
    and file_targets: "load_optional (load_anonymous_target_file fs) (ar_anonymous_target_file a) = Inr file_targets"
    and ac: "ac = \<lparr>ac_expected_authorizations = fixed @ from_file, ac_fixed_authorizations = fixed,
      ac_basic_auth_file = ar_basic_auth_file a, ac_anonymous_targets = targets @ file_targets,
      ac_fixed_anonymous_targets = targets, ac_anonymous_target_file = ar_anonymous_target_file a,
      ac_tokens = Some tokens\<rparr>"
    using assms by (auto simp: build_auth_config_def Let_def split: if_splits sum.splits outcome.splits)
  obtain cs where cs: "from_file = map (encode_credential x) cs" "\<forall>c \<in> set cs. valid_credential c"
    using file_ok by (cases "ar_basic_auth_file a") (auto simp: load_optional_def elim: load_auth_file_valid)
  have "addresses file_targets"
    using file_targets load_targets_addresses
    by (auto simp: load_optional_def addresses_def split: option.splits)
  with fixed some targets cs show ?thesis
    by (auto simp: ac auth_inv_def holds_credentials_def encode_credentials_iff addresses_def
        dest!: normalize_addresses intro!: exI [of _ cs])
qed

text \<open>
  The configuration stays usable through every reload. Once it has been built, whatever the two files
  turn into while the router runs and whatever the token service does, it holds the credentials of the
  command line and possibly more, all well formed and never none; its anonymous targets are printed
  addresses of well-formed targets, those of the command line among them; and the token service is there.
\<close>

theorem auth_config_invariant:
  assumes "build_auth_config x fs rnd imax now a = Ret (Inr (Some ac))" and "(auth_step x)\<^sup>*\<^sup>* ac ac'"
  shows "auth_inv x (ar_basic_auth a) ac'"
  using assms(2) build_auth_config_inv [OF assms(1)]
  by (induction rule: rtranclp_induct) (auto intro: auth_step_inv)

definition demo_auth_args :: args where
  "demo_auth_args = demo_args\<lparr>ar_basic_auth_file := Some ''f''\<rparr>"

definition demo_file :: filesystem where
  "demo_file path = (if path = ''f'' then Some (as_bytes (''# users'' @ [CHR 0x0A] @ ''eve:pw2'')) else None)"

lemma demo_build:
  "\<exists>ac. build_auth_config demo_ext demo_file (Some [1]) (from_secs 1000) 0 demo_auth_args = Ret (Inr (Some ac))
     \<and> ac_basic_auth_file ac = Some ''f''"
proof -
  have "case build_auth_config demo_ext demo_file (Some [1]) (from_secs 1000) 0 demo_auth_args of
      Ret (Inr (Some ac)) \<Rightarrow> ac_basic_auth_file ac = Some ''f'' | _ \<Rightarrow> False"
    by code_simp
  then show ?thesis by (auto split: outcome.splits sum.splits option.splits)
qed

theorem auth_config_invariant_witness:
  "\<exists>ac. build_auth_config demo_ext demo_file (Some [1]) (from_secs 1000) 0 demo_auth_args = Ret (Inr (Some ac)) \<and>
     auth_inv demo_ext [''bob:pw''] (snd (reload_auth_file demo_ext (\<lambda>_. None) ''f'' ac))"
proof -
  obtain ac where ac: "build_auth_config demo_ext demo_file (Some [1]) (from_secs 1000) 0 demo_auth_args = Ret (Inr (Some ac))"
    "ac_basic_auth_file ac = Some ''f''" using demo_build by blast
  have "ar_basic_auth demo_auth_args = [''bob:pw'']" by (simp add: demo_auth_args_def demo_args_def)
  moreover have "(auth_step demo_ext)\<^sup>*\<^sup>* ac (snd (reload_auth_file demo_ext (\<lambda>_. None) ''f'' ac))"
    using step_credentials [OF ac(2)] by blast
  ultimately show ?thesis using auth_config_invariant [OF ac(1)] ac(1) by metis
qed

text \<open>
  A user removed from the credentials is locked out at once. When no configured credential is for user
  \<open>u\<close>, no request whose target is not anonymous is authorized as \<open>u\<close>, however good its access token, and
  no refresh token of \<open>u\<close> yields a new pair.
\<close>

theorem removed_user_locked_out:
  assumes "ext_ok x" and "holds_credentials x ac cs" and "\<forall>p. u @ '':'' @ p \<notin> set cs"
    and "maps_ok (ts_state svc)"
  shows "(allows_anonymous_target ac (rq_path req) \<or>
      authorize_request x unix_now req (Some ac) \<noteq> Ret (Inr u)) \<and>
    fst (refresh x e token (has_user x ac) svc) \<noteq> Ret (Inr (u, it))"
proof
  have no_user: "\<not> has_user x ac u" and no_cred: "\<not> credential_of cs u p" for p
    using assms by (auto simp: has_user_iff [OF assms(1,2)] credential_of_def)
  have "basic_user x ac h \<noteq> Some u" for h
    using no_cred by (simp add: basic_user_iff [OF assms(1,2)])
  moreover have "verify_access_token x unix_now ac token \<noteq> Ret (Some u)" for token
    using no_user by (auto simp: verify_access_token_def split: option.splits outcome.splits)
  ultimately show "allows_anonymous_target ac (rq_path req) \<or>
      authorize_request x unix_now req (Some ac) \<noteq> Ret (Inr u)"
    by (auto simp: authorize_request_def split: option.splits outcome.splits)
  show "fst (refresh x e token (has_user x ac) svc) \<noteq> Ret (Inr (u, it))"
  proof
    assume "fst (refresh x e token (has_user x ac) svc) = Ret (Inr (u, it))"
    then have "refresh x e token (has_user x ac) svc =
        (Ret (Inr (u, it)), snd (refresh x e token (has_user x ac) svc))"
      by (simp add: prod_eq_iff)
    then show False using assms(4) no_user by (cases rule: refresh_ok) auto
  qed
qed

lemma addr_inject:
  assumes "host_ok (t_host a)" and "host_ok (t_host b)"
  shows "addr a = addr b \<longleftrightarrow> t_host a = t_host b \<and> t_port a = t_port b"
proof
  have parse: "host_ok (t_host t) \<Longrightarrow> parse_host_port (addr t) = Inr (t_host t, t_port t)" for t :: target
    by (auto simp: parse_host_port_Inr_iff addr_def)
  assume "addr a = addr b"
  then show "t_host a = t_host b \<and> t_port a = t_port b"
    using parse [OF assms(1)] parse [OF assms(2)] by simp
qed (simp add: addr_def)

text \<open>
  (C31) Which targets are open to everybody. Without a target file, a request path is anonymous exactly when
  it names, for either protocol and with the port written in any form, the host and the port of one
  of the configured targets.
\<close>

theorem anonymous_targets_exact:
  assumes "build_auth_config x fs rnd imax now a = Ret (Inr (Some ac))" and "ar_anonymous_target_file a = None"
  shows "allows_anonymous_target ac path \<longleftrightarrow>
    (\<exists>t s tg. parse_target path = Inr t \<and> s \<in> set (ar_anonymous_target a) \<and>
       parse_target_addr s = Inr tg \<and> t_host tg = t_host t \<and> t_port tg = t_port t)"
proof -
  let ?ts = "ar_anonymous_target a"
  have "normalize_anonymous_targets ?ts = Inr (ac_anonymous_targets ac)"
    using assms
    by (auto simp: build_auth_config_def load_optional_def Let_def split: if_splits sum.splits outcome.splits)
  then have anon: "ac_anonymous_targets ac = map (\<lambda>s. addr (projr (parse_target_addr s))) ?ts"
    and ok: "\<forall>s \<in> set ?ts. \<exists>tg. parse_target_addr s = Inr tg"
    unfolding normalize_anonymous_targets_def
    by (subst (asm) collect_results_checked [where P = "\<lambda>s. \<exists>tg. parse_target_addr s = Inr tg"
          and g = "\<lambda>s. addr (projr (parse_target_addr s))"]; auto split: sum.splits)+
  have host: "parse_target path = Inr t \<Longrightarrow> host_ok (t_host t)" for t
    by (auto simp: parse_target_def parse_host_port_Inr_iff split: sum.splits)
  have "allows_anonymous_target ac path \<longleftrightarrow> (\<exists>t s tg. parse_target path = Inr t \<and> s \<in> set ?ts \<and>
      parse_target_addr s = Inr tg \<and> addr tg = addr t)"
    using ok by (force simp: allows_anonymous_target_def anon split: sum.splits)
  then show ?thesis using addr_inject [OF parse_target_addr_host_ok host] by blast
qed

theorem anonymous_targets_exact_witness:
  "\<exists>ac. build_auth_config demo_ext (\<lambda>_. None) (Some [1]) (from_secs 1000) 0 demo_args = Ret (Inr (Some ac)) \<and>
     allows_anonymous_target ac ''/udp:localhost:0022''"
proof -
  have "case build_auth_config demo_ext (\<lambda>_. None) (Some [1]) (from_secs 1000) 0 demo_args of
      Ret (Inr (Some ac)) \<Rightarrow> True | _ \<Rightarrow> False"
    by code_simp
  then obtain ac where ac: "build_auth_config demo_ext (\<lambda>_. None) (Some [1]) (from_secs 1000) 0 demo_args = Ret (Inr (Some ac))"
    by (auto split: outcome.splits sum.splits option.splits)
  have "ar_anonymous_target_file demo_args = None" "''localhost:22'' \<in> set (ar_anonymous_target demo_args)"
    by (simp_all add: demo_args_def)
  moreover have "parse_target ''/udp:localhost:0022'' = Inr \<lparr>t_protocol = Udp, t_host = ''localhost'', t_port = 22\<rparr>"
    "parse_target_addr ''localhost:22'' = Inr \<lparr>t_protocol = Tcp, t_host = ''localhost'', t_port = 22\<rparr>"
    by code_simp+
  ultimately have "allows_anonymous_target ac ''/udp:localhost:0022''"
    unfolding anonymous_targets_exact [OF ac \<open>ar_anonymous_target_file demo_args = None\<close>] by force
  with ac show ?thesis by blast
qed

theorem removed_user_locked_out_witness:
  "authorize_request demo_ext 0 (demo_request ''GET'' ''/tcp:web:80'' ''Bearer xyz'') (Some demo_auth) \<noteq> Ret (Inr ''eve'')"
proof -
  have "\<not> allows_anonymous_target demo_auth (rq_path (demo_request ''GET'' ''/tcp:web:80'' ''Bearer xyz''))"
    by code_simp
  moreover have "maps_ok (ts_state (the (ac_tokens demo_auth)))" by (simp add: demo_auth_def maps_ok_def)
  ultimately show ?thesis
    using removed_user_locked_out [OF demo_ext_ok demo_holds, of "''eve''"] by fastforce
qed

text \<open>
  Options that were accepted never fail later on their anonymous targets: after \<open>from_cli\<close> succeeded,
  building the configuration does not panic for a representable clock, and does not refuse a target of
  the command line.
\<close>

theorem accepted_targets_build:
  assumes "from_cli toml fs cli = Ret (Inr a)" and "now + SWEEP_INTERVAL \<le> imax"
  shows "\<exists>r. build_auth_config x fs2 rnd imax now a = Ret r \<and> (\<forall>t e. r \<noteq> Inl (BadAnonymousTarget t e))"
proof -
  have "\<forall>t \<in> set (ar_anonymous_target a). \<exists>tg. parse_target_addr t = Inr tg"
    using assms(1) by (auto simp: from_cli_iff valid_args_def)
  then have "\<exists>as. normalize_anonymous_targets (ar_anonymous_target a) = Inr as"
    unfolding normalize_anonymous_targets_def
    by (subst collect_results_checked [where P = "\<lambda>s. \<exists>tg. parse_target_addr s = Inr tg"
          and g = "\<lambda>s. addr (projr (parse_target_addr s))"]) (auto split: sum.splits)
  moreover have "encode_credentials x cs \<noteq> Inl (BadAnonymousTarget t e)" for cs t e
    unfolding encode_credentials_def by (auto dest!: collect_results_Inl split: sum.splits)
  moreover have "load_optional (load_auth_file x fs2) p \<noteq> Inl (BadAnonymousTarget t e)" for p t e
    using calculation(2)
    by (auto simp: load_optional_def load_auth_file_def dest!: collect_results_Inl split: sum.splits option.splits)
  moreover have "load_optional (load_anonymous_target_file fs2) p \<noteq> Inl (BadAnonymousTarget t e)" for p t e
    by (auto simp: load_optional_def load_anonymous_target_file_def dest!: collect_results_Inl split: sum.splits option.splits)
  moreover have "TokenService_from_args fs2 rnd imax now a \<noteq> Panic"
    using assms(2) by (auto simp: TokenService_from_args_def TokenService_new_def instant_add_def split: sum.splits)
  ultimately show ?thesis
    by (auto simp: build_auth_config_def Let_def split: sum.splits outcome.splits)
qed

theorem accepted_targets_build_witness:
  "\<exists>r. build_auth_config demo_ext (\<lambda>_. None) (Some [1]) (from_secs 1000) 0 demo_args = Ret r"
  using accepted_targets_build [OF demo_from_cli, of 0 "from_secs 1000" demo_ext "\<lambda>_. None" "Some [1]"]
  by (auto simp: SWEEP_INTERVAL_def from_secs_def)

section \<open>Reporting failed reloads\<close>

fun poll_ticks ::
  "(auth_config \<Rightarrow> (auth_error + bool) \<times> auth_config) list \<Rightarrow> auth_error option \<times> auth_config
     \<Rightarrow> reload_log list \<times> auth_error option \<times> auth_config" where
  "poll_ticks [] s = ([], s)"
| "poll_ticks (reload # reloads) s =
     (let (l, s) = poll_file_reload reload s; (ls, s) = poll_ticks reloads s in (l # ls, s))"

text \<open>
  A file that cannot be loaded is reported once, and the last good configuration stays in force: while
  the credentials file keeps failing with the same error, the first tick logs it, the others log
  nothing, and no tick changes the configuration.
\<close>

theorem failed_reload_reported_once:
  assumes "load_auth_file x fs path = Inl err" and "last_error \<noteq> Some err"
  shows "poll_ticks (replicate (Suc n) (reload_auth_file x fs path)) (last_error, ac) =
    (LogFailed err # replicate n LogNothing, Some err, ac)"
proof -
  have "poll_ticks (replicate n (reload_auth_file x fs path)) (Some err, ac) =
      (replicate n LogNothing, Some err, ac)"
    using assms(1) by (induction n) (simp_all add: poll_file_reload_def reload_auth_file_def)
  with assms show ?thesis by (simp add: poll_file_reload_def reload_auth_file_def)
qed

theorem failed_reload_reported_once_witness:
  "poll_ticks (replicate 3 (reload_auth_file demo_ext (\<lambda>_. None) ''f'')) (None, demo_auth) =
     ([LogFailed (AuthFileUnreadable ''f''), LogNothing, LogNothing], Some (AuthFileUnreadable ''f''), demo_auth)"
  using failed_reload_reported_once [of demo_ext "\<lambda>_. None" "''f''" "AuthFileUnreadable ''f''" None 2 demo_auth]
  by (simp add: load_auth_file_def read_to_string_def numeral_eq_Suc)

end
