(* ===== verification/TokenThms.thy ===== *)
theory TokenThms
  imports TokenProps
begin

text \<open>
  The properties of the token service of \<open>src/token.rs\<close>, each with a concrete instance.
\<close>

section \<open>Properties\<close>

text \<open>Concrete inputs: a service with ten-minute access tokens and one-hour refresh tokens.\<close>

definition demo_env :: "nat \<Rightarrow> u8 \<Rightarrow> env" where
  "demo_env secs b = \<lparr>env_now = from_secs secs, env_unix = 1700000000 + of_nat secs,
     env_family = Some [0, 0, 0, 0, 0, 0, 0, b], env_token = Some [b], env_imax = from_secs 100000000\<rparr>"

definition demo_service :: token_service where
  "demo_service = \<lparr>ts_key = [7, 8, 9], ts_access_ttl = from_secs 600, ts_refresh_ttl = from_secs 3600,
     ts_state = \<lparr>st_refresh = [], st_spent = [], st_revoked = [], st_next_sweep = from_secs 60\<rparr>,
     ts_poisoned = False\<rparr>"

definition demo_login :: token_service where
  "demo_login = snd (login demo_ext (demo_env 1 5) ''bob'' demo_service)"

lemmas demo_simps = demo_env_def demo_service_def demo_login_def demo_ext_def

lemma demo_service_new:
  "TokenService_new [7, 8, 9] (from_secs 600) (from_secs 3600) (from_secs 100000000) 0 = Ret demo_service"
  by (simp add: evals demo_simps)

lemma demo_login_steps: "tok_steps demo_ext (\<lambda>_. True) (\<lambda>_. True) (demo_service, 0) (demo_login, from_secs 1)"
  using step_login [of 0 "demo_env 1 5" "\<lambda>_. True" demo_ext "\<lambda>_. True" demo_service "''bob''"]
  by (simp add: demo_login_def demo_env_def)

lemma new_store_inv:
  assumes "TokenService_new secret access_ttl refresh_ttl imax t0 = Ret svc"
  shows "store_inv t0 (ts_state svc)" and "\<not> ts_poisoned svc"
    and "ts_access_ttl svc = access_ttl" and "ts_refresh_ttl svc = refresh_ttl"
  using assms
  by (auto simp: TokenService_new_def store_inv_def maps_ok_def records_def hm_get_def hm_len_def split: option.splits)

text \<open>
  (C16) The token store is well formed and bounded. From a new service, after any sequence of logins,
  refreshes and revocations at non-decreasing times, by any clients and with any random bytes, the
  three hash maps are well formed, the live and the spent refresh tokens together number at most
  \<open>MAX_RECORDS\<close>, and no refresh token outlives the deadline of its login.
\<close>

theorem token_store_bounded:
  assumes "TokenService_new secret access_ttl refresh_ttl imax t0 = Ret svc0"
    and "tok_steps x (\<lambda>_. True) (\<lambda>_. True) (svc0, t0) (svc, t)"
  shows "store_inv t (ts_state svc)"
  using bounded.steps_keep [OF assms(2)] new_store_inv(1) [OF assms(1)] by simp

theorem token_store_bounded_witness: "store_inv (from_secs 1) (ts_state demo_login)"
  by (rule token_store_bounded [OF demo_service_new demo_login_steps])

section \<open>Access tokens\<close>

lemma payload_split:
  assumes "payload = version # rest" and "version = ACCESS_TOKEN_VERSION" and "\<not> length rest < 16"
  shows "payload = [ACCESS_TOKEN_VERSION] @ to_be_bytes (from_be_bytes (take 8 rest))
    @ to_be_bytes (from_be_bytes (take 8 (drop 8 rest))) @ drop 16 rest"
proof -
  have "rest = take 8 rest @ take 8 (drop 8 rest) @ drop 16 rest"
    by (metis append_take_drop_id drop_drop numeral_Bit0)
  then show ?thesis using assms by (simp add: to_from_be_bytes)
qed

lemma decode_access_iff:
  "decode_access x svc now token = Some (f, u) \<longleftrightarrow>
     (\<exists>a b tag expires. token = a @ ''.'' @ b \<and> CHR ''.'' \<notin> set a \<and>
        b64_url_decode x a = Some (access_payload f expires u) \<and> b64_url_decode x b = Some tag \<and>
        hmac_verify x (ts_key svc) (access_payload f expires u) tag \<and>
        utf8_ok (as_bytes u) \<and> now < expires)"
proof
  assume "decode_access x svc now token = Some (f, u)"
  then obtain a b payload tag rest where
    token: "split_once ''.'' token = Some (a, b)"
    and dec: "b64_url_decode x a = Some payload" "b64_url_decode x b = Some tag"
    and tag: "hmac_verify x (ts_key svc) payload tag"
    and payload: "payload = ACCESS_TOKEN_VERSION # rest" "\<not> length rest < 16"
    and f: "f = from_be_bytes (take 8 rest)" and u: "from_utf8 (drop 16 rest) = Some u"
    and now: "now < from_be_bytes (take 8 (drop 8 rest))"
    by (auto simp: decode_access_def Let_def split: option.splits prod.splits if_splits list.splits)
  from u have "drop 16 rest = as_bytes u" "utf8_ok (as_bytes u)" by (auto simp: from_utf8_Some_iff)
  with payload_split [OF payload(1) refl payload(2)] f
  have "payload = access_payload f (from_be_bytes (take 8 (drop 8 rest))) u"
    by (simp add: access_payload_def)
  with token dec tag now \<open>utf8_ok (as_bytes u)\<close>
  show "\<exists>a b tag expires. token = a @ ''.'' @ b \<and> CHR ''.'' \<notin> set a \<and>
        b64_url_decode x a = Some (access_payload f expires u) \<and> b64_url_decode x b = Some tag \<and>
        hmac_verify x (ts_key svc) (access_payload f expires u) tag \<and>
        utf8_ok (as_bytes u) \<and> now < expires"
    by (auto simp: split_once_char_iff)
qed (auto simp: decode_access_def split_once_char_notin access_payload_def from_utf8_as_bytes)

text \<open>
  Exactly which access tokens are accepted, and for whom. A token is accepted for user \<open>u\<close> exactly
  when its part before the first dot decodes to the payload of some family, some expiry after now and
  the UTF-8 name \<open>u\<close>, the part after that dot decodes to a tag that verifies for that payload under
  the service's key, and the family is not revoked (and the lock is not poisoned).
\<close>

theorem verify_access_exact:
  "verify_access x now token svc = Ret (Some u) \<longleftrightarrow>
     (\<exists>a b tag f expires. token = a @ ''.'' @ b \<and> CHR ''.'' \<notin> set a \<and>
        b64_url_decode x a = Some (access_payload f expires u) \<and> b64_url_decode x b = Some tag \<and>
        hmac_verify x (ts_key svc) (access_payload f expires u) tag \<and> utf8_ok (as_bytes u) \<and>
        now < expires \<and> hm_get (st_revoked (ts_state svc)) f = None \<and> \<not> ts_poisoned svc)"
proof -
  have "verify_access x now token svc = Ret (Some u) \<longleftrightarrow>
      (\<exists>f. decode_access x svc now token = Some (f, u) \<and>
         hm_get (st_revoked (ts_state svc)) f = None \<and> \<not> ts_poisoned svc)"
    by (auto simp: verify_access_def split: option.splits)
  then show ?thesis unfolding decode_access_iff by blast
qed

lemma login_ok:
  assumes "login x e user svc = (Ret (Inr it), svc')"
  obtains f s1 new where "random_family (env_family e) = Some f" "\<not> ts_poisoned svc"
    "make_room (env_imax e) (env_now e) (ts_state svc) = Ret (Inr (), s1)"
    "env_token e \<noteq> None" "new = b64_url_encode x (the (env_token e))"
    "svc' = svc\<lparr>ts_state := add_refresh (hash_token x new)
       (new_record svc e f user (env_now e + MAX_FAMILY_LIFETIME)) s1\<rparr>"
    "it = \<lparr>it_access_token = mint_access x svc (env_unix e) f user,
      it_access_expires_in = as_secs (ts_access_ttl svc), it_refresh_token = new,
      it_refresh_expires_in = as_secs (rr_expires
        (new_record svc e f user (env_now e + MAX_FAMILY_LIFETIME)) - env_now e)\<rparr>"
proof -
  obtain f where f: "random_family (env_family e) = Some f"
    using assms by (auto simp: login_def split: option.splits)
  with assms have "with_state svc (login_body x svc e f user) = (Ret (Inr it), svc')"
    by (simp add: login_def)
  then obtain s' where body: "login_body x svc e f user (ts_state svc) = Ret (Inr it, s')"
    and alive: "\<not> ts_poisoned svc" and svc': "svc' = svc\<lparr>ts_state := s'\<rparr>"
    by (cases rule: with_state_cases) auto
  obtain s1 where s1: "make_room (env_imax e) (env_now e) (ts_state svc) = Ret (Inr (), s1)"
    and issue: "issue x svc e s1 f user (env_now e) (env_now e + MAX_FAMILY_LIFETIME) = Ret (Inr it, s')"
    using body
    by (auto simp: login_body_def Let_def split: outcome.splits sum.splits prod.splits option.splits)
  from issue f alive s1 svc' show ?thesis by (cases rule: issue_cases) (auto intro: that)
qed

text \<open>
  (C28) Access tokens round-trip. The access token of a successful login is accepted for exactly the
  user who logged in, by the service in any later state, until the Unix time reaches the login's time
  plus the lifetime or its family is revoked; then it is refused.
\<close>

theorem access_token_round_trip:
  assumes "ext_ok x" and "utf8_ok (as_bytes user)"
    and "login x e user svc = (Ret (Inr it), svc')"
    and "random_family (env_family e) = Some f"
    and "tok_steps x fresh newh (svc', t) (svc'', t')" and "\<not> ts_poisoned svc''"
  shows "verify_access x unix (it_access_token it) svc'' =
    Ret (if unix < env_unix e + of_nat (as_secs (ts_access_ttl svc))
            \<and> hm_get (st_revoked (ts_state svc'')) f = None
         then Some user else None)"
proof -
  have it: "it_access_token it = mint_access x svc (env_unix e) f user"
    and key: "ts_key svc' = ts_key svc"
    using login_ok [OF assms(3)] assms(4) by force+
  have "ts_key svc'' = ts_key svc" using steps_frame [OF assms(5)] key by simp
  then have "decode_access x svc'' unix (it_access_token it) =
      (if env_unix e + of_nat (as_secs (ts_access_ttl svc)) \<le> unix then None else Some (f, user))"
    unfolding it by (rule decode_mint [OF assms(1) _ assms(2)])
  then show ?thesis using assms(6) by (auto simp: verify_access_def not_le)
qed

text \<open>The login of user \<open>bob\<close>, and what it returns.\<close>

definition demo_issued :: issued_tokens where
  "demo_issued = \<lparr>it_access_token = mint_access demo_ext demo_service 1700000001 5 ''bob'',
     it_access_expires_in = 600, it_refresh_token = ''af'', it_refresh_expires_in = 3600\<rparr>"

lemma demo_family: "random_family (env_family (demo_env secs b)) = Some (ucast b)"
  by (simp add: random_family_def demo_env_def from_be_bytes_def)

lemma demo_login_result:
  "login demo_ext (demo_env 1 5) ''bob'' demo_service = (Ret (Inr demo_issued), demo_login)"
proof (rule prod_eqI)
  show "fst (login demo_ext (demo_env 1 5) ''bob'' demo_service) = fst (Ret (Inr demo_issued), demo_login)"
    by (simp add: demo_simps demo_issued_def evals char_of_eq_iff)
qed (simp add: demo_login_def)

theorem access_token_round_trip_witness:
  "verify_access demo_ext 1700000600 (it_access_token demo_issued) demo_login = Ret (Some ''bob'')"
proof -
  have "utf8_ok (as_bytes ''bob'')" by code_simp
  then show ?thesis
    using access_token_round_trip [OF demo_ext_ok _ demo_login_result demo_family rtranclp.rtrancl_refl, of 1700000600]
    by (simp add: demo_simps evals)
qed

section \<open>Refreshing\<close>

text \<open>
  What a successful refresh does. The presented token was live, unexpired and within the deadline
  of its login, and its user still exists; afterwards it is spent and no longer live, and the new
  refresh token is live for the same user, the same family and the same deadline, expiring after the
  refresh lifetime or at that deadline, whichever is first.
\<close>

theorem refresh_rotates:
  assumes "refresh x e token user_exists svc = (Ret (Inr (u, it)), svc')"
    and "maps_ok (ts_state svc)" and "hash_token x (it_refresh_token it) \<noteq> hash_token x token"
  shows "\<exists>r. hm_get (st_refresh (ts_state svc)) (hash_token x token) = Some r \<and>
    env_now e < rr_expires r \<and> env_now e < rr_family_deadline r \<and> user_exists u \<and> u = rr_user r \<and>
    hm_get (st_refresh (ts_state svc')) (hash_token x token) = None \<and>
    hm_get (st_spent (ts_state svc')) (hash_token x token) =
      Some \<lparr>sp_family = rr_family r, sp_user = u, sp_expires = rr_expires r\<rparr> \<and>
    hm_get (st_refresh (ts_state svc')) (hash_token x (it_refresh_token it)) =
      Some \<lparr>rr_family = rr_family r, rr_user = u,
        rr_expires = min (env_now e + ts_refresh_ttl svc) (rr_family_deadline r),
        rr_family_deadline = rr_family_deadline r\<rparr>"
  using assms(1,2)
proof (cases rule: refresh_ok)
  case (1 r s1 new)
  have "maps_ok s1" using 1 by (simp add: thinned_def)
  with 1 assms(3) show ?thesis
    by (intro exI [of _ r]) (simp add: new_record_def store_simps)
qed

lemma consume_spent:
  assumes "hm_get (st_refresh s) h = None" and "hm_get (st_spent s) h = Some sp"
    and "env_now e < sp_expires sp" and "env_now e + ts_access_ttl svc \<le> env_imax e"
  shows "\<exists>s'. revoke_family (env_imax e) (sp_family sp) (env_now e) (ts_access_ttl svc) s = Some s' \<and>
    consume x svc e h ue s = Ret (Inl (Reused (sp_user sp)), s')"
  using assms by (auto simp: consume_def revoke_family_def Let_def split: option.splits)

lemma force_sweep_total: "now + SWEEP_INTERVAL \<le> imax \<Longrightarrow> \<exists>s'. force_sweep imax now s = Some s'"
  by (simp add: force_sweep_def instant_add_def)

lemma make_room_total:
  "now + SWEEP_INTERVAL \<le> imax \<Longrightarrow>
     \<exists>r s'. make_room imax now s = Ret (r, s') \<and> (r = Inr () \<or> r = Inl Full)"
  using force_sweep_total [of now imax s] by (auto simp: make_room_def)

lemma prepare_total:
  "env_now e + SWEEP_INTERVAL \<le> env_imax e \<Longrightarrow>
     \<exists>r s'. prepare e s = Ret (r, s') \<and> (r = Inr () \<or> r = Inl Full)"
  using force_sweep_total [of "env_now e" "env_imax e" s] make_room_total [of "env_now e" "env_imax e"]
  by (auto simp: prepare_def sweep_def)

lemma refresh_remembered:
  assumes rem: "remembered (hash_token x token) sp (env_now e) (ts_state svc)"
    and live: "env_now e < sp_expires sp" "\<not> ts_poisoned svc"
    and fits: "env_now e + ts_access_ttl svc \<le> env_imax e" "env_now e + SWEEP_INTERVAL \<le> env_imax e"
    and room: "fst (refresh x e token ue svc) \<noteq> Ret (Inl Full)"
  shows "\<exists>svc'. refresh x e token ue svc = (Ret (Inl (Reused (sp_user sp))), svc') \<and>
    dead (sp_family sp) (env_now e) (ts_access_ttl svc) (env_now e) (ts_state svc') \<and>
    ts_key svc' = ts_key svc \<and> ts_access_ttl svc' = ts_access_ttl svc"
proof -
  let ?h = "hash_token x token"
  have ok: "maps_ok (ts_state svc)" using rem by (simp add: remembered_def)
  obtain s1 where s1: "prepare e (ts_state svc) = Ret (Inr (), s1)"
    using prepare_total [OF fits(2), of "ts_state svc"] room live
    by (auto simp: refresh_def with_state_def refresh_body_prepare)
  have thin: "thinned (env_now e) (ts_state svc) s1" using thinned_prepare [OF ok s1] .
  have "hm_get (st_refresh s1) ?h = None"
    using thin rem map_leD [of "hm_get (st_refresh s1)" "hm_get (st_refresh (ts_state svc))" ?h]
    by (cases "hm_get (st_refresh s1) ?h") (auto simp: thinned_def remembered_def)
  moreover have "hm_get (st_spent s1) ?h = Some sp"
    using thin rem live by (simp add: thinned_def remembered_def)
  ultimately obtain s' where
    s': "revoke_family (env_imax e) (sp_family sp) (env_now e) (ts_access_ttl svc) s1 = Some s'"
      "consume x svc e ?h ue s1 = Ret (Inl (Reused (sp_user sp)), s')"
    using consume_spent live fits by blast
  have "maps_ok s1" using thin by (simp add: thinned_def)
  then show ?thesis
    using s1 s' live revoke_family_dead [OF _ s'(1)]
    by (simp add: refresh_def with_state_def refresh_body_prepare)
qed

lemma dead_forever:
  assumes dead: "dead f t0 (ts_access_ttl svc) t0 (ts_state svc)"
    and steps: "tok_steps x (\<lambda>g. g \<noteq> f) (\<lambda>_. True) (svc, t0) (svc', t)"
    and mint: "ext_ok x" "ts_key svc = ts_key mint" "ts_access_ttl svc = ts_access_ttl mint"
      "ts_access_ttl mint = from_secs a" "unat um + a < 2 ^ 64" "unat um \<le> (off + t0) div nanos"
    and clock: "clock off t' unix" "t \<le> t'"
  shows "verify_access x unix (mint_access x mint um f user) svc' \<noteq> Ret (Some v) \<and>
    (\<forall>h r. hm_get (st_refresh (ts_state svc')) h = Some r \<longrightarrow> rr_family r \<noteq> f)"
proof -
  have "dead f t0 (from_secs a) t (ts_state svc')" and key: "ts_key svc' = ts_key svc"
    using grave.steps_keep [OF steps] steps_frame [OF steps] dead mint by auto
  with dead_rejects [OF this(1) mint(1) _ mint(4,5,6) clock] mint(2) key show ?thesis
    by (simp add: dead_def)
qed

text \<open>
  (C4) A refresh token presented twice kills the whole login. Once a token has been rotated, whatever
  operations follow (as long as the generator does not draw a token with the same hash), presenting it
  again before it would have expired answers \<open>Reused\<close> with its user (unless the store is full); and
  from then on, whatever follows (as long as no later login draws the same family), no access token
  of that login, minted at any time up to the reuse, is accepted, and no refresh token of it is live.
  The Unix clock is in step with the monotonic clock.
\<close>

theorem refresh_reuse_kills_login:
  assumes x: "ext_ok x" and ok: "maps_ok (ts_state svc)" "\<not> ts_poisoned svc2"
    and first: "refresh x e token user_exists svc = (Ret (Inr (u, it)), svc1)"
      "hm_get (st_refresh (ts_state svc)) (hash_token x token) = Some r"
      "hash_token x (it_refresh_token it) \<noteq> hash_token x token"
    and between: "tok_steps x (\<lambda>_. True) (\<lambda>h. h \<noteq> hash_token x token) (svc1, env_now e) (svc2, t)"
    and again: "t \<le> env_now e2" "env_now e2 < rr_expires r"
      "env_now e2 + ts_access_ttl svc \<le> env_imax e2" "env_now e2 + SWEEP_INTERVAL \<le> env_imax e2"
      "refresh x e2 token user_exists2 svc2 = (answer, svc3)" "answer \<noteq> Ret (Inl Full)"
    and later: "tok_steps x (\<lambda>f. f \<noteq> rr_family r) (\<lambda>_. True) (svc3, env_now e2) (svc4, t4)"
    and minted: "ts_access_ttl svc = from_secs a" "unat um + a < 2 ^ 64"
      "unat um \<le> (off + env_now e2) div nanos"
    and clock: "clock off t' unix" "t4 \<le> t'"
  shows "answer = Ret (Inl (Reused u)) \<and>
    verify_access x unix (mint_access x svc um (rr_family r) user) svc4 \<noteq> Ret (Some v) \<and>
    (\<forall>h rec. hm_get (st_refresh (ts_state svc4)) h = Some rec \<longrightarrow> rr_family rec \<noteq> rr_family r)"
proof -
  let ?sp = "\<lparr>sp_family = rr_family r, sp_user = rr_user r, sp_expires = rr_expires r\<rparr>"
  obtain u: "u = rr_user r" and rem: "remembered (hash_token x token) ?sp (env_now e) (ts_state svc1)"
    and frame1: "ts_access_ttl svc1 = ts_access_ttl svc" "ts_key svc1 = ts_key svc"
    using first(1) ok(1)
  proof (cases rule: refresh_ok)
    case (1 r' s1 new)
    then have r': "r' = r" and "maps_ok s1" using first(2) by (simp_all add: thinned_def)
    with 1 first(3) show ?thesis by (intro that) (simp_all add: retire_remembered)
  qed
  have "remembered (hash_token x token) ?sp t (ts_state svc2)"
    and frame2: "ts_access_ttl svc2 = ts_access_ttl svc" "ts_key svc2 = ts_key svc"
    using memory.steps_keep [OF between _ refl] rem steps_frame [OF between] frame1 by auto
  then have "remembered (hash_token x token) ?sp (env_now e2) (ts_state svc2)"
    using again(1) by (auto intro: memory.time)
  then obtain "answer = Ret (Inl (Reused u))"
    and dead: "dead (rr_family r) (env_now e2) (ts_access_ttl svc2) (env_now e2) (ts_state svc3)"
    and frame3: "ts_access_ttl svc3 = ts_access_ttl svc2" "ts_key svc3 = ts_key svc2"
    using refresh_remembered [of x token ?sp e2 svc2 user_exists2] again ok(2) frame2 u by auto
  then show ?thesis
    using dead_forever [of "rr_family r" "env_now e2" svc3 x svc4 t4 svc a um off t' unix user v]
      later x minted clock frame2 by simp
qed

text \<open>The continuation: \<open>bob\<close> refreshes at second ten, and his spent token comes back at second twenty.\<close>

abbreviation demo_refresh :: "nat \<Rightarrow> u8 \<Rightarrow> token_service \<Rightarrow> (token_error + string \<times> issued_tokens) outcome \<times> token_service" where
  "demo_refresh secs b svc \<equiv> refresh demo_ext (demo_env secs b) ''af'' (\<lambda>_. True) svc"

definition demo_refreshed :: token_service where
  "demo_refreshed = snd (demo_refresh 10 6 demo_login)"

definition demo_rotated :: issued_tokens where
  "demo_rotated = \<lparr>it_access_token = mint_access demo_ext demo_service 1700000010 5 ''bob'',
     it_access_expires_in = 600, it_refresh_token = ''ag'', it_refresh_expires_in = 3600\<rparr>"

lemma demo_login_refresh:
  "hm_get (st_refresh (ts_state demo_login)) (hash_token demo_ext ''af'') =
     Some \<lparr>rr_family = 5, rr_user = ''bob'', rr_expires = from_secs 3601, rr_family_deadline = from_secs 2592001\<rparr>"
  "maps_ok (ts_state demo_login)" "\<not> ts_poisoned demo_login" "ts_access_ttl demo_login = from_secs 600"
  by (simp_all add: demo_simps evals maps_ok_def hm_invar_def char_of_eq_iff)

lemma demo_refresh_result:
  "demo_refresh 10 6 demo_login = (Ret (Inr (''bob'', demo_rotated)), demo_refreshed)"
proof (rule prod_eqI)
  show "fst (demo_refresh 10 6 demo_login) = fst (Ret (Inr (''bob'', demo_rotated)), demo_refreshed)"
    by (simp add: demo_simps demo_rotated_def evals char_of_eq_iff)
qed (simp add: demo_refreshed_def)

lemma demo_hash_neq: "hash_token demo_ext (it_refresh_token demo_rotated) \<noteq> hash_token demo_ext ''af''"
  by (simp add: hash_token_def demo_ext_def demo_rotated_def)

theorem refresh_rotates_witness:
  "hm_get (st_refresh (ts_state demo_refreshed)) (hash_token demo_ext ''af'') = None"
  using refresh_rotates [OF demo_refresh_result demo_login_refresh(2) demo_hash_neq] by blast

theorem refresh_reuse_kills_login_witness:
  "\<exists>answer svc3. demo_refresh 20 7 demo_refreshed = (answer, svc3) \<and> answer = Ret (Inl (Reused ''bob'')) \<and>
     verify_access demo_ext 1700000025 (it_access_token demo_rotated) svc3 \<noteq> Ret (Some ''bob'')"
proof -
  obtain answer svc3 where again: "demo_refresh 20 7 demo_refreshed = (answer, svc3)" by fastforce
  have alive: "\<not> ts_poisoned demo_refreshed" and answer: "answer \<noteq> Ret (Inl Full)"
    using again by (auto simp: demo_refreshed_def demo_simps evals char_of_eq_iff)
  have token: "it_access_token demo_rotated = mint_access demo_ext demo_login 1700000010 5 ''bob''"
    by (simp add: demo_rotated_def mint_access_def demo_login_def demo_service_def)
  have "answer = Ret (Inl (Reused ''bob'')) \<and>
      verify_access demo_ext 1700000025 (it_access_token demo_rotated) svc3 \<noteq> Ret (Some ''bob'')"
    unfolding token
    using refresh_reuse_kills_login [OF demo_ext_ok demo_login_refresh(2) alive demo_refresh_result
        demo_login_refresh(1) demo_hash_neq rtranclp.rtrancl_refl _ _ _ _ again answer
        rtranclp.rtrancl_refl demo_login_refresh(4), of 1700000010 "from_secs 1700000000" "from_secs 25" 1700000025
        "''bob''" "''bob''"]
    by (simp add: demo_login_refresh demo_env_def from_secs_def nanos_def SWEEP_INTERVAL_def clock_def)
  with again show ?thesis by blast
qed

text \<open>
  A full store never costs a client its refresh token: when a refresh answers \<open>Full\<close>, every refresh
  token that is still valid, the presented one included, is live afterwards as it was before, none has
  become spent, and no family has been revoked.
\<close>

theorem refresh_full_keeps_tokens:
  assumes "refresh x e token user_exists svc = (Ret (Inl Full), svc')" and "maps_ok (ts_state svc)"
  shows "(\<forall>h r. hm_get (st_refresh (ts_state svc)) h = Some r \<and> env_now e < rr_expires r
      \<and> env_now e < rr_family_deadline r \<longrightarrow> hm_get (st_refresh (ts_state svc')) h = Some r) \<and>
    hm_get (st_spent (ts_state svc')) \<subseteq>\<^sub>m hm_get (st_spent (ts_state svc)) \<and>
    hm_get (st_revoked (ts_state svc')) \<subseteq>\<^sub>m hm_get (st_revoked (ts_state svc))"
proof -
  obtain s' where body: "refresh_body x svc e token user_exists (ts_state svc) = Ret (Inl Full, s')"
    and svc': "svc' = svc\<lparr>ts_state := s'\<rparr>"
    using assms(1) unfolding refresh_def by (cases rule: with_state_cases) auto
  have no_full: "consume x svc e h user_exists s1 \<noteq> Ret (Inl Full, s2)" for h s1 s2
    by (auto simp: consume_def issue_def Let_def split: option.splits outcome.splits sum.splits)
  have "prepare e (ts_state svc) = Ret (Inl Full, s')"
    using body no_full by (auto simp: refresh_body_prepare split: outcome.splits sum.splits prod.splits)
  from thinned_prepare [OF assms(2) this] svc' show ?thesis by (simp add: thinned_def)
qed

definition demo_full :: token_service where
  "demo_full = demo_login\<lparr>ts_state := (ts_state demo_login)\<lparr>st_spent :=
     map (\<lambda>n. (replicate n 0, \<lparr>sp_family = 1, sp_user = ''eve'', sp_expires = from_secs 3600\<rparr>)) [0..<MAX_RECORDS]\<rparr>\<rparr>"

lemma demo_full_store:
  "maps_ok (ts_state demo_full)" "MAX_RECORDS \<le> records (ts_state demo_full)"
  "st_refresh (ts_state demo_full) = st_refresh (ts_state demo_login)" "\<not> ts_poisoned demo_full"
  "st_next_sweep (ts_state demo_full) = from_secs 60" "st_revoked (ts_state demo_full) = []"
proof -
  have "inj (\<lambda>n. replicate n (0 :: u8))" by (metis injI length_replicate)
  then have "distinct (map (\<lambda>n. replicate n (0 :: u8)) [0..<MAX_RECORDS])"
    by (auto simp: distinct_map intro: inj_on_subset)
  then show "maps_ok (ts_state demo_full)"
    using demo_login_refresh(2) by (simp add: demo_full_def maps_ok_def hm_invar_def comp_def)
qed (auto simp: demo_full_def records_def hm_len_def demo_login_refresh(3),
     simp_all add: demo_simps evals)

lemma demo_full_result: "fst (demo_refresh 10 6 demo_full) = Ret (Inl Full)"
proof -
  let ?now = "from_secs 10"
  have "hm_retain (\<lambda>_ r. ?now < sp_expires r) (st_spent (ts_state demo_full)) = st_spent (ts_state demo_full)"
    by (simp add: demo_full_def hm_retain_def filter_map comp_def from_secs_def nanos_def)
  then have "MAX_RECORDS \<le> hm_len (hm_retain (\<lambda>_ r. ?now < sp_expires r) (st_spent (ts_state demo_full)))"
    by (simp add: demo_full_def hm_len_def)
  then show ?thesis
    using demo_full_store
    by (simp add: refresh_def with_state_def refresh_body_def sweep_def make_room_def force_sweep_def
        records_def demo_env_def from_secs_def nanos_def instant_add_def SWEEP_INTERVAL_def Let_def)
qed

theorem refresh_full_keeps_tokens_witness:
  "hm_get (st_refresh (ts_state (snd (demo_refresh 10 6 demo_full)))) (hash_token demo_ext ''af'') \<noteq> None"
proof -
  have "demo_refresh 10 6 demo_full = (Ret (Inl Full), snd (demo_refresh 10 6 demo_full))"
    by (rule prod_eqI) (simp_all add: demo_full_result)
  from refresh_full_keeps_tokens [OF this demo_full_store(1)] demo_login_refresh(1) demo_full_store(3)
  have "hm_get (st_refresh (ts_state (snd (demo_refresh 10 6 demo_full)))) (hash_token demo_ext ''af'') =
      Some \<lparr>rr_family = 5, rr_user = ''bob'', rr_expires = from_secs 3601, rr_family_deadline = from_secs 2592001\<rparr>"
    by (elim conjE allE impE) (auto simp: demo_env_def from_secs_def nanos_def)
  then show ?thesis by simp
qed

section \<open>Panics\<close>

lemma operations_total:
  assumes "\<not> ts_poisoned svc"
    and "\<forall>d \<in> {SWEEP_INTERVAL, MAX_FAMILY_LIFETIME, ts_access_ttl svc, ts_refresh_ttl svc}.
      env_now e + d \<le> env_imax e"
  shows "(\<exists>r svc'. login x e user svc = (Ret r, svc') \<and> \<not> ts_poisoned svc') \<and>
    (\<exists>r svc'. refresh x e token user_exists svc = (Ret r, svc') \<and> \<not> ts_poisoned svc') \<and>
    (\<exists>r svc'. revoke x e token svc = (Ret r, svc') \<and> \<not> ts_poisoned svc') \<and>
    (\<exists>r. verify_access x unix access svc = Ret r)"
proof -
  have issue: "\<exists>r. issue x svc e s f u (env_now e) d = Ret r" for s f u d
    using assms(2) by (auto simp: issue_def instant_add_def Let_def split: option.splits)
  then have no_panic: "issue x svc e s f u (env_now e) d \<noteq> Panic" for s f u d
    by (metis outcome.distinct(1))
  have login: "\<exists>r. login_body x svc e f user s = Ret r" for f s
    using make_room_total [of "env_now e" "env_imax e" s] assms(2) issue
    by (auto simp: login_body_def instant_add_def Let_def)
  have consume: "\<exists>r. consume x svc e h user_exists s = Ret r" for h s
    using assms(2) no_panic
    by (auto simp: consume_def revoke_family_def instant_add_def Let_def split: option.splits outcome.splits sum.splits)
  have refresh: "\<exists>r. refresh_body x svc e token user_exists s = Ret r" for s
    using prepare_total [of e s] assms(2) consume by (auto simp: refresh_body_prepare)
  have revoke: "\<exists>r. revoke_body x svc e token s = Ret r" for s
    using assms(2) by (auto simp: revoke_body_def revoke_family_def instant_add_def Let_def split: option.splits)
  have ret: "\<exists>r svc'. with_state svc body = (Ret r, svc') \<and> \<not> ts_poisoned svc'"
    if "\<exists>r. body (ts_state svc) = Ret r" for body :: "state \<Rightarrow> ('r \<times> state) outcome"
    using that assms(1) by (auto simp: with_state_def)
  have "\<exists>r. verify_access x unix access svc = Ret r"
    using assms(1) by (auto simp: verify_access_def split: option.splits)
  then show ?thesis
    using ret [OF login] ret [OF refresh] ret [OF revoke] assms(1)
    by (auto simp: login_def refresh_def revoke_def split: option.splits)
qed

text \<open>
  No operation panics, and none poisons the lock, as long as the lifetimes fit: at a time from which
  the clock can still represent the sweep interval, both token lifetimes and the thirty days, a login,
  a refresh, a logout and the check of an access token all return.
\<close>

theorem token_operations_total:
  assumes "\<not> ts_poisoned svc"
    and "\<forall>d \<in> {SWEEP_INTERVAL, MAX_FAMILY_LIFETIME, ts_access_ttl svc, ts_refresh_ttl svc}.
      env_now e + d \<le> env_imax e"
  shows "(\<exists>r svc'. login x e user svc = (Ret r, svc') \<and> \<not> ts_poisoned svc') \<and>
    (\<exists>r svc'. refresh x e token user_exists svc = (Ret r, svc') \<and> \<not> ts_poisoned svc') \<and>
    (\<exists>r svc'. revoke x e token svc = (Ret r, svc') \<and> \<not> ts_poisoned svc') \<and>
    (\<exists>r. verify_access x unix access svc = Ret r)"
  using assms by (rule operations_total)

theorem token_operations_total_witness:
  "\<exists>r svc'. login demo_ext (demo_env 1 5) ''bob'' demo_service = (Ret r, svc') \<and> \<not> ts_poisoned svc'"
  using token_operations_total [of demo_service "demo_env 1 5" demo_ext "''bob''"]
  by (simp add: demo_simps token_consts from_secs_def nanos_def)

text \<open>
  (C35) A refresh lifetime that the clock cannot represent, which the options allow, takes the service down:
  the first login that gets to issue a token panics while it holds the lock, and from then on every
  login, every refresh, every logout and every check of a token this service has signed panics.
\<close>

theorem oversized_lifetime_poisons:
  assumes "\<not> ts_poisoned svc" and "records (ts_state svc) < MAX_RECORDS"
    and "env_imax e < env_now e + ts_refresh_ttl svc" and "env_now e + MAX_FAMILY_LIFETIME \<le> env_imax e"
    and "random_family (env_family e) \<noteq> None" and "env_token e \<noteq> None"
    and "ext_ok x" and "utf8_ok (as_bytes u)" and "unix < um + of_nat (as_secs (ts_access_ttl svc))"
  shows "\<exists>svc'. login x e user svc = (Panic, svc') \<and>
    (random_family (env_family e2) \<noteq> None \<longrightarrow> login x e2 user2 svc' = (Panic, svc')) \<and>
    refresh x e2 token user_exists svc' = (Panic, svc') \<and> revoke x e2 token svc' = (Panic, svc') \<and>
    verify_access x unix (mint_access x svc um f u) svc' = Panic"
proof -
  have "login x e user svc = (Panic, svc\<lparr>ts_poisoned := True\<rparr>)"
    using assms(1-6)
    by (auto simp: login_def with_state_def login_body_def make_room_def issue_def generate_token_def
        instant_add_def)
  moreover have "decode_access x (svc\<lparr>ts_poisoned := True\<rparr>) unix (mint_access x svc um f u) = Some (f, u)"
    using decode_mint [OF assms(7) _ assms(8)] assms(9) by simp
  ultimately show ?thesis
    by (intro exI [of _ "svc\<lparr>ts_poisoned := True\<rparr>"])
      (auto simp: login_def refresh_def revoke_def with_state_def verify_access_def)
qed

theorem oversized_lifetime_poisons_witness:
  "\<exists>svc'. login demo_ext (demo_env 1 5) ''bob'' (demo_service\<lparr>ts_refresh_ttl := from_secs (2 ^ 64 - 1)\<rparr>)
     = (Panic, svc') \<and> revoke demo_ext (demo_env 2 6) ''af'' svc' = (Panic, svc')"
proof -
  let ?svc = "demo_service\<lparr>ts_refresh_ttl := from_secs (2 ^ 64 - 1)\<rparr>"
  have "utf8_ok (as_bytes ''bob'')" by code_simp
  with oversized_lifetime_poisons [of ?svc "demo_env 1 5" demo_ext "''bob''" 1700000002 1700000001 "''bob''"
      "demo_env 2 6" "''bob''" "''af''" "\<lambda>_. True" 5] demo_ext_ok
  show ?thesis
    by (auto simp: demo_env_def demo_service_def token_consts from_secs_def nanos_def records_def
        hm_len_def random_family_def as_secs_def)
qed

section \<open>Logging out and the end of a login\<close>

lemma revoke_cases:
  assumes "revoke x e token svc = (Ret known, svc')"
  obtains (known) f s' where "known" "known_family (hash_token x token) (ts_state svc) = Some f"
      "revoke_family (env_imax e) f (env_now e) (ts_access_ttl svc) (ts_state svc) = Some s'"
      "svc' = svc\<lparr>ts_state := s'\<rparr>"
  | (unknown) "\<not> known" "known_family (hash_token x token) (ts_state svc) = None" "svc' = svc"
  using assms by (auto simp: revoke_def with_state_def revoke_body_def split: if_splits option.splits)

text \<open>
  What a logout does, exactly. It answers whether the token is live or spent; an unknown token changes
  nothing. A known one kills its own login and no other: no refresh token of its family stays live,
  the family is remembered as revoked until the access lifetime has passed, and the refresh tokens,
  the spent tokens and the revocations of every other family are untouched.
\<close>

theorem revoke_exact:
  assumes "revoke x e token svc = (Ret known, svc')" and "maps_ok (ts_state svc)"
  shows "known = (known_family (hash_token x token) (ts_state svc) \<noteq> None) \<and>
    (\<not> known \<longrightarrow> svc' = svc) \<and>
    (\<forall>f. known_family (hash_token x token) (ts_state svc) = Some f \<longrightarrow>
       (\<forall>h. hm_get (st_refresh (ts_state svc')) h =
          (case hm_get (st_refresh (ts_state svc)) h of
             Some r \<Rightarrow> if rr_family r = f then None else Some r | None \<Rightarrow> None)) \<and>
       st_spent (ts_state svc') = st_spent (ts_state svc) \<and>
       hm_get (st_revoked (ts_state svc')) =
         (hm_get (st_revoked (ts_state svc)))(f \<mapsto> env_now e + ts_access_ttl svc))"
  using assms(1)
proof (cases rule: revoke_cases)
  case (known f s')
  then show ?thesis
    using assms(2) revoke_familyD [OF known(3)]
    by (auto simp: maps_ok_def hm.get_retain hm.get_insert split: option.splits)
qed simp

theorem revoke_exact_witness:
  "hm_get (st_revoked (ts_state (snd (revoke demo_ext (demo_env 20 7) ''af'' demo_login)))) =
     [5 \<mapsto> from_secs 620]"
proof -
  have revoke: "revoke demo_ext (demo_env 20 7) ''af'' demo_login =
      (Ret True, snd (revoke demo_ext (demo_env 20 7) ''af'' demo_login))"
    by (rule prod_eqI) (simp_all add: demo_simps evals char_of_eq_iff)
  have "known_family (hash_token demo_ext ''af'') (ts_state demo_login) = Some 5"
    by (simp add: known_family_def demo_login_refresh)
  with revoke_exact [OF revoke demo_login_refresh(2)] show ?thesis
    by (simp add: demo_login_refresh demo_simps evals char_of_eq_iff)
qed

text \<open>
  A logged-out login stays dead. After a logout with a live or spent token of family \<open>f\<close>, whatever
  operations follow at later times (as long as no later login draws the same family), no access token
  of that login, minted at any time up to the logout, is ever accepted again, and no refresh token of
  it is live. In particular the revocation is not forgotten while such an access token is unexpired.
\<close>

theorem revoked_login_stays_dead:
  assumes x: "ext_ok x" and ok: "maps_ok (ts_state svc)"
    and logout: "known_family (hash_token x token) (ts_state svc) = Some f"
      "revoke x e token svc = (Ret known, svc1)"
    and later: "tok_steps x (\<lambda>g. g \<noteq> f) (\<lambda>_. True) (svc1, env_now e) (svc2, t)"
    and minted: "ts_access_ttl svc = from_secs a" "unat um + a < 2 ^ 64"
      "unat um \<le> (off + env_now e) div nanos"
    and clock: "clock off t' unix" "t \<le> t'"
  shows "verify_access x unix (mint_access x svc um f user) svc2 \<noteq> Ret (Some v) \<and>
    (\<forall>h r. hm_get (st_refresh (ts_state svc2)) h = Some r \<longrightarrow> rr_family r \<noteq> f)"
  using logout(2)
proof (cases rule: revoke_cases)
  case (known g s')
  then have "dead f (env_now e) (ts_access_ttl svc1) (env_now e) (ts_state svc1)"
    using logout(1) revoke_family_dead [OF ok known(3)] by simp
  then show ?thesis
    using dead_forever [OF _ later x] minted clock known by simp
qed (simp add: logout)

theorem revoked_login_stays_dead_witness:
  "verify_access demo_ext 1700000030 (it_access_token demo_issued)
     (snd (revoke demo_ext (demo_env 20 7) ''af'' demo_login)) \<noteq> Ret (Some ''bob'')"
proof -
  have revoke: "revoke demo_ext (demo_env 20 7) ''af'' demo_login =
      (Ret True, snd (revoke demo_ext (demo_env 20 7) ''af'' demo_login))"
    by (rule prod_eqI) (simp_all add: demo_simps evals char_of_eq_iff)
  have family: "known_family (hash_token demo_ext ''af'') (ts_state demo_login) = Some 5"
    by (simp add: known_family_def demo_login_refresh)
  have token: "it_access_token demo_issued = mint_access demo_ext demo_login 1700000001 5 ''bob''"
    by (simp add: demo_issued_def mint_access_def demo_login_def demo_service_def)
  show ?thesis
    unfolding token
    using revoked_login_stays_dead [OF demo_ext_ok demo_login_refresh(2) family revoke rtranclp.rtrancl_refl
        demo_login_refresh(4), of 1700000001 "from_secs 1700000000" "from_secs 30" 1700000030 "''bob''" "''bob''"]
    by (simp add: demo_env_def from_secs_def nanos_def clock_def)
qed

text \<open>
  (C17) A login cannot be kept alive past thirty days, however often the client refreshes. If the first
  login of family \<open>f\<close> succeeds at one time, then after any operations (none of which logs in with the
  same random family) a refresh of a token of that family can only succeed strictly before thirty days
  have passed, and the refresh token it hands out expires by then.
\<close>

theorem login_ends_after_thirty_days:
  assumes ok: "maps_ok (ts_state svc)"
    and first: "\<forall>h r. hm_get (st_refresh (ts_state svc)) h = Some r \<longrightarrow> rr_family r \<noteq> f"
      "random_family (env_family e) = Some f" "login x e user svc = (Ret (Inr it), svc1)"
    and between: "tok_steps x (\<lambda>g. g \<noteq> f) (\<lambda>_. True) (svc1, env_now e) (svc2, t)"
    and again: "hm_get (st_refresh (ts_state svc2)) (hash_token x token) = Some r" "rr_family r = f"
      "refresh x e2 token user_exists svc2 = (Ret (Inr (u, it2)), svc3)"
  shows "env_now e2 < env_now e + MAX_FAMILY_LIFETIME \<and>
    (\<exists>r2. hm_get (st_refresh (ts_state svc3)) (hash_token x (it_refresh_token it2)) = Some r2 \<and>
       rr_expires r2 \<le> env_now e + MAX_FAMILY_LIFETIME)"
proof -
  let ?d = "env_now e + MAX_FAMILY_LIFETIME"
  have "deadline_le f ?d (env_now e) (ts_state svc1)"
    using first(3)
  proof (cases rule: login_ok)
    case (1 g s1 new)
    then have "thinned (env_now e) (ts_state svc) s1" using thinned_make_room [OF ok] by blast
    then have "deadline_le f ?d (env_now e) s1"
      using first(1) by (auto simp: deadline_le_def thinned_def dest: map_leD)
    with 1 show ?thesis by (auto simp: deadline_le_def store_simps)
  qed
  then have deadline: "deadline_le f ?d t (ts_state svc2)"
    using lifetime.steps_keep [OF between _ refl] by simp
  then have "rr_family_deadline r \<le> ?d" and ok2: "maps_ok (ts_state svc2)"
    using again by (auto simp: deadline_le_def)
  from again(3) ok2 show ?thesis
  proof (cases rule: refresh_ok)
    case (1 r' s1 new)
    then have "r' = r" using again(1) by simp
    with 1 \<open>rr_family_deadline r \<le> ?d\<close> show ?thesis by (simp add: store_simps)
  qed
qed

theorem login_ends_after_thirty_days_witness:
  "env_now (demo_env 10 6) < env_now (demo_env 1 5) + MAX_FAMILY_LIFETIME"
proof -
  have empty: "maps_ok (ts_state demo_service)" "hm_get (st_refresh (ts_state demo_service)) = Map.empty"
    by (simp_all add: demo_service_def maps_ok_def hm_get_def)
  show ?thesis
    using login_ends_after_thirty_days [OF empty(1) _ demo_family demo_login_result rtranclp.rtrancl_refl
        demo_login_refresh(1) _ demo_refresh_result] empty(2)
    by simp
qed

section \<open>The revoked families are not bounded\<close>

definition cycle_env :: "instant \<Rightarrow> nat \<Rightarrow> nat \<Rightarrow> env" where
  "cycle_env now imax i = \<lparr>env_now = now, env_unix = 0, env_family = Some (to_be_bytes (of_nat i)),
     env_token = Some (replicate TOKEN_BYTES 0), env_imax = imax\<rparr>"

text \<open>One client that logs in and logs out, drawing family \<open>i\<close>.\<close>

definition cycle :: "ext \<Rightarrow> instant \<Rightarrow> nat \<Rightarrow> nat \<Rightarrow> token_service \<Rightarrow> token_service" where
  "cycle x now imax i svc =
     (let e = cycle_env now imax i;
          svc1 = snd (login x e ''user'' svc)
      in snd (revoke x e (b64_url_encode x (replicate TOKEN_BYTES 0)) svc1))"

lemma cycle_steps:
  "t \<le> now \<Longrightarrow> tok_steps x (\<lambda>_. True) (\<lambda>_. True) (svc, t) (cycle x now imax i svc, now)"
  using step_login [of t "cycle_env now imax i" "\<lambda>_. True" x "\<lambda>_. True" svc "''user''"]
    step_revoke [of now "cycle_env now imax i" x "\<lambda>_. True" "\<lambda>_. True"
      "snd (login x (cycle_env now imax i) ''user'' svc)" "b64_url_encode x (replicate TOKEN_BYTES 0)"]
  by (simp add: cycle_def cycle_env_def Let_def)

definition only_revoked :: "token_service \<Rightarrow> token_service \<Rightarrow> nat \<Rightarrow> bool" where
  "only_revoked svc0 svc n \<longleftrightarrow> \<not> ts_poisoned svc \<and> maps_ok (ts_state svc) \<and>
     st_refresh (ts_state svc) = [] \<and> st_spent (ts_state svc) = [] \<and>
     ts_access_ttl svc = ts_access_ttl svc0 \<and> ts_refresh_ttl svc = ts_refresh_ttl svc0 \<and>
     dom (hm_get (st_revoked (ts_state svc))) = of_nat ` {..<n}"

lemma cycle_only_revoked:
  assumes "only_revoked svc0 svc n"
    and "\<forall>d \<in> {MAX_FAMILY_LIFETIME, ts_access_ttl svc0, ts_refresh_ttl svc0}. now + d \<le> imax"
  shows "only_revoked svc0 (cycle x now imax n svc) (Suc n)"
proof -
  let ?h = "hash_token x (b64_url_encode x (replicate TOKEN_BYTES 0))"
  let ?r = "\<lparr>rr_family = of_nat n, rr_user = ''user'',
    rr_expires = min (now + ts_refresh_ttl svc0) (now + MAX_FAMILY_LIFETIME),
    rr_family_deadline = now + MAX_FAMILY_LIFETIME\<rparr>"
  have "snd (login x (cycle_env now imax n) ''user'' svc) =
      svc\<lparr>ts_state := (ts_state svc)\<lparr>st_refresh := [(?h, ?r)]\<rparr>\<rparr>"
    using assms
    by (simp add: only_revoked_def login_def random_family_def cycle_env_def with_state_def login_body_def
        make_room_def records_def hm_len_def MAX_RECORDS_def issue_def generate_token_def hm_insert_def
        instant_add_def Let_def)
  then have "cycle x now imax n svc = svc\<lparr>ts_state := (ts_state svc)\<lparr>st_refresh := [],
      st_revoked := hm_insert (of_nat n) (now + ts_access_ttl svc0) (st_revoked (ts_state svc))\<rparr>\<rparr>"
    using assms
    by (simp add: only_revoked_def cycle_def cycle_env_def revoke_def with_state_def revoke_body_def
        known_family_def hm_get_def revoke_family_def hm_retain_def instant_add_def Let_def)
  with assms(1) show ?thesis
    by (auto simp: only_revoked_def maps_ok_def hm.get_insert lessThan_Suc)
qed

text \<open>
  (C40) The store of revoked families grows without limit, although the bound on the store is there so that
  a client with valid credentials cannot do this. For every \<open>n\<close> up to the number of families, \<open>n\<close> logins and
  logouts by one client lead to a store that holds \<open>n\<close> revoked families and not one refresh token, live
  or spent: nothing counts them, and neither a login nor a logout sweeps them.
\<close>

theorem revoked_families_unbounded:
  assumes "TokenService_new secret access_ttl refresh_ttl imax t0 = Ret svc0" and "t0 \<le> now"
    and "\<forall>d \<in> {MAX_FAMILY_LIFETIME, access_ttl, refresh_ttl}. now + d \<le> imax" and "n \<le> 2 ^ 64"
  shows "\<exists>svc t. tok_steps x (\<lambda>_. True) (\<lambda>_. True) (svc0, t0) (svc, t) \<and> t \<le> now \<and>
    records (ts_state svc) = 0 \<and> hm_len (st_revoked (ts_state svc)) = n"
proof -
  have ttl: "ts_access_ttl svc0 = access_ttl" "ts_refresh_ttl svc0 = refresh_ttl"
    using assms(1) by (auto simp: TokenService_new_def split: option.splits)
  have "\<exists>svc t. tok_steps x (\<lambda>_. True) (\<lambda>_. True) (svc0, t0) (svc, t) \<and> t \<le> now \<and> only_revoked svc0 svc k" for k
  proof (induction k)
    case 0
    have "only_revoked svc0 svc0 0"
      using assms(1)
      by (auto simp: TokenService_new_def only_revoked_def maps_ok_def hm_get_def split: option.splits)
    with assms(2) show ?case by blast
  next
    case (Suc k)
    then obtain svc t where "tok_steps x (\<lambda>_. True) (\<lambda>_. True) (svc0, t0) (svc, t)" "t \<le> now" "only_revoked svc0 svc k"
      by blast
    then show ?case
      using cycle_steps [of t now x svc imax k] cycle_only_revoked [of svc0 svc k now imax x] assms(3) ttl
      by (meson order_refl rtranclp_trans)
  qed
  then obtain svc t where svc: "tok_steps x (\<lambda>_. True) (\<lambda>_. True) (svc0, t0) (svc, t)" "t \<le> now" "only_revoked svc0 svc n"
    by blast
  have "inj_on (of_nat :: nat \<Rightarrow> u64) {..<n}"
    using assms(4) by (auto intro!: inj_onI dest!: arg_cong [of _ _ unat] simp: unat_of_nat)
  with svc(3) have "hm_len (st_revoked (ts_state svc)) = n"
    by (simp add: only_revoked_def maps_ok_def hm.len_card card_image)
  with svc show ?thesis by (auto simp: only_revoked_def records_def hm_len_def)
qed

theorem revoked_families_unbounded_witness:
  "\<exists>svc t. tok_steps demo_ext (\<lambda>_. True) (\<lambda>_. True) (demo_service, 0) (svc, t) \<and> t \<le> from_secs 1 \<and>
     records (ts_state svc) = 0 \<and> hm_len (st_revoked (ts_state svc)) = 10 * MAX_RECORDS"
  by (rule revoked_families_unbounded [OF demo_service_new])
    (simp_all add: token_consts from_secs_def nanos_def)

end
