(* ===== verification/TokenApi.thy ===== *)
theory TokenApi
  imports AuthProps TokenThms
begin

text \<open>
  \<open>src/token_api.rs\<close>: the endpoints \<open>/auth/token\<close>, \<open>/auth/refresh\<close> and \<open>/auth/revoke\<close>. The handler takes
  the configuration with its token service and returns the response and the changed configuration.
\<close>

section \<open>The handler\<close>

datatype endpoint = Login | Refresh | Revoke

definition text_response :: "nat \<Rightarrow> string \<Rightarrow> response" where
  "text_response status message =
     \<lparr>rs_status = status, rs_headers = [HdrInsert ''content-type'' ''text/plain; charset=utf-8''],
      rs_body = Some message\<rparr>"

definition no_store :: "response \<Rightarrow> response" where
  "no_store r = r\<lparr>rs_headers := rs_headers r @
     [HdrInsert ''cache-control'' ''no-store'', HdrInsert ''pragma'' ''no-cache'']\<rparr>"

definition tokens_body :: "issued_tokens \<Rightarrow> string" where
  "tokens_body issued =
     ''{\"token_type\":\"Bearer\",\"access_token\":\"'' @ it_access_token issued @
     ''\",\"expires_in\":'' @ show_nat (it_access_expires_in issued) @
     '',\"refresh_token\":\"'' @ it_refresh_token issued @
     ''\",\"refresh_expires_in\":'' @ show_nat (it_refresh_expires_in issued) @ ''}''"

definition tokens_response :: "issued_tokens \<Rightarrow> response" where
  "tokens_response issued =
     no_store \<lparr>rs_status = 200, rs_headers = [HdrInsert ''content-type'' ''application/json''],
       rs_body = Some (tokens_body issued)\<rparr>"

definition token_error_response :: "token_error \<Rightarrow> response" where
  "token_error_response err =
     (case err of
        Full \<Rightarrow> text_response 503 ''too many active logins''
      | _ \<Rightarrow> text_response 500 ''failed to issue tokens'')"

definition endpoint_for :: "string \<Rightarrow> endpoint option" where
  "endpoint_for path =
     (if path = ''/auth/token'' then Some Login
      else if path = ''/auth/refresh'' then Some Refresh
      else if path = ''/auth/revoke'' then Some Revoke
      else None)"

definition login_endpoint ::
  "ext \<Rightarrow> env \<Rightarrow> auth_config \<Rightarrow> token_service \<Rightarrow> string option \<Rightarrow> response outcome \<times> token_service" where
  "login_endpoint x e ac tokens authorization =
     (case Option.bind authorization (basic_user x ac) of
        None \<Rightarrow> (unauthorized_response x True None, tokens)
      | Some user \<Rightarrow>
          (case login x e user tokens of
             (Panic, tokens) \<Rightarrow> (Panic, tokens)
           | (Ret (Inr issued), tokens) \<Rightarrow> (Ret (tokens_response issued), tokens)
           | (Ret (Inl err), tokens) \<Rightarrow> (Ret (token_error_response err), tokens)))"

definition refresh_endpoint ::
  "ext \<Rightarrow> env \<Rightarrow> auth_config \<Rightarrow> token_service \<Rightarrow> string option \<Rightarrow> response outcome \<times> token_service" where
  "refresh_endpoint x e ac tokens authorization =
     (case Option.bind authorization bearer_token of
        None \<Rightarrow> (unauthorized_response x False (Some BEARER_CHALLENGE), tokens)
      | Some token \<Rightarrow>
          (case refresh x e token (has_user x ac) tokens of
             (Panic, tokens) \<Rightarrow> (Panic, tokens)
           | (Ret (Inr (user, issued)), tokens) \<Rightarrow> (Ret (tokens_response issued), tokens)
           | (Ret (Inl Invalid), tokens) \<Rightarrow>
               (unauthorized_response x False (Some BEARER_INVALID_CHALLENGE), tokens)
           | (Ret (Inl (Reused user)), tokens) \<Rightarrow>
               (unauthorized_response x False (Some BEARER_INVALID_CHALLENGE), tokens)
           | (Ret (Inl err), tokens) \<Rightarrow> (Ret (token_error_response err), tokens)))"

definition revoke_endpoint ::
  "ext \<Rightarrow> env \<Rightarrow> token_service \<Rightarrow> string option \<Rightarrow> response outcome \<times> token_service" where
  "revoke_endpoint x e tokens authorization =
     (case Option.bind authorization bearer_token of
        None \<Rightarrow> (unauthorized_response x False (Some BEARER_CHALLENGE), tokens)
      | Some token \<Rightarrow>
          (case revoke x e token tokens of
             (Panic, tokens) \<Rightarrow> (Panic, tokens)
           | (Ret known, tokens) \<Rightarrow> (Ret (no_store (text_response 204 [])), tokens)))"

definition has_body :: "request \<Rightarrow> bool" where
  "has_body req \<longleftrightarrow> rq_header req ''transfer-encoding'' \<noteq> None \<or>
     (case rq_header req ''content-length'' of None \<Rightarrow> False | Some len \<Rightarrow> len \<noteq> as_bytes ''0'')"

definition handle_auth_request ::
  "ext \<Rightarrow> env \<Rightarrow> request \<Rightarrow> auth_config option \<Rightarrow> response outcome \<times> auth_config option" where
  "handle_auth_request x e req auth =
     (case Option.bind auth (\<lambda>ac. map_option (\<lambda>tokens. (ac, tokens)) (ac_tokens ac)) of
        None \<Rightarrow> (Ret (text_response 404 ''not found''), auth)
      | Some (ac, tokens) \<Rightarrow>
          (case endpoint_for (rq_path req) of
             None \<Rightarrow> (Ret (text_response 404 ''not found''), auth)
           | Some endpoint \<Rightarrow>
               if rq_method req \<noteq> ''POST'' then
                 (let r = text_response 405 ''use POST''
                  in (Ret (r\<lparr>rs_headers := rs_headers r @ [HdrInsert ''allow'' ''POST'']\<rparr>), auth))
               else if has_body req then (Ret (text_response 400 ''request must not have a body''), auth)
               else
                 (let authorization = header_str x req ''authorization'';
                      (r, tokens) = (case endpoint of
                         Login \<Rightarrow> login_endpoint x e ac tokens authorization
                       | Refresh \<Rightarrow> refresh_endpoint x e ac tokens authorization
                       | Revoke \<Rightarrow> revoke_endpoint x e tokens authorization)
                  in (r, Some (ac\<lparr>ac_tokens := Some tokens\<rparr>)))))"

lemmas [evals] = text_response_def no_store_def tokens_body_def tokens_response_def
  token_error_response_def endpoint_for_def login_endpoint_def refresh_endpoint_def revoke_endpoint_def
  has_body_def handle_auth_request_def

section \<open>Properties\<close>

text \<open>The parts of the handler that decide before the endpoint, and the endpoint itself.\<close>

definition served :: "request \<Rightarrow> bool" where
  "served req \<longleftrightarrow> endpoint_for (rq_path req) \<noteq> None \<and> rq_method req = ''POST'' \<and> \<not> has_body req"

definition endpoint_of ::
  "ext \<Rightarrow> env \<Rightarrow> auth_config \<Rightarrow> token_service \<Rightarrow> string option \<Rightarrow> endpoint \<Rightarrow> response outcome \<times> token_service" where
  "endpoint_of x e ac tokens authorization endpoint =
     (case endpoint of
        Login \<Rightarrow> login_endpoint x e ac tokens authorization
      | Refresh \<Rightarrow> refresh_endpoint x e ac tokens authorization
      | Revoke \<Rightarrow> revoke_endpoint x e tokens authorization)"

lemma handle_served:
  assumes "served req" and "ac_tokens ac = Some svc"
  shows "handle_auth_request x e req (Some ac) =
    (let (r, svc') = endpoint_of x e ac svc (header_str x req ''authorization'') (the (endpoint_for (rq_path req)))
     in (r, Some (ac\<lparr>ac_tokens := Some svc'\<rparr>)))"
  using assms by (auto simp: handle_auth_request_def served_def endpoint_of_def Let_def)

lemma handle_not_served:
  assumes "\<not> served req" and "ac_tokens ac = Some svc"
  shows "\<exists>r. handle_auth_request x e req (Some ac) = (Ret r, Some ac) \<and> rs_status r =
    (if endpoint_for (rq_path req) = None then 404 else if rq_method req \<noteq> ''POST'' then 405 else 400)"
  using assms by (auto simp: handle_auth_request_def served_def text_response_def Let_def split: option.splits)

lemma response_status [simp]:
  "rs_status (text_response n m) = n" "rs_status (tokens_response it) = 200"
  "rs_status (no_store r) = rs_status r"
  by (simp_all add: text_response_def tokens_response_def no_store_def)

lemma token_error_status: "rs_status (token_error_response err) \<in> {500, 503}"
  by (simp add: token_error_response_def split: token_error.split)

lemma token_error_not_200 [simp]: "rs_status (token_error_response err) \<noteq> 200"
  using token_error_status [of err] by auto

lemma unauthorized_status:
  "ext_ok x \<Longrightarrow> bearer \<in> {None, Some BEARER_CHALLENGE, Some BEARER_INVALID_CHALLENGE} \<Longrightarrow>
     \<exists>r. unauthorized_response x basic bearer = Ret r \<and> rs_status r = 401"
  by (simp add: unauthorized_response_eq)

text \<open>A login endpoint that answers 200 was given a credential, and a refresh endpoint a live token.\<close>

lemma login_endpoint_ok:
  assumes "ext_ok x" and "holds_credentials x ac cs"
    and "login_endpoint x e ac svc h = (Ret r, svc')" and "rs_status r = 200"
  shows "\<exists>u p it. h = Some (encode_credential x (u @ '':'' @ p)) \<and> credential_of cs u p \<and>
    login x e u svc = (Ret (Inr it), svc') \<and> r = tokens_response it"
proof -
  obtain u where u: "Option.bind h (basic_user x ac) = Some u"
    using assms(1,3,4) unauthorized_status [of x None True]
    by (cases "Option.bind h (basic_user x ac)") (auto simp: login_endpoint_def)
  obtain res svc2 where res: "login x e u svc = (res, svc2)" by fastforce
  with assms(3,4) u obtain it where "login x e u svc = (Ret (Inr it), svc')" "r = tokens_response it"
    by (auto simp: login_endpoint_def split: outcome.splits sum.splits)
  with u show ?thesis by (cases h) (auto simp: basic_user_iff [OF assms(1,2)])
qed

lemma refresh_endpoint_ok:
  assumes "ext_ok x" and "refresh_endpoint x e ac svc h = (Ret r, svc')" and "rs_status r = 200"
  shows "\<exists>token u it. Option.bind h bearer_token = Some token \<and>
    refresh x e token (has_user x ac) svc = (Ret (Inr (u, it)), svc') \<and> r = tokens_response it"
proof -
  obtain token where t: "Option.bind h bearer_token = Some token"
    using assms unauthorized_status [of x "Some BEARER_CHALLENGE" False]
    by (cases "Option.bind h bearer_token") (auto simp: refresh_endpoint_def)
  obtain res svc2 where res: "refresh x e token (has_user x ac) svc = (res, svc2)" by fastforce
  with assms t unauthorized_status [of x "Some BEARER_INVALID_CHALLENGE" False] show ?thesis
    by (auto simp: refresh_endpoint_def split: outcome.splits sum.splits token_error.splits prod.splits)
qed

text \<open>
  (C8) Tokens are handed out to nobody else. Whenever the endpoints answer \<open>200\<close>, the request was a \<open>POST\<close>
  without a body, the answer may not be cached, and either it was to \<open>/auth/token\<close> and carried the Basic
  encoding of a configured credential, or it was to \<open>/auth/refresh\<close> and carried a refresh token that was
  live and unexpired for a user who still has a configured credential.
\<close>

theorem tokens_only_for_credentials:
  assumes "ext_ok x" and "holds_credentials x ac cs" and "ac_tokens ac = Some svc" and "maps_ok (ts_state svc)"
    and "handle_auth_request x e req (Some ac) = (Ret r, auth')" and "rs_status r = 200"
  shows "rq_method req = ''POST'' \<and> \<not> has_body req \<and>
    {HdrInsert ''cache-control'' ''no-store'', HdrInsert ''pragma'' ''no-cache''} \<subseteq> set (rs_headers r) \<and>
    (rq_path req = ''/auth/token'' \<and> (\<exists>u p. credential_of cs u p \<and>
        header_str x req ''authorization'' = Some (encode_credential x (u @ '':'' @ p))) \<or>
     rq_path req = ''/auth/refresh'' \<and> (\<exists>h token rec p. header_str x req ''authorization'' = Some h \<and>
        bearer_token h = Some token \<and>
        hm_get (st_refresh (ts_state svc)) (hash_token x token) = Some rec \<and>
        env_now e < rr_expires rec \<and> env_now e < rr_family_deadline rec \<and> credential_of cs (rr_user rec) p))"
proof -
  let ?h = "header_str x req ''authorization''"
  have served: "served req"
    using handle_not_served [of req ac svc x e] assms(3,5,6) by (cases "served req") (auto split: if_splits)
  then obtain ep where ep: "endpoint_for (rq_path req) = Some ep" by (auto simp: served_def)
  with served assms(3,5) obtain svc' where answer: "endpoint_of x e ac svc ?h ep = (Ret r, svc')"
    by (auto simp: handle_served split: prod.splits)
  have headers: "{HdrInsert ''cache-control'' ''no-store'', HdrInsert ''pragma'' ''no-cache''}
      \<subseteq> set (rs_headers (tokens_response it))" for it
    by (simp add: tokens_response_def no_store_def)
  show ?thesis
  proof (cases ep)
    case Login
    with answer login_endpoint_ok [OF assms(1,2) _ assms(6)] obtain u p it where
      "?h = Some (encode_credential x (u @ '':'' @ p))" "credential_of cs u p" "r = tokens_response it"
      by (fastforce simp: endpoint_of_def)
    with Login ep served headers show ?thesis by (auto simp: endpoint_for_def served_def split: if_splits)
  next
    case Refresh
    with answer refresh_endpoint_ok [OF assms(1) _ assms(6)] obtain h token u it where
      h: "?h = Some h" "bearer_token h = Some token" and r: "r = tokens_response it"
      and refresh: "refresh x e token (has_user x ac) svc = (Ret (Inr (u, it)), svc')"
      by (fastforce simp: endpoint_of_def bind_eq_Some_conv)
    from refresh assms(4) obtain rec where "hm_get (st_refresh (ts_state svc)) (hash_token x token) = Some rec"
      "env_now e < rr_expires rec" "env_now e < rr_family_deadline rec" "has_user x ac (rr_user rec)"
      by (cases rule: refresh_ok)
    with h r Refresh ep served headers show ?thesis
      by (auto simp: endpoint_for_def served_def has_user_iff [OF assms(1,2)] split: if_splits)
  next
    case Revoke
    with answer assms(1,6) unauthorized_status [of x "Some BEARER_CHALLENGE" False] show ?thesis
      by (auto simp: endpoint_of_def revoke_endpoint_def split: option.splits prod.splits outcome.splits)
  qed
qed

text \<open>
  (C30) Logging out tells nothing about tokens. Two \<open>POST /auth/revoke\<close> requests that each carry some bearer
  token are answered alike, whatever the tokens and whatever the stores behind them hold, as long as
  the services are not poisoned and the access lifetime fits the clock.
\<close>

theorem revoke_is_no_oracle:
  assumes "\<forall>i \<in> {1, 2 :: nat}. served (req i) \<and> rq_path (req i) = ''/auth/revoke'' \<and>
      (\<exists>h. header_str x (req i) ''authorization'' = Some h \<and> bearer_token h \<noteq> None) \<and>
      ac_tokens (ac i) = Some (svc i) \<and> \<not> ts_poisoned (svc i) \<and>
      env_now (e i) + ts_access_ttl (svc i) \<le> env_imax (e i)"
  shows "fst (handle_auth_request x (e 1) (req 1) (Some (ac 1))) =
    fst (handle_auth_request x (e 2) (req 2) (Some (ac 2)))"
proof -
  have "fst (handle_auth_request x (e i) (req i) (Some (ac i))) = Ret (no_store (text_response 204 []))"
    if mem: "i \<in> {1, 2}" for i
  proof -
    obtain h token where h: "header_str x (req i) ''authorization'' = Some h" "bearer_token h = Some token"
      and i: "served (req i)" "rq_path (req i) = ''/auth/revoke''" "ac_tokens (ac i) = Some (svc i)"
        "\<not> ts_poisoned (svc i)" "env_now (e i) + ts_access_ttl (svc i) \<le> env_imax (e i)"
      using bspec [OF assms mem] by blast
    have "\<exists>known svc'. revoke x (e i) token (svc i) = (Ret known, svc')"
      using i(4,5) by (auto simp: revoke_def with_state_def revoke_body_def revoke_family_def instant_add_def
          Let_def split: option.splits)
    then obtain known svc' where "revoke x (e i) token (svc i) = (Ret known, svc')" by blast
    then have "revoke_endpoint x (e i) (svc i) (Some h) = (Ret (no_store (text_response 204 [])), svc')"
      using h(2) by (simp add: revoke_endpoint_def)
    then show ?thesis
      unfolding handle_served [OF i(1,3)] h(1) i(2) by (simp add: endpoint_of_def endpoint_for_def)
  qed
  then show ?thesis by simp
qed

lemma endpoint_status:
  assumes "ext_ok x" and "\<not> ts_poisoned svc"
    and "\<forall>d \<in> {SWEEP_INTERVAL, MAX_FAMILY_LIFETIME, ts_access_ttl svc, ts_refresh_ttl svc}.
      env_now e + d \<le> env_imax e"
  shows "\<exists>r svc'. endpoint_of x e ac svc h ep = (Ret r, svc') \<and> \<not> ts_poisoned svc' \<and> rs_status r \<in> {200, 204, 401, 500, 503}"
proof -
  note total = operations_total [OF assms(2,3), of x]
  note refused = unauthorized_status [OF assms(1)]
  have login: "\<exists>r svc'. login_endpoint x e ac svc h = (Ret r, svc') \<and> \<not> ts_poisoned svc' \<and> rs_status r \<in> {200, 204, 401, 500, 503}"
  proof (cases "Option.bind h (basic_user x ac)")
    case None
    then show ?thesis using assms(2) refused [of None True] by (auto simp: login_endpoint_def)
  next
    case (Some u)
    obtain r svc' where "login x e u svc = (Ret r, svc')" "\<not> ts_poisoned svc'" using total [of u] by blast
    with Some show ?thesis
      using token_error_status by (cases r) (auto simp: login_endpoint_def)
  qed
  have refresh: "\<exists>r svc'. refresh_endpoint x e ac svc h = (Ret r, svc') \<and> \<not> ts_poisoned svc' \<and> rs_status r \<in> {200, 204, 401, 500, 503}"
  proof (cases "Option.bind h bearer_token")
    case None
    then show ?thesis using assms(2) refused [of "Some BEARER_CHALLENGE" False] by (auto simp: refresh_endpoint_def)
  next
    case (Some token)
    obtain r svc' where r: "refresh x e token (has_user x ac) svc = (Ret r, svc')" "\<not> ts_poisoned svc'" using total by blast
    then show ?thesis
      using Some token_error_status refused [of "Some BEARER_INVALID_CHALLENGE" False]
      by (cases r) (auto simp: refresh_endpoint_def split: token_error.splits)
  qed
  have revoke: "\<exists>r svc'. revoke_endpoint x e svc h = (Ret r, svc') \<and> \<not> ts_poisoned svc' \<and> rs_status r \<in> {200, 204, 401, 500, 503}"
  proof (cases "Option.bind h bearer_token")
    case None
    then show ?thesis using assms(2) refused [of "Some BEARER_CHALLENGE" False] by (auto simp: revoke_endpoint_def)
  next
    case (Some token)
    obtain r svc' where r: "revoke x e token svc = (Ret r, svc')" "\<not> ts_poisoned svc'" using total by blast
    then show ?thesis using Some by (simp add: revoke_endpoint_def)
  qed
  show ?thesis using login refresh revoke by (cases ep) (auto simp: endpoint_of_def)
qed

text \<open>
  (C29) Every request under \<open>/auth/\<close> is answered, and nothing but the token service changes. While the
  service is not poisoned and the lifetimes fit the clock, the handler returns a response whose status
  is one of the documented ones; a request that is not a \<open>POST\<close> without a body to a known endpoint is
  refused with \<open>404\<close>, \<open>405\<close> or \<open>400\<close> and leaves everything as it was.
\<close>

theorem auth_requests_answered:
  assumes "ext_ok x" and "ac_tokens ac = Some svc" and "\<not> ts_poisoned svc"
    and "\<forall>d \<in> {SWEEP_INTERVAL, MAX_FAMILY_LIFETIME, ts_access_ttl svc, ts_refresh_ttl svc}.
      env_now e + d \<le> env_imax e"
  shows "\<exists>r svc'. handle_auth_request x e req (Some ac) = (Ret r, Some (ac\<lparr>ac_tokens := Some svc'\<rparr>)) \<and>
    (if served req then rs_status r \<in> {200, 204, 401, 500, 503}
     else svc' = svc \<and> rs_status r =
       (if endpoint_for (rq_path req) = None then 404 else if rq_method req \<noteq> ''POST'' then 405 else 400))"
proof (cases "served req")
  case True
  obtain r svc' where "endpoint_of x e ac svc (header_str x req ''authorization'') (the (endpoint_for (rq_path req))) = (Ret r, svc')"
    and "rs_status r \<in> {200, 204, 401, 500, 503}"
    using endpoint_status [OF assms(1,3,4)] by blast
  with True handle_served [OF True assms(2)] show ?thesis by (intro exI [of _ r] exI [of _ svc']) simp
next
  case False
  have "ac\<lparr>ac_tokens := Some svc\<rparr> = ac" using assms(2) by simp
  with False handle_not_served [OF False assms(2)] show ?thesis by auto
qed

text \<open>Requests to the endpoints of the configuration with user \<open>bob\<close>.\<close>

definition demo_api :: auth_config where
  "demo_api = demo_auth\<lparr>ac_tokens := Some demo_login\<rparr>"

lemma demo_api_facts:
  "holds_credentials demo_ext demo_api [''bob:pw'']" "ac_tokens demo_api = Some demo_login"
  "\<not> allows_anonymous_target demo_api ''/tcp:web:80''"
  using demo_holds by (simp_all add: demo_api_def holds_credentials_def demo_auth_def evals)

lemma demo_served:
  "served (demo_request ''POST'' ''/auth/revoke'' h)" "served (demo_request ''POST'' ''/auth/token'' h)"
  by (simp_all add: served_def demo_request_def endpoint_for_def has_body_def)

lemma demo_header: "header_str demo_ext (demo_request m p h) ''authorization'' = Some h"
  by (simp add: header_str_def demo_request_def demo_ext_def)

lemma demo_fits: "\<forall>d \<in> {SWEEP_INTERVAL, MAX_FAMILY_LIFETIME, ts_access_ttl demo_login, ts_refresh_ttl demo_login}.
    env_now (demo_env 10 6) + d \<le> env_imax (demo_env 10 6)"
  by (simp add: demo_simps token_consts from_secs_def nanos_def)

theorem auth_requests_answered_witness:
  "\<exists>r auth'. handle_auth_request demo_ext (demo_env 10 6) (demo_request ''GET'' ''/auth/token'' []) (Some demo_api) =
     (Ret r, auth') \<and> rs_status r = 405"
  using auth_requests_answered [OF demo_ext_ok demo_api_facts(2) demo_login_refresh(3) demo_fits,
      of "demo_request ''GET'' ''/auth/token'' []"]
  by (auto simp: served_def demo_request_def endpoint_for_def)

theorem revoke_is_no_oracle_witness:
  "fst (handle_auth_request demo_ext (demo_env 10 6) (demo_request ''POST'' ''/auth/revoke'' ''Bearer af'') (Some demo_api)) =
   fst (handle_auth_request demo_ext (demo_env 10 6) (demo_request ''POST'' ''/auth/revoke'' ''Bearer zz'') (Some demo_api))"
proof -
  have bearer: "bearer_token ''Bearer af'' \<noteq> None" "bearer_token ''Bearer zz'' \<noteq> None" by code_simp+
  have path: "rq_path (demo_request m p h) = p" for m p h by (simp add: demo_request_def)
  show ?thesis
    using revoke_is_no_oracle [of "\<lambda>i. demo_request ''POST'' ''/auth/revoke'' (if i = 1 then ''Bearer af'' else ''Bearer zz'')"
        demo_ext "\<lambda>_. demo_api" "\<lambda>_. demo_login" "\<lambda>_. demo_env 10 6"]
      demo_fits demo_login_refresh(3) bearer
    by (simp add: demo_served demo_header demo_api_facts path)
qed

section \<open>From the login to a proxied request\<close>

lemma encode_credential_user:
  assumes "ext_ok x" and "encode_credential x (u @ '':'' @ p) = encode_credential x (u2 @ '':'' @ p2)"
    and "CHR '':'' \<notin> set u" and "CHR '':'' \<notin> set u2"
  shows "u2 = u"
proof -
  have decode: "\<And>bs. b64_std_decode x (b64_std_encode x bs) = Some bs" using assms(1) by (simp add: ext_ok_def)
  have "b64_std_encode x (as_bytes (u @ '':'' @ p)) = b64_std_encode x (as_bytes (u2 @ '':'' @ p2))"
    using assms(2) by (simp add: encode_credential_def)
  then have "b64_std_decode x (b64_std_encode x (as_bytes (u @ '':'' @ p))) =
      b64_std_decode x (b64_std_encode x (as_bytes (u2 @ '':'' @ p2)))"
    by (simp only:)
  then have "u @ '':'' @ p = u2 @ '':'' @ p2"
    unfolding decode option.inject as_bytes_inject .
  then have "u @ CHR '':'' # p = u2 @ CHR '':'' # p2" by (simp only: append_Cons append_Nil)
  then have "Some (u, p) = Some (u2, p2)"
    unfolding split_once_char_notin [OF assms(3), of p, symmetric] split_once_char_notin [OF assms(4), of p2, symmetric]
    by (simp only:)
  then show ?thesis by simp
qed

lemma bearer_of_token:
  assumes "ext_ok x"
  shows "bearer_token (''Bearer '' @ mint_access x svc unix f u) = Some (mint_access x svc unix f u)"
proof -
  let ?t = "mint_access x svc unix f u"
  have "printable ''.''" by (simp add: printable_def)
  then have "printable ?t"
    using b64_url_printable [OF assms] unfolding mint_access_def Let_def printable_append by blast
  have "?t \<noteq> []" by (simp add: mint_access_def Let_def)
  have "trim ?t = ?t" using \<open>printable ?t\<close> by (simp add: trim_printable)
  moreover have "split_once '' '' (''Bearer'' @ CHR '' '' # ?t) = Some (''Bearer'', ?t)"
    by (rule split_once_char_notin) simp
  moreover have "eq_ignore_ascii_case ''Bearer'' ''bearer''" by code_simp
  ultimately show ?thesis using \<open>?t \<noteq> []\<close> by (simp add: bearer_token_def)
qed

text \<open>
  (C20) Logging in and using the token. When a client posts a configured credential of user \<open>u\<close> to
  \<open>/auth/token\<close> and gets \<open>200\<close>, the answer carries an access token, and a request with
  \<open>Authorization: Bearer\<close> and that token is authorized as \<open>u\<close> by the configuration as the login left
  it, until the token expires, provided that the family it drew had not been revoked.
\<close>

theorem login_then_bearer:
  assumes x: "ext_ok x" and ac: "holds_credentials x ac cs" "ac_tokens ac = Some svc" "maps_ok (ts_state svc)"
    and login: "rq_path req = ''/auth/token''"
      "header_str x req ''authorization'' = Some (encode_credential x (u @ '':'' @ p))"
      "CHR '':'' \<notin> set u" "utf8_ok (as_bytes u)"
      "handle_auth_request x e req (Some ac) = (Ret r, Some ac')" "rs_status r = 200"
    and family: "random_family (env_family e) = Some f" "hm_get (st_revoked (ts_state svc)) f = None"
    and time: "unix < env_unix e + of_nat (as_secs (ts_access_ttl svc))"
  shows "\<exists>it. rs_body r = Some (tokens_body it) \<and>
    (\<forall>req'. header_str x req' ''authorization'' = Some (''Bearer '' @ it_access_token it) \<and>
       \<not> allows_anonymous_target ac' (rq_path req') \<longrightarrow>
       authorize_request x unix req' (Some ac') = Ret (Inr u))"
proof -
  have served: "served req"
    using handle_not_served [of req ac svc x e] ac(2) login by (cases "served req") (auto split: if_splits)
  have "endpoint_for (rq_path req) = Some Login" using login(1) by (simp add: endpoint_for_def)
  with handle_served [OF served ac(2), of x e] login obtain svc' where
    ep: "login_endpoint x e ac svc (Some (encode_credential x (u @ '':'' @ p))) = (Ret r, svc')"
    and ac': "ac' = ac\<lparr>ac_tokens := Some svc'\<rparr>"
    by (auto simp: endpoint_of_def split: prod.splits)
  obtain u2 p2 it where cred: "encode_credential x (u @ '':'' @ p) = encode_credential x (u2 @ '':'' @ p2)"
    "credential_of cs u2 p2" and l: "login x e u2 svc = (Ret (Inr it), svc')" and r: "r = tokens_response it"
    using login_endpoint_ok [OF x ac(1) ep login(6)] by auto
  have u: "u2 = u"
    by (rule encode_credential_user [OF x cred(1)]) (use login(3) cred(2) in \<open>simp_all add: credential_of_def\<close>)
  from l obtain s1 where token: "it_access_token it = mint_access x svc (env_unix e) f u"
    and room: "make_room (env_imax e) (env_now e) (ts_state svc) = Ret (Inr (), s1)"
    and svc': "ts_key svc' = ts_key svc" "\<not> ts_poisoned svc'" "st_revoked (ts_state svc') = st_revoked s1"
    using u family(1) by (cases rule: login_ok) (auto simp: add_refresh_def)
  have "thinned (env_now e) (ts_state svc) s1" using thinned_make_room [OF ac(3) room] .
  then have "hm_get (st_revoked s1) f = None"
    using family(2) map_leD [of "hm_get (st_revoked s1)" "hm_get (st_revoked (ts_state svc))" f]
    by (cases "hm_get (st_revoked s1) f") (auto simp: thinned_def)
  then have "verify_access x unix (it_access_token it) svc' = Ret (Some u)"
    using decode_mint [OF x svc'(1) login(4), of unix "env_unix e" f] time svc'(2,3)
    by (simp add: verify_access_def token not_le)
  moreover have "has_user x ac' u"
    using has_user_iff [OF x ac(1)] cred(2) u by (auto simp: ac' has_user_def)
  ultimately have "verify_access_token x unix ac' (it_access_token it) = Ret (Some u)"
    by (simp add: verify_access_token_def ac')
  then have "authorize_request x unix req' (Some ac') = Ret (Inr u)"
    if "header_str x req' ''authorization'' = Some (''Bearer '' @ it_access_token it)"
      "\<not> allows_anonymous_target ac' (rq_path req')" for req'
    using that bearer_of_token [OF x] by (simp add: authorize_request_def token)
  then show ?thesis by (auto simp: r tokens_response_def no_store_def)
qed

text \<open>User \<open>bob\<close> logs in through the endpoint.\<close>

abbreviation demo_post :: request where
  "demo_post \<equiv> demo_request ''POST'' ''/auth/token'' (encode_credential demo_ext ''bob:pw'')"

lemma demo_bob: "credential_of [''bob:pw''] ''bob'' ''pw''" "utf8_ok (as_bytes ''bob'')"
  unfolding credential_of_def by code_simp+

lemma demo_basic_user: "basic_user demo_ext demo_api (encode_credential demo_ext ''bob:pw'') = Some ''bob''"
  unfolding basic_user_iff [OF demo_ext_ok demo_api_facts(1)]
  using demo_bob(1) by (intro exI [of _ "''pw''"]) simp

lemma demo_post_login:
  "\<exists>r ac'. handle_auth_request demo_ext (demo_env 10 6) demo_post (Some demo_api) = (Ret r, Some ac') \<and> rs_status r = 200"
proof -
  have "\<exists>it svc'. login demo_ext (demo_env 10 6) ''bob'' demo_login = (Ret (Inr it), svc')"
    by (simp add: demo_simps evals char_of_eq_iff)
  then obtain it svc' where "login demo_ext (demo_env 10 6) ''bob'' demo_login = (Ret (Inr it), svc')" by blast
  moreover have "endpoint_for (rq_path demo_post) = Some Login" by (simp add: demo_request_def endpoint_for_def)
  ultimately show ?thesis
    by (simp add: handle_served [OF demo_served(2) demo_api_facts(2)] demo_header endpoint_of_def
        login_endpoint_def demo_basic_user)
qed

theorem tokens_only_for_credentials_witness:
  "\<exists>r auth'. handle_auth_request demo_ext (demo_env 10 6) demo_post (Some demo_api) = (Ret r, auth') \<and>
     HdrInsert ''cache-control'' ''no-store'' \<in> set (rs_headers r)"
proof -
  obtain r ac' where r: "handle_auth_request demo_ext (demo_env 10 6) demo_post (Some demo_api) = (Ret r, Some ac')"
    "rs_status r = 200" using demo_post_login by blast
  have "HdrInsert ''cache-control'' ''no-store'' \<in> set (rs_headers r)"
    using tokens_only_for_credentials [OF demo_ext_ok demo_api_facts(1,2) demo_login_refresh(2) r] by simp
  with r show ?thesis by blast
qed

theorem login_then_bearer_witness:
  "\<exists>r ac' (it :: issued_tokens). handle_auth_request demo_ext (demo_env 10 6) demo_post (Some demo_api) = (Ret r, Some ac') \<and>
     authorize_request demo_ext 1700000500 (demo_request ''GET'' ''/'' (''Bearer '' @ it_access_token it)) (Some ac')
       = Ret (Inr ''bob'')"
proof -
  obtain r ac' where r: "handle_auth_request demo_ext (demo_env 10 6) demo_post (Some demo_api) = (Ret r, Some ac')"
    "rs_status r = 200" using demo_post_login by blast
  have header: "header_str demo_ext demo_post ''authorization'' = Some (encode_credential demo_ext (''bob'' @ '':'' @ ''pw''))"
    by (simp add: demo_header)
  have no_colon: "CHR '':'' \<notin> set ''bob''" by simp
  have path: "rq_path demo_post = ''/auth/token''" by (simp add: demo_request_def)
  have not_revoked: "hm_get (st_revoked (ts_state demo_login)) (ucast (6 :: u8)) = None"
    by (simp add: demo_simps evals)
  have time: "1700000500 < env_unix (demo_env 10 6) + of_nat (as_secs (ts_access_ttl demo_login))"
    by (simp add: demo_env_def demo_login_refresh)
  obtain it :: issued_tokens where it: "\<forall>req'. header_str demo_ext req' ''authorization'' = Some (''Bearer '' @ it_access_token it) \<and>
      \<not> allows_anonymous_target ac' (rq_path req') \<longrightarrow> authorize_request demo_ext 1700000500 req' (Some ac') = Ret (Inr ''bob'')"
    using login_then_bearer [OF demo_ext_ok demo_api_facts(1,2) demo_login_refresh(2) path header no_colon demo_bob(2) r
        demo_family not_revoked time] by blast
  have "\<not> allows_anonymous_target ac' (rq_path (demo_request ''GET'' ''/'' h))" for h
    by (simp add: allows_anonymous_target_def demo_request_def evals)
  then have "authorize_request demo_ext 1700000500 (demo_request ''GET'' ''/'' (''Bearer '' @ it_access_token it)) (Some ac')
       = Ret (Inr ''bob'')"
    using it demo_header by blast
  with r(1) show ?thesis by blast
qed

end
