(* ===== verification/HttpProbe.thy ===== *)
theory HttpProbe
  imports Ext
begin

text \<open>
  \<open>src/http_probe.rs\<close>: reading the head of a request, telling plain requests from websocket upgrades,
  answering plain ones, and the stream that replays what was read. Reading is an operation on a
  stream's state with the laws of a byte source; the laws are a locale, interpreted on a stream of
  chunks and on the replaying stream over it.
\<close>

section \<open>Byte sources\<close>

text \<open>
  \<open>read n s\<close> answers an error or at most \<open>n\<close> bytes (none at the end of the stream) and the stream after
  it; \<open>content s\<close> is what is left to be read, up to the end or the error.
\<close>

type_synonym 's reader = "nat \<Rightarrow> 's \<Rightarrow> (unit + bytes) \<times> 's"

locale byte_source =
  fixes read :: "'s reader"
    and content :: "'s \<Rightarrow> bytes"
  assumes read_content: "read n s = (Inr bs, s') \<Longrightarrow> content s = bs @ content s'"
    and read_bound: "read n s = (Inr bs, s') \<Longrightarrow> length bs \<le> n"
    and read_end: "read n s = (Inr [], s') \<Longrightarrow> 0 < n \<Longrightarrow> content s = []"

text \<open>A stream that delivers its bytes in chunks as they arrive, and then ends or fails.\<close>

record chunked =
  ch_chunks :: "bytes list"
  ch_fails :: bool

definition chunked_read :: "chunked reader" where
  "chunked_read n s =
     (case dropWhile (\<lambda>c. c = []) (ch_chunks s) of
        [] \<Rightarrow> (if ch_fails s then Inl () else Inr [], s\<lparr>ch_chunks := []\<rparr>)
      | c # cs \<Rightarrow> (Inr (take n c), s\<lparr>ch_chunks := drop n c # cs\<rparr>))"

definition chunked_content :: "chunked \<Rightarrow> bytes" where
  "chunked_content s = concat (ch_chunks s)"

lemma concat_dropWhile_Nil: "concat (dropWhile (\<lambda>c. c = []) cs) = concat cs"
  by (induction cs) auto

interpretation chunked: byte_source chunked_read chunked_content
proof (unfold_locales, goal_cases)
  case (1 n s bs s')
  then show ?case
    using concat_dropWhile_Nil [of "ch_chunks s"]
    by (cases "dropWhile (\<lambda>c. c = []) (ch_chunks s)")
      (auto simp: chunked_read_def chunked_content_def append_assoc [symmetric]
        simp del: dropWhile_eq_Nil_conv append_assoc split: if_splits)
next
  case (2 n s bs s')
  then show ?case by (auto simp: chunked_read_def split: list.splits if_splits)
next
  case (3 n s s')
  then show ?case
    using concat_dropWhile_Nil [of "ch_chunks s"]
    by (cases "dropWhile (\<lambda>c. c = []) (ch_chunks s)")
      (auto simp: chunked_read_def chunked_content_def dropWhile_eq_Cons_conv simp del: dropWhile_eq_Nil_conv
        split: if_splits)
qed

section \<open>The request head\<close>

definition MAX_REQUEST_HEAD :: nat where "MAX_REQUEST_HEAD = 16 * 1024"
definition PROBE_MAX_HEADERS :: nat where "PROBE_MAX_HEADERS = 64"

text \<open>\<open>slice.windows(n)\<close>.\<close>

definition windows :: "nat \<Rightarrow> 'a list \<Rightarrow> 'a list list" where
  "windows n xs = map (\<lambda>i. take n (drop i xs)) [0..<Suc (length xs) - n]"

definition head_complete :: "bytes \<Rightarrow> bool" where
  "head_complete head = list_ex (\<lambda>window. window = [13, 10, 13, 10]) (windows 4 head)"

function read_head_loop :: "'s reader \<Rightarrow> bytes \<Rightarrow> 's \<Rightarrow> (unit + bytes) \<times> 's" where
  "read_head_loop read head stream =
     (if \<not> head_complete head \<and> length head < MAX_REQUEST_HEAD then
        (case read 2048 stream of
           (Inl e, stream) \<Rightarrow> (Inl e, stream)
         | (Inr chunk, stream) \<Rightarrow>
             if chunk = [] then (Inr head, stream)
             else read_head_loop read (head @ chunk) stream)
      else (Inr head, stream))"
  by pat_completeness auto
termination
  by (relation "measure (\<lambda>(read, head, stream). MAX_REQUEST_HEAD - length head)") (auto intro!: diff_less_mono2)

declare read_head_loop.simps [simp del]

definition read_request_head :: "'s reader \<Rightarrow> 's \<Rightarrow> (unit + bytes) \<times> 's" where
  "read_request_head read stream = read_head_loop read [] stream"

section \<open>Replaying\<close>

record 's replay_stream =
  rp_prefix :: bytes
  rp_position :: nat
  rp_inner :: 's

definition ReplayStream_new :: "bytes \<Rightarrow> 's \<Rightarrow> 's replay_stream" where
  "ReplayStream_new pre inner = \<lparr>rp_prefix = pre, rp_position = 0, rp_inner = inner\<rparr>"

definition replay_read :: "'s reader \<Rightarrow> 's replay_stream reader" where
  "replay_read read remaining s =
     (if rp_position s < length (rp_prefix s) then
        (let n = min remaining (length (rp_prefix s) - rp_position s)
         in (Inr (take n (drop (rp_position s) (rp_prefix s))), s\<lparr>rp_position := rp_position s + n\<rparr>))
      else (let (r, inner) = read remaining (rp_inner s) in (r, s\<lparr>rp_inner := inner\<rparr>)))"

definition replay_content :: "('s \<Rightarrow> bytes) \<Rightarrow> 's replay_stream \<Rightarrow> bytes" where
  "replay_content content s = drop (rp_position s) (rp_prefix s) @ content (rp_inner s)"

context byte_source
begin

lemma replay_source: "byte_source (replay_read read) (replay_content content)"
proof (unfold_locales, goal_cases)
  case (1 n s bs s')
  have "drop (rp_position s) (rp_prefix s) = take k (drop (rp_position s) (rp_prefix s))
      @ drop (rp_position s + k) (rp_prefix s)" for k
    by (metis add.commute append_take_drop_id drop_drop)
  with 1 show ?case
    by (auto simp: replay_read_def replay_content_def Let_def dest: read_content split: prod.splits if_splits)
next
  case (2 n s bs s')
  then show ?case by (auto simp: replay_read_def Let_def dest: read_bound split: prod.splits if_splits)
next
  case (3 n s s')
  then show ?case
    by (auto simp: replay_read_def replay_content_def Let_def dest: read_end split: prod.splits if_splits)
qed

lemma read_head_loop_spec:
  assumes "read_head_loop read head s = (Inr result, s')" and "length head < MAX_REQUEST_HEAD + 2048"
  shows "head @ content s = result @ content s' \<and> length result < MAX_REQUEST_HEAD + 2048 \<and>
    (head_complete result \<or> MAX_REQUEST_HEAD \<le> length result \<or> content s' = [])"
  using assms
proof (induction "MAX_REQUEST_HEAD - length head" arbitrary: head s rule: less_induct)
  case less
  show ?case
  proof (cases "\<not> head_complete head \<and> length head < MAX_REQUEST_HEAD")
    case False
    then show ?thesis using less.prems by (auto simp: read_head_loop.simps [of read head s])
  next
    case True
    obtain chunk s1 where chunk: "read 2048 s = (Inr chunk, s1)"
      using less.prems True
      by (cases "read 2048 s"; cases "fst (read 2048 s)") (auto simp: read_head_loop.simps [of read head s])
    show ?thesis
    proof (cases "chunk = []")
      case True
      with less.prems chunk \<open>\<not> head_complete head \<and> _\<close> have "result = head" "s' = s1"
        by (simp_all add: read_head_loop.simps [of read head s])
      with less.prems read_content [OF chunk] read_end [of 2048 s s1] chunk True show ?thesis by simp
    next
      case False
      with less.prems chunk True have loop: "read_head_loop read (head @ chunk) s1 = (Inr result, s')"
        by (simp add: read_head_loop.simps [of read head s])
      have "MAX_REQUEST_HEAD - length (head @ chunk) < MAX_REQUEST_HEAD - length head"
        using False True by (auto intro!: diff_less_mono2)
      moreover have "length (head @ chunk) < MAX_REQUEST_HEAD + 2048"
        using True read_bound [OF chunk] by simp
      ultimately show ?thesis
        using less.hyps [OF _ loop] read_content [OF chunk] by auto
    qed
  qed
qed

end

section \<open>Reading and replaying lose nothing\<close>

text \<open>A reader's client: reads with buffers of the given sizes, one after the other.\<close>

fun read_seq :: "'s reader \<Rightarrow> nat list \<Rightarrow> 's \<Rightarrow> (unit + bytes) \<times> 's" where
  "read_seq read [] s = (Inr [], s)"
| "read_seq read (n # ns) s =
     (case read n s of
        (Inl e, s) \<Rightarrow> (Inl e, s)
      | (Inr bs, s) \<Rightarrow>
          (case read_seq read ns s of
             (Inl e, s) \<Rightarrow> (Inl e, s)
           | (Inr cs, s) \<Rightarrow> (Inr (bs @ cs), s)))"

context byte_source
begin

lemma read_seq_content: "read_seq read ns s = (Inr bs, s') \<Longrightarrow> content s = bs @ content s'"
  by (induction ns arbitrary: s bs)
    (auto dest!: read_content split: prod.splits sum.splits)

lemma replay_new_content: "replay_content content (ReplayStream_new pre s) = pre @ content s"
  by (simp add: replay_content_def ReplayStream_new_def)

end

interpretation replayed: byte_source "replay_read chunked_read" "replay_content chunked_content"
  by (rule chunked.replay_source)

lemma chunked_read_ok: "\<not> ch_fails s \<Longrightarrow> \<exists>bs s'. chunked_read n s = (Inr bs, s') \<and> \<not> ch_fails s'"
  by (auto simp: chunked_read_def split: list.splits)

lemma chunked_head_ok: "\<not> ch_fails s \<Longrightarrow> \<exists>result s'. read_head_loop chunked_read head s = (Inr result, s')"
proof (induction "MAX_REQUEST_HEAD - length head" arbitrary: head s rule: less_induct)
  case less
  obtain chunk s1 where chunk: "chunked_read 2048 s = (Inr chunk, s1)" "\<not> ch_fails s1"
    using chunked_read_ok [OF less.prems] by blast
  have "chunk \<noteq> [] \<and> length head < MAX_REQUEST_HEAD \<Longrightarrow>
      MAX_REQUEST_HEAD - length (head @ chunk) < MAX_REQUEST_HEAD - length head"
    by (auto intro!: diff_less_mono2)
  then show ?case
    using less.hyps [of "head @ chunk" s1] chunk by (subst read_head_loop.simps) auto
qed

text \<open>
  (C25) The head of a request is read within bounds and nothing is lost. On a stream that delivers its bytes
  in any chunks and does not fail, \<open>read_request_head\<close> returns; whenever it returns, what it read and
  what is left on the stream are together exactly what was there, the head is shorter than 16 KiB plus one
  chunk, and it stopped because the blank line is in, the limit is reached or the stream has ended.
\<close>

theorem request_head_bounded:
  "(ch_fails s \<or> (\<exists>head s'. read_request_head chunked_read s = (Inr head, s'))) \<and>
   (\<forall>head s'. read_request_head chunked_read s = (Inr head, s') \<longrightarrow>
      chunked_content s = head @ chunked_content s' \<and> length head < 16 * 1024 + 2048 \<and>
      (head_complete head \<or> 16 * 1024 \<le> length head \<or> chunked_content s' = []))"
  using chunked_head_ok [of s "[]"] chunked.read_head_loop_spec [of "[]" s]
  by (auto simp: read_request_head_def MAX_REQUEST_HEAD_def)

text \<open>
  The websocket handshake sees the original stream. After the head has been read, a client that reads
  from the replaying stream with buffers of any sizes gets exactly the first bytes of what the peer
  sent, the head included, in order, and what it has not read yet is the rest.
\<close>

theorem replay_transparent:
  assumes "read_request_head chunked_read s = (Inr head, s')"
    and "read_seq (replay_read chunked_read) ns (ReplayStream_new head s') = (Inr bs, rs)"
  shows "chunked_content s = bs @ replay_content chunked_content rs"
proof -
  have "chunked_content s = head @ chunked_content s'"
    using assms(1) chunked.read_head_loop_spec [of "[]" s head s'] by (simp add: read_request_head_def MAX_REQUEST_HEAD_def)
  also have "\<dots> = replay_content chunked_content (ReplayStream_new head s')"
    by (simp add: chunked.replay_new_content)
  also have "\<dots> = bs @ replay_content chunked_content rs" using replayed.read_seq_content [OF assms(2)] .
  finally show ?thesis .
qed

definition demo_stream :: chunked where
  "demo_stream = \<lparr>ch_chunks = [[71, 69, 84], [], [13, 10, 13], [10, 1, 2], [3]], ch_fails = False\<rparr>"

lemma demo_head:
  "read_request_head chunked_read demo_stream =
     (Inr [71, 69, 84, 13, 10, 13, 10, 1, 2], \<lparr>ch_chunks = [[], [3]], ch_fails = False\<rparr>)"
  by code_simp

theorem replay_transparent_witness:
  "\<exists>rs. chunked_content demo_stream = [71, 69, 84, 13, 10, 13, 10, 1, 2, 3] @ replay_content chunked_content rs"
proof -
  have "\<exists>rs. read_seq (replay_read chunked_read) [4, 4, 4, 4]
      (ReplayStream_new [71, 69, 84, 13, 10, 13, 10, 1, 2] \<lparr>ch_chunks = [[], [3]], ch_fails = False\<rparr>) =
      (Inr [71, 69, 84, 13, 10, 13, 10, 1, 2, 3], rs)"
    by (simp add: ReplayStream_new_def replay_read_def chunked_read_def)
  then show ?thesis using replay_transparent [OF demo_head] by blast
qed

theorem request_head_bounded_witness:
  "chunked_content demo_stream = [71, 69, 84, 13, 10, 13, 10, 1, 2] @ chunked_content \<lparr>ch_chunks = [[], [3]], ch_fails = False\<rparr>"
  using request_head_bounded [of demo_stream] demo_head by blast

section \<open>Plain requests\<close>

text \<open>
  The \<open>http\<close> crate: whether a text is a method, whether bytes are a header value, the request its builder
  makes of a method, a target and headers, the entries of a header map in iteration order, and the
  canonical reason of a status.
\<close>

record http_lib =
  hx_method_ok :: "string \<Rightarrow> bool"
  hx_value_ok :: "bytes \<Rightarrow> bool"
  hx_build :: "string \<Rightarrow> string \<Rightarrow> (string \<times> bytes) list \<Rightarrow> request option"
  hx_entries :: "header_op list \<Rightarrow> (string \<times> bytes) list"
  hx_reason :: "nat \<Rightarrow> string option"

definition target_path :: "string \<Rightarrow> string" where
  "target_path target = takeWhile (\<lambda>c. c \<noteq> CHR ''?'' \<and> c \<noteq> CHR ''#'') target"

definition is_upgrade :: "ext \<Rightarrow> request \<Rightarrow> bool" where
  "is_upgrade x req =
     (case header_str x req ''upgrade'' of
        None \<Rightarrow> False
      | Some value \<Rightarrow> eq_ignore_ascii_case value ''websocket'')"

definition parse_plain_request ::
  "ext \<Rightarrow> head_parser \<Rightarrow> http_lib \<Rightarrow> bytes \<Rightarrow> request option" where
  "parse_plain_request x httparse hx head =
     (case httparse PROBE_MAX_HEADERS head of
        None \<Rightarrow> None
      | Some parsed \<Rightarrow>
     (case ph_method parsed of
        None \<Rightarrow> None
      | Some meth \<Rightarrow>
          if \<not> hx_method_ok hx meth then None
          else
     (case ph_path parsed of
        None \<Rightarrow> None
      | Some target \<Rightarrow>
          (let path = target_path target;
               is_health_check = (path = ''/'' \<and> (meth = ''GET'' \<or> meth = ''HEAD''))
           in if \<not> is_health_check \<and> strip_prefix ''/auth/'' path = None then None
              else if \<not> list_all (\<lambda>(name, value). hx_value_ok hx value) (ph_headers parsed) then None
              else
     (case hx_build hx meth target (ph_headers parsed) of
        None \<Rightarrow> None
      | Some request \<Rightarrow> if is_upgrade x request then None else Some request)))))"

definition health_check_response :: "string \<Rightarrow> response" where
  "health_check_response message =
     \<lparr>rs_status = 200, rs_headers = [HdrInsert ''content-type'' ''text/plain; charset=utf-8''],
      rs_body = Some message\<rparr>"

abbreviation crlf :: string where
  "crlf \<equiv> [CHR 0x0D, CHR 0x0A]"

definition header_lines :: "(string \<times> bytes) list \<Rightarrow> string" where
  "header_lines entries = concat (map (\<lambda>(name, value). name @ '': '' @ from_utf8_lossy value @ crlf) entries)"

text \<open>What \<open>write_response\<close> writes before it shuts the stream down.\<close>

definition write_response :: "http_lib \<Rightarrow> response \<Rightarrow> bool \<Rightarrow> string" where
  "write_response hx r include_body =
     (let body = (case rs_body r of None \<Rightarrow> [] | Some b \<Rightarrow> b);
          status = rs_status r
      in ''HTTP/1.1 '' @ show_nat status @ '' '' @ (case hx_reason hx status of None \<Rightarrow> [] | Some s \<Rightarrow> s) @ crlf @
         header_lines (hx_entries hx (rs_headers r)) @
         (if status \<noteq> 204 then ''content-length: '' @ show_nat (length body) @ crlf else []) @
         ''connection: close'' @ crlf @ crlf @
         (if include_body then body else []))"

lemmas [evals] = target_path_def is_upgrade_def parse_plain_request_def health_check_response_def
  header_lines_def write_response_def PROBE_MAX_HEADERS_def

text \<open>
  What is relied on: a built request answers with the method it was built with, with the path of its
  target when that starts with a slash, and with the first header of a name.
\<close>

definition http_ok :: "http_lib \<Rightarrow> bool" where
  "http_ok hx \<longleftrightarrow> (\<forall>m t hs req. hx_build hx m t hs = Some req \<longrightarrow>
     rq_method req = m \<and> (prefix ''/'' t \<longrightarrow> rq_path req = target_path t) \<and>
     (\<forall>name. rq_header req name =
        map_option snd (List.find (\<lambda>(n, v). eq_ignore_ascii_case n name) hs)))"

text \<open>The paths that are answered as plain HTTP, and a request that asks for a websocket.\<close>

definition plain_path :: "string \<Rightarrow> string \<Rightarrow> bool" where
  "plain_path meth path \<longleftrightarrow> path = ''/'' \<and> meth \<in> {''GET'', ''HEAD''} \<or> (\<exists>endpoint. path = ''/auth/'' @ endpoint)"

definition asks_websocket :: "ext \<Rightarrow> (string \<times> bytes) list \<Rightarrow> bool" where
  "asks_websocket x headers \<longleftrightarrow>
     (\<exists>before n v s after. headers = before @ (n, v) # after \<and> eq_ignore_ascii_case n ''upgrade'' \<and>
        (\<forall>(m, w) \<in> set before. \<not> eq_ignore_ascii_case m ''upgrade'') \<and>
        header_to_str x v = Some s \<and> eq_ignore_ascii_case s ''websocket'')"

lemma find_first:
  "List.find P xs = Some y \<longleftrightarrow> (\<exists>before after. xs = before @ y # after \<and> P y \<and> (\<forall>z \<in> set before. \<not> P z))"
proof
  assume "List.find P xs = Some y"
  then show "\<exists>before after. xs = before @ y # after \<and> P y \<and> (\<forall>z \<in> set before. \<not> P z)"
  proof (induction xs)
    case (Cons z zs)
    show ?case
    proof (cases "P z")
      case True
      with Cons.prems show ?thesis by (rule_tac exI [of _ "[]"], rule_tac exI [of _ zs]) simp
    next
      case False
      with Cons obtain before after where "zs = before @ y # after" "P y" "\<forall>z \<in> set before. \<not> P z" by auto
      with False show ?thesis by (rule_tac exI [of _ "z # before"], rule_tac exI [of _ after]) simp
    qed
  qed simp
next
  assume "\<exists>before after. xs = before @ y # after \<and> P y \<and> (\<forall>z \<in> set before. \<not> P z)"
  then obtain before after where "xs = before @ y # after" "P y" "\<forall>z \<in> set before. \<not> P z" by blast
  then show "List.find P xs = Some y" by (induction before arbitrary: xs) auto
qed

lemma is_upgrade_asks:
  assumes "\<forall>name. rq_header req name = map_option snd (List.find (\<lambda>(n, v). eq_ignore_ascii_case n name) headers)"
  shows "is_upgrade x req \<longleftrightarrow> asks_websocket x headers"
proof -
  have "is_upgrade x req \<longleftrightarrow> (\<exists>n v s. List.find (\<lambda>(n, v). eq_ignore_ascii_case n ''upgrade'') headers = Some (n, v) \<and>
      header_to_str x v = Some s \<and> eq_ignore_ascii_case s ''websocket'')"
    by (auto simp: is_upgrade_def header_str_def assms split: option.splits)
  then show ?thesis unfolding asks_websocket_def find_first by fastforce
qed

lemma plain_path_eq:
  "plain_path m p \<longleftrightarrow> p = ''/'' \<and> (m = ''GET'' \<or> m = ''HEAD'') \<or> strip_prefix ''/auth/'' p \<noteq> None"
  by (auto simp: plain_path_def strip_prefix_def prefix_def)

text \<open>
  (C33) Exactly which requests are answered as plain HTTP. A head is answered when \<open>httparse\<close> reads it completely with at
  most 64 headers, the request can be built of it, its path, without query and fragment, is \<open>/\<close> with \<open>GET\<close> or
  \<open>HEAD\<close> or begins with \<open>/auth/\<close> with any method, and its first \<open>Upgrade\<close> header does not name \<open>websocket\<close>; the request
  then has the method and the path on the wire. Everything else is left to the handshake.
\<close>

theorem plain_request_exact:
  assumes "http_ok hx"
  shows "parse_plain_request x httparse hx head = Some req \<longleftrightarrow>
    (\<exists>parsed m t. httparse 64 head = Some parsed \<and> ph_method parsed = Some m \<and> ph_path parsed = Some t \<and>
       hx_method_ok hx m \<and> (\<forall>(n, v) \<in> set (ph_headers parsed). hx_value_ok hx v) \<and>
       hx_build hx m t (ph_headers parsed) = Some req \<and>
       plain_path m (takeWhile (\<lambda>c. c \<noteq> CHR ''?'' \<and> c \<noteq> CHR ''#'') t) \<and> \<not> asks_websocket x (ph_headers parsed) \<and>
       rq_method req = m \<and> rq_path req = takeWhile (\<lambda>c. c \<noteq> CHR ''?'' \<and> c \<noteq> CHR ''#'') t)"
proof -
  have built: "rq_method req = m" "is_upgrade x req \<longleftrightarrow> asks_websocket x headers" "prefix ''/'' t \<Longrightarrow> rq_path req = target_path t"
    if "hx_build hx m t headers = Some req" for m t headers
  proof -
    from assms that have "\<forall>name. rq_header req name = map_option snd (List.find (\<lambda>(n, v). eq_ignore_ascii_case n name) headers)"
      unfolding http_ok_def by blast
    then show "is_upgrade x req \<longleftrightarrow> asks_websocket x headers" by (rule is_upgrade_asks)
    show "rq_method req = m" "prefix ''/'' t \<Longrightarrow> rq_path req = target_path t"
      using assms that unfolding http_ok_def by blast+
  qed
  have slash: "prefix ''/'' t" if "plain_path m (target_path t)" for m t
  proof -
    have "prefix ''/'' (target_path t)" using that by (auto simp: plain_path_def prefix_def)
    moreover have "prefix (target_path t) t" unfolding target_path_def by (metis prefixI takeWhile_dropWhile_id)
    ultimately show ?thesis by (rule prefix_order.trans)
  qed
  have "parse_plain_request x httparse hx head = Some req \<longleftrightarrow>
    (\<exists>parsed m t. httparse PROBE_MAX_HEADERS head = Some parsed \<and> ph_method parsed = Some m \<and> ph_path parsed = Some t \<and>
       hx_method_ok hx m \<and> plain_path m (target_path t) \<and> list_all (\<lambda>(n, v). hx_value_ok hx v) (ph_headers parsed) \<and>
       hx_build hx m t (ph_headers parsed) = Some req \<and> \<not> is_upgrade x req)"
    by (auto simp: parse_plain_request_def plain_path_eq Let_def split: option.splits)
  then show ?thesis
    unfolding PROBE_MAX_HEADERS_def list_all_iff target_path_def [symmetric] using built slash by metis
qed

text \<open>A library that does this, and a parser that knows one request.\<close>

definition demo_http :: http_lib where
  "demo_http = \<lparr>hx_method_ok = (\<lambda>_. True), hx_value_ok = (\<lambda>_. True),
     hx_build = (\<lambda>m t hs. Some \<lparr>rq_method = m, rq_path = target_path t,
       rq_header = (\<lambda>name. map_option snd (List.find (\<lambda>(n, v). eq_ignore_ascii_case n name) hs))\<rparr>),
     hx_entries = List.map_filter (\<lambda>op. case op of HdrInsert n v \<Rightarrow> Some (n, as_bytes v) | HdrAppend n v \<Rightarrow> Some (n, as_bytes v)),
     hx_reason = (\<lambda>n. if n = 200 then Some ''OK'' else None)\<rparr>"

lemma demo_http_ok: "http_ok demo_http"
  by (auto simp: http_ok_def demo_http_def)

definition demo_head_parser :: head_parser where
  "demo_head_parser n head = Some \<lparr>ph_method = Some ''HEAD'', ph_path = Some ''/?probe'',
     ph_headers = [(''Host'', as_bytes ''h'')]\<rparr>"

lemma demo_plain:
  "\<exists>req. parse_plain_request demo_ext demo_head_parser demo_http [] = Some req \<and> rq_path req = ''/''"
proof -
  have "case parse_plain_request demo_ext demo_head_parser demo_http [] of Some req \<Rightarrow> rq_path req = ''/'' | None \<Rightarrow> False"
    by code_simp
  then show ?thesis by (auto split: option.splits)
qed

theorem plain_request_exact_witness:
  "\<exists>req. parse_plain_request demo_ext demo_head_parser demo_http [] = Some req \<and> rq_method req = ''HEAD''"
proof -
  obtain req where "parse_plain_request demo_ext demo_head_parser demo_http [] = Some req"
    using demo_plain by blast
  with plain_request_exact [OF demo_http_ok, THEN iffD1, OF this] show ?thesis by (auto simp: demo_head_parser_def)
qed

section \<open>Responses on the wire\<close>

definition response_lines :: "http_lib \<Rightarrow> response \<Rightarrow> string list" where
  "response_lines hx r =
     [''HTTP/1.1 '' @ show_nat (rs_status r) @ '' '' @ (case hx_reason hx (rs_status r) of None \<Rightarrow> [] | Some s \<Rightarrow> s)] @
     map (\<lambda>(name, value). name @ '': '' @ from_utf8_lossy value) (hx_entries hx (rs_headers r)) @
     (if rs_status r \<noteq> 204
      then [''content-length: '' @ show_nat (length (case rs_body r of None \<Rightarrow> [] | Some b \<Rightarrow> b))] else []) @
     [''connection: close'']"

fun join_lines :: "string list \<Rightarrow> string" where
  "join_lines [] = []"
| "join_lines [l] = l"
| "join_lines (l # ls) = l @ crlf @ join_lines ls"

lemma write_response_lines:
  "write_response hx r b = concat (map (\<lambda>l. l @ crlf) (response_lines hx r)) @ crlf @
     (if b then (case rs_body r of None \<Rightarrow> [] | Some body \<Rightarrow> body) else [])"
  by (simp add: write_response_def response_lines_def header_lines_def Let_def split_def comp_def)

lemma split_once_skip:
  "c \<notin> set l \<Longrightarrow> split_once (c # p) (l @ s) = map_option (\<lambda>(a, b). (l @ a, b)) (split_once (c # p) s)"
  by (cases "split_once (c # p) s"; induction l; auto)

lemma split_blank_line:
  assumes "\<forall>l \<in> set ls. l \<noteq> [] \<and> CHR 0x0D \<notin> set l" and "ls \<noteq> []"
  shows "split_once (crlf @ crlf) (concat (map (\<lambda>l. l @ crlf) ls) @ crlf @ body) = Some (join_lines ls, body)"
  using assms
proof (induction ls rule: join_lines.induct)
  case (2 l)
  then show ?case by (simp add: split_once_skip prefix_def)
next
  case (3 l l' ls)
  obtain c l'' where l': "l' = c # l''" "c \<noteq> CHR 0x0D" using 3(2) by (cases l') auto
  have IH: "split_once (crlf @ crlf) (concat (map (\<lambda>l. l @ crlf) (l' # ls)) @ crlf @ body) =
      Some (join_lines (l' # ls), body)"
    using 3 by auto
  have "split_once (crlf @ crlf) (crlf @ (c # t)) = map_option (\<lambda>(a, b). (crlf @ a, b)) (split_once (crlf @ crlf) (c # t))" for t
    using l'(2) by (auto simp: prefix_def option.map_comp comp_def split_beta)
  then show ?case
    using IH 3(2) by (simp add: split_once_skip l')
qed simp

lemma split_colon_unique: "CHR '':'' \<notin> set a \<Longrightarrow> CHR '':'' \<notin> set b \<Longrightarrow> a @ CHR '':'' # s = b @ CHR '':'' # t \<Longrightarrow> a = b"
  by (metis option.inject prod.inject split_once_char_notin)

text \<open>
  A response is one well-framed message. As long as the reason and the headers hold no carriage return,
  what is written splits at its first blank line into the lines of the head and exactly the body, or
  nothing when the body is left out; and the head announces the length of the body in bytes (left out
  or not), unless the status is \<open>204\<close>, when it announces none.
\<close>

theorem response_framed:
  assumes "\<forall>l \<in> set (response_lines hx r). CHR 0x0D \<notin> set l"
    and "\<forall>(name, value) \<in> set (hx_entries hx (rs_headers r)). CHR '':'' \<notin> set name \<and> name \<noteq> ''content-length''"
  shows "split_once (crlf @ crlf) (write_response hx r include_body) =
      Some (join_lines (response_lines hx r),
        if include_body then (case rs_body r of None \<Rightarrow> [] | Some body \<Rightarrow> body) else []) \<and>
    (if rs_status r = 204 then \<forall>n. ''content-length: '' @ show_nat n \<notin> set (response_lines hx r)
     else ''content-length: '' @ show_nat (length (case rs_body r of None \<Rightarrow> [] | Some body \<Rightarrow> body))
       \<in> set (response_lines hx r))"
proof
  have "\<forall>l \<in> set (response_lines hx r). l \<noteq> []" "response_lines hx r \<noteq> []"
    by (auto simp: response_lines_def)
  then show "split_once (crlf @ crlf) (write_response hx r include_body) =
      Some (join_lines (response_lines hx r),
        if include_body then (case rs_body r of None \<Rightarrow> [] | Some body \<Rightarrow> body) else [])"
    unfolding write_response_lines using assms(1) by (intro split_blank_line) auto
  have "''content-length: '' @ n \<noteq> name @ '': '' @ v" if "(name, w) \<in> set (hx_entries hx (rs_headers r))" for name w v n
    using that assms(2) split_colon_unique [of name "''content-length''" "'' '' @ v" "'' '' @ n"] by auto
  then show "if rs_status r = 204 then \<forall>n. ''content-length: '' @ show_nat n \<notin> set (response_lines hx r)
     else ''content-length: '' @ show_nat (length (case rs_body r of None \<Rightarrow> [] | Some body \<Rightarrow> body))
       \<in> set (response_lines hx r)"
    by (auto simp: response_lines_def)
qed

theorem response_framed_witness:
  "\<exists>head. split_once (crlf @ crlf) (write_response demo_http (health_check_response ''ok'') True) = Some (head, ''ok'')"
proof -
  let ?r = "health_check_response ''ok''"
  have "\<forall>l \<in> set (response_lines demo_http ?r). CHR 0x0D \<notin> set l"
    "\<forall>(name, value) \<in> set (hx_entries demo_http (rs_headers ?r)). CHR '':'' \<notin> set name \<and> name \<noteq> ''content-length''"
    by code_simp+
  from response_framed [OF this, of True] show ?thesis by (simp add: health_check_response_def)
qed

end
