(* ===== verification/Relay.thy ===== *)
theory Relay
  imports HttpProbe RustColl
begin

text \<open>
  The relays of \<open>src/proxy.rs\<close>: \<open>proxy_tcp\<close> and \<open>proxy_udp\<close>. Each is a loop around \<open>select!\<close>; a step is
  one turn of the loop, and a schedule says for every turn which branch completes first and how the
  write it triggers ends. What the other side has in store (websocket messages, the bytes or the
  datagrams of the upstream) and everything written so far are part of the state.

  A schedule is finite: it says what has happened so far. A side that it does not choose is open and idle, for
  as long as one likes; when a turn chooses a side of TCP, or the websocket of UDP, that has nothing left, that side
  has been closed. TCP has no idle timeout, so a TCP relay with idle peers stays as it is. Writes have no timeout in
  either relay: a write that never ends is a schedule that stops before its turn, and time spent in a write
  is counted nowhere.
\<close>

section \<open>Messages\<close>

datatype message = Binary bytes | Text string | Ping bytes | Pong bytes | Frame bytes
  | Close "(u16 \<times> string) option"

text \<open>What \<open>ws_reader.next()\<close> can answer; an empty inbox answers \<open>None\<close>.\<close>

datatype ws_event = WsMessage message | WsError

text \<open>How a write ends; a broken write to TCP may have written some bytes.\<close>

datatype write_result = Written | Broken nat

datatype relay_error = WriteTcp | SendPong | ShutdownTcp | ReadWs | ReadTcp | SendWs | SendUdp | ReadUdp

datatype relay_status = Running | Done | Failed relay_error

section \<open>TCP\<close>

record 's tcp_relay =
  tr_inbox :: "ws_event list"
  tr_upstream :: 's
  tr_to_tcp :: bytes
  tr_shutdown :: bool
  tr_to_ws :: "message list"
  tr_status :: relay_status

datatype tcp_choice = FromWs write_result | FromTcp write_result

definition write_tcp :: "write_result \<Rightarrow> bytes \<Rightarrow> 's tcp_relay \<Rightarrow> 's tcp_relay" where
  "write_tcp w bs st =
     (case w of
        Written \<Rightarrow> st\<lparr>tr_to_tcp := tr_to_tcp st @ bs\<rparr>
      | Broken k \<Rightarrow> st\<lparr>tr_to_tcp := tr_to_tcp st @ take k bs, tr_status := Failed WriteTcp\<rparr>)"

definition send_ws :: "write_result \<Rightarrow> message \<Rightarrow> relay_error \<Rightarrow> 's tcp_relay \<Rightarrow> 's tcp_relay" where
  "send_ws w m err st =
     (case w of
        Written \<Rightarrow> st\<lparr>tr_to_ws := tr_to_ws st @ [m]\<rparr>
      | Broken _ \<Rightarrow> st\<lparr>tr_status := Failed err\<rparr>)"

definition shutdown_tcp :: "write_result \<Rightarrow> 's tcp_relay \<Rightarrow> 's tcp_relay" where
  "shutdown_tcp w st =
     (case w of
        Written \<Rightarrow> st\<lparr>tr_shutdown := True, tr_status := Done\<rparr>
      | Broken _ \<Rightarrow> st\<lparr>tr_status := Failed ShutdownTcp\<rparr>)"

fun tcp_step :: "'s reader \<Rightarrow> nat \<Rightarrow> tcp_choice \<Rightarrow> 's tcp_relay \<Rightarrow> 's tcp_relay" where
  "tcp_step read buffer_size (FromWs w) st =
     (case tr_inbox st of
        [] \<Rightarrow> shutdown_tcp w st
      | WsError # inbox \<Rightarrow> st\<lparr>tr_inbox := inbox, tr_status := Failed ReadWs\<rparr>
      | WsMessage m # inbox \<Rightarrow>
          (let st = st\<lparr>tr_inbox := inbox\<rparr>
           in case m of
                Binary bs \<Rightarrow> write_tcp w bs st
              | Text text \<Rightarrow> write_tcp w (as_bytes text) st
              | Ping payload \<Rightarrow> send_ws w (Pong payload) SendPong st
              | Pong _ \<Rightarrow> st
              | Frame _ \<Rightarrow> st
              | Close _ \<Rightarrow> shutdown_tcp w st))"
| "tcp_step read buffer_size (FromTcp w) st =
     (case read buffer_size (tr_upstream st) of
        (Inl _, upstream) \<Rightarrow> st\<lparr>tr_upstream := upstream, tr_status := Failed ReadTcp\<rparr>
      | (Inr bs, upstream) \<Rightarrow>
          (let st = st\<lparr>tr_upstream := upstream\<rparr>
           in if bs = []
              then st\<lparr>tr_to_ws := tr_to_ws st @ (if w = Written then [Close None] else []), tr_status := Done\<rparr>
              else send_ws w (Binary bs) SendWs st))"

fun tcp_run :: "'s reader \<Rightarrow> nat \<Rightarrow> tcp_choice list \<Rightarrow> 's tcp_relay \<Rightarrow> 's tcp_relay" where
  "tcp_run read buffer_size [] st = st"
| "tcp_run read buffer_size (c # cs) st =
     (if tr_status st = Running then tcp_run read buffer_size cs (tcp_step read buffer_size c st) else st)"

definition proxy_tcp :: "'s reader \<Rightarrow> nat \<Rightarrow> ws_event list \<Rightarrow> 's \<Rightarrow> tcp_choice list \<Rightarrow> 's tcp_relay" where
  "proxy_tcp read buffer_size inbox upstream schedule =
     tcp_run read buffer_size schedule
       \<lparr>tr_inbox = inbox, tr_upstream = upstream, tr_to_tcp = [], tr_shutdown = False, tr_to_ws = [],
        tr_status = Running\<rparr>"

section \<open>UDP\<close>

definition UDP_DATAGRAM_BUFFER :: nat where "UDP_DATAGRAM_BUFFER = 65536"

text \<open>
  The upstream's datagrams (\<open>None\<close>: \<open>recv\<close> fails), the datagrams sent, and the time spent waiting for events;
  the time that writes take, which no timeout limits, comes on top of it.
\<close>

record udp_relay =
  ur_inbox :: "ws_event list"
  ur_upstream :: "bytes option list"
  ur_to_udp :: "bytes list"
  ur_to_ws :: "message list"
  ur_waited :: duration
  ur_status :: relay_status

text \<open>
  One turn of the loop: both branches wait under a fresh timeout, so the first event decides. It arrives
  after some delay, from the websocket or from the upstream.
\<close>

datatype udp_source = WsSide | UdpSide

definition udp_send :: "write_result \<Rightarrow> bytes \<Rightarrow> udp_relay \<Rightarrow> udp_relay" where
  "udp_send w bs st =
     (case w of
        Written \<Rightarrow> st\<lparr>ur_to_udp := ur_to_udp st @ [bs]\<rparr>
      | Broken _ \<Rightarrow> st\<lparr>ur_status := Failed SendUdp\<rparr>)"

definition udp_send_ws :: "write_result \<Rightarrow> message \<Rightarrow> relay_error \<Rightarrow> udp_relay \<Rightarrow> udp_relay" where
  "udp_send_ws w m err st =
     (case w of
        Written \<Rightarrow> st\<lparr>ur_to_ws := ur_to_ws st @ [m]\<rparr>
      | Broken _ \<Rightarrow> st\<lparr>ur_status := Failed err\<rparr>)"

definition udp_from_ws :: "write_result \<Rightarrow> udp_relay \<Rightarrow> udp_relay" where
  "udp_from_ws w st =
     (case ur_inbox st of
        [] \<Rightarrow> st\<lparr>ur_status := Done\<rparr>
      | WsError # inbox \<Rightarrow> st\<lparr>ur_inbox := inbox, ur_status := Failed ReadWs\<rparr>
      | WsMessage m # inbox \<Rightarrow>
          (let st = st\<lparr>ur_inbox := inbox\<rparr>
           in case m of
                Binary bs \<Rightarrow> udp_send w bs st
              | Text text \<Rightarrow> udp_send w (as_bytes text) st
              | Ping payload \<Rightarrow> udp_send_ws w (Pong payload) SendPong st
              | Pong _ \<Rightarrow> st
              | Frame _ \<Rightarrow> st
              | Close _ \<Rightarrow> st\<lparr>ur_status := Done\<rparr>))"

definition udp_from_upstream :: "write_result \<Rightarrow> udp_relay \<Rightarrow> udp_relay" where
  "udp_from_upstream w st =
     (case ur_upstream st of
        [] \<Rightarrow> st
      | None # upstream \<Rightarrow> st\<lparr>ur_upstream := upstream, ur_status := Failed ReadUdp\<rparr>
      | Some datagram # upstream \<Rightarrow>
          udp_send_ws w (Binary (take UDP_DATAGRAM_BUFFER datagram)) SendWs (st\<lparr>ur_upstream := upstream\<rparr>))"

definition udp_idle :: "duration \<Rightarrow> write_result \<Rightarrow> udp_relay \<Rightarrow> udp_relay" where
  "udp_idle idle_timeout w st =
     st\<lparr>ur_waited := ur_waited st + idle_timeout,
        ur_to_ws := ur_to_ws st @ (if w = Written then [Close None] else []), ur_status := Done\<rparr>"

text \<open>
  The timeout fires when the first event comes too late, and when none can come: the choice is the
  upstream, and it has nothing in store.
\<close>

fun udp_step :: "duration \<Rightarrow> duration \<times> udp_source \<times> write_result \<Rightarrow> udp_relay \<Rightarrow> udp_relay" where
  "udp_step idle_timeout (delay, source, w) st =
     (if idle_timeout \<le> delay \<or> (source = UdpSide \<and> ur_upstream st = []) then udp_idle idle_timeout w st
      else (let st = st\<lparr>ur_waited := ur_waited st + delay\<rparr>
            in case source of
                 WsSide \<Rightarrow> udp_from_ws w st
               | UdpSide \<Rightarrow> udp_from_upstream w st))"

fun udp_run :: "duration \<Rightarrow> (duration \<times> udp_source \<times> write_result) list \<Rightarrow> udp_relay \<Rightarrow> udp_relay" where
  "udp_run idle_timeout [] st = st"
| "udp_run idle_timeout (c # cs) st =
     (if ur_status st = Running then udp_run idle_timeout cs (udp_step idle_timeout c st) else st)"

definition proxy_udp ::
  "duration \<Rightarrow> ws_event list \<Rightarrow> bytes option list \<Rightarrow> (duration \<times> udp_source \<times> write_result) list \<Rightarrow> udp_relay" where
  "proxy_udp idle_timeout inbox upstream schedule =
     udp_run idle_timeout schedule
       \<lparr>ur_inbox = inbox, ur_upstream = upstream, ur_to_udp = [], ur_to_ws = [], ur_waited = 0,
        ur_status = Running\<rparr>"

lemmas [evals] = write_tcp_def send_ws_def shutdown_tcp_def proxy_tcp_def UDP_DATAGRAM_BUFFER_def
  udp_send_def udp_send_ws_def udp_from_ws_def udp_from_upstream_def udp_idle_def proxy_udp_def

section \<open>What the TCP relay keeps\<close>

text \<open>The bytes a websocket event carries to the upstream, and the pong it calls for.\<close>

fun payload :: "ws_event \<Rightarrow> bytes" where
  "payload (WsMessage (Binary bs)) = bs"
| "payload (WsMessage (Text t)) = as_bytes t"
| "payload _ = []"

fun pongs :: "ws_event \<Rightarrow> bytes list" where
  "pongs (WsMessage (Ping p)) = [p]"
| "pongs _ = []"

fun data_of :: "message \<Rightarrow> bytes" where
  "data_of (Binary bs) = bs"
| "data_of _ = []"

fun pong_of :: "message \<Rightarrow> bytes list" where
  "pong_of (Pong p) = [p]"
| "pong_of _ = []"

definition closing :: "ws_event \<Rightarrow> bool" where
  "closing ev \<longleftrightarrow> (\<exists>f. ev = WsMessage (Close f))"

text \<open>
  The invariant in two halves. Towards the upstream, for the inbox at the start: \<open>taken\<close> are the
  websocket events handled so far. Towards the client, for the content of the upstream at the start.
\<close>

definition inbound_inv :: "ws_event list \<Rightarrow> 's tcp_relay \<Rightarrow> bool" where
  "inbound_inv inbox st \<longleftrightarrow>
     (\<exists>taken. inbox = taken @ tr_inbox st \<and>
        prefix (tr_to_tcp st) (concat (map payload taken)) \<and>
        (tr_status st \<noteq> Failed WriteTcp \<longrightarrow> tr_to_tcp st = concat (map payload taken)) \<and>
        prefix (concat (map pong_of (tr_to_ws st))) (concat (map pongs taken)) \<and>
        (tr_status st \<noteq> Failed SendPong \<longrightarrow> concat (map pong_of (tr_to_ws st)) = concat (map pongs taken)) \<and>
        (tr_shutdown st \<longrightarrow> tr_inbox st = [] \<or> (\<exists>ev \<in> set taken. closing ev)))"

definition outbound_inv :: "('s \<Rightarrow> bytes) \<Rightarrow> nat \<Rightarrow> bytes \<Rightarrow> 's tcp_relay \<Rightarrow> bool" where
  "outbound_inv content buffer_size up st \<longleftrightarrow>
     prefix (concat (map data_of (tr_to_ws st))) up \<and>
     (tr_status st \<notin> {Failed SendWs, Failed ReadTcp} \<longrightarrow>
        up = concat (map data_of (tr_to_ws st)) @ content (tr_upstream st)) \<and>
     (\<forall>bs. Binary bs \<in> set (tr_to_ws st) \<longrightarrow> bs \<noteq> [] \<and> length bs \<le> buffer_size) \<and>
     (tr_status st = Done \<longrightarrow> tr_shutdown st \<or> (0 < buffer_size \<longrightarrow> content (tr_upstream st) = []))"

lemma inbound_take:
  assumes "inbound_inv inbox st" and "tr_status st = Running" and "tr_inbox st = ev # rest"
  shows "\<exists>taken. inbox = taken @ [ev] @ rest \<and> tr_to_tcp st = concat (map payload taken) \<and>
    concat (map pong_of (tr_to_ws st)) = concat (map pongs taken) \<and>
    (tr_shutdown st \<longrightarrow> (\<exists>ev \<in> set taken. closing ev))"
  using assms by (auto simp: inbound_inv_def)

lemma inbound_step:
  assumes inv: "inbound_inv inbox st" and run: "tr_status st = Running"
  shows "inbound_inv inbox (tcp_step read n c st)"
proof (cases c)
  case (FromTcp w)
  obtain r u where r: "read n (tr_upstream st) = (r, u)" by fastforce
  show ?thesis
    using inv run FromTcp r
    by (cases r; cases w) (auto simp: inbound_inv_def send_ws_def Let_def)
next
  case (FromWs w)
  show ?thesis
  proof (cases "tr_inbox st")
    case Nil
    with inv run FromWs show ?thesis by (cases w) (auto simp: inbound_inv_def shutdown_tcp_def)
  next
    case (Cons ev rest)
    obtain taken where taken: "inbox = taken @ [ev] @ rest" "tr_to_tcp st = concat (map payload taken)"
      "concat (map pong_of (tr_to_ws st)) = concat (map pongs taken)"
      "tr_shutdown st \<longrightarrow> (\<exists>ev \<in> set taken. closing ev)"
      using inbound_take [OF inv run Cons] by blast
    show ?thesis
      unfolding inbound_inv_def
      by (rule exI [of _ "taken @ [ev]"])
        (use FromWs Cons taken run in \<open>auto simp: write_tcp_def send_ws_def shutdown_tcp_def closing_def Let_def take_is_prefix
          split: ws_event.splits message.splits write_result.splits\<close>)
  qed
qed

context byte_source
begin

lemma outbound_step:
  assumes inv: "outbound_inv content n up st" and run: "tr_status st = Running"
  shows "outbound_inv content n up (tcp_step read n c st)"
proof (cases c)
  case (FromWs w)
  then show ?thesis
    using inv run
    by (auto simp: outbound_inv_def write_tcp_def send_ws_def shutdown_tcp_def Let_def
        split: list.splits ws_event.splits message.splits write_result.splits)
next
  case (FromTcp w)
  obtain r u where r: "read n (tr_upstream st) = (r, u)" by fastforce
  show ?thesis
  proof (cases r)
    case (Inl e)
    with inv run FromTcp r show ?thesis by (simp add: outbound_inv_def)
  next
    case (Inr bs)
    then have "content (tr_upstream st) = bs @ content u" "length bs \<le> n"
      "bs = [] \<Longrightarrow> 0 < n \<Longrightarrow> content (tr_upstream st) = []"
      using r read_content read_bound read_end by blast+
    with Inr inv run FromTcp r show ?thesis
      by (cases w) (auto simp: outbound_inv_def send_ws_def Let_def)
  qed
qed

lemma tcp_run_inv:
  "inbound_inv inbox st \<Longrightarrow> outbound_inv content n up st \<Longrightarrow>
     inbound_inv inbox (tcp_run read n cs st) \<and> outbound_inv content n up (tcp_run read n cs st)"
  by (induction cs arbitrary: st) (auto simp: inbound_step outbound_step)

lemma proxy_tcp_inv:
  "inbound_inv inbox (proxy_tcp read n inbox s cs) \<and> outbound_inv content n (content s) (proxy_tcp read n inbox s cs)"
  unfolding proxy_tcp_def by (rule tcp_run_inv) (auto simp: inbound_inv_def outbound_inv_def)

end

section \<open>Properties of the TCP relay\<close>

text \<open>
  (C6) Towards the upstream the TCP relay is faithful. Whatever the client sends, however the two branches
  are scheduled and whichever writes fail, the websocket events handled are the first ones of the inbox in
  order, and what has been written to the upstream is the concatenation of the payloads of exactly those
  (a prefix of it after a failed write); every ping handled is answered by a pong with its payload, in
  order; and the upstream's write side is shut down only at a close message or the end of the websocket.
\<close>

theorem tcp_relay_upstream_faithful:
  "\<exists>taken. inbox = taken @ tr_inbox (proxy_tcp chunked_read n inbox s cs) \<and>
     prefix (tr_to_tcp (proxy_tcp chunked_read n inbox s cs)) (concat (map payload taken)) \<and>
     (tr_status (proxy_tcp chunked_read n inbox s cs) \<noteq> Failed WriteTcp \<longrightarrow>
        tr_to_tcp (proxy_tcp chunked_read n inbox s cs) = concat (map payload taken)) \<and>
     prefix (concat (map pong_of (tr_to_ws (proxy_tcp chunked_read n inbox s cs)))) (concat (map pongs taken)) \<and>
     (tr_status (proxy_tcp chunked_read n inbox s cs) \<noteq> Failed SendPong \<longrightarrow>
        concat (map pong_of (tr_to_ws (proxy_tcp chunked_read n inbox s cs))) = concat (map pongs taken)) \<and>
     (tr_shutdown (proxy_tcp chunked_read n inbox s cs) \<longrightarrow>
        tr_inbox (proxy_tcp chunked_read n inbox s cs) = [] \<or> (\<exists>ev \<in> set taken. closing ev))"
  by (rule chunked.proxy_tcp_inv [THEN conjunct1, unfolded inbound_inv_def])

text \<open>
  (C5) Towards the client the TCP relay is faithful. The binary messages sent to the client are never empty
  and never larger than the buffer, and their concatenation is the first part of what the upstream sent;
  unless sending to the client or reading from the upstream failed, the rest is still to be read, so
  nothing is lost or reordered. When the relay ends in good order, the websocket was closed first or
  everything from the upstream has been passed on.
\<close>

theorem tcp_relay_client_faithful:
  "prefix (concat (map data_of (tr_to_ws (proxy_tcp chunked_read n inbox s cs)))) (chunked_content s) \<and>
   (tr_status (proxy_tcp chunked_read n inbox s cs) \<notin> {Failed SendWs, Failed ReadTcp} \<longrightarrow>
      chunked_content s = concat (map data_of (tr_to_ws (proxy_tcp chunked_read n inbox s cs)))
        @ chunked_content (tr_upstream (proxy_tcp chunked_read n inbox s cs))) \<and>
   (\<forall>bs. Binary bs \<in> set (tr_to_ws (proxy_tcp chunked_read n inbox s cs)) \<longrightarrow> bs \<noteq> [] \<and> length bs \<le> n) \<and>
   (tr_status (proxy_tcp chunked_read n inbox s cs) = Done \<longrightarrow>
      tr_shutdown (proxy_tcp chunked_read n inbox s cs) \<or>
      (0 < n \<longrightarrow> chunked_content (tr_upstream (proxy_tcp chunked_read n inbox s cs)) = []))"
  by (rule chunked.proxy_tcp_inv [THEN conjunct2, unfolded outbound_inv_def])

text \<open>A session: two messages and a ping from the client, a chunked answer from the upstream.\<close>

definition demo_inbox :: "ws_event list" where
  "demo_inbox = [WsMessage (Text ''hi''), WsMessage (Ping [9]), WsMessage (Binary [1, 2]), WsMessage (Close None)]"

definition demo_upstream :: chunked where
  "demo_upstream = \<lparr>ch_chunks = [[7, 8, 9], [10]], ch_fails = False\<rparr>"

definition demo_schedule :: "tcp_choice list" where
  "demo_schedule = [FromWs Written, FromTcp Written, FromWs Written, FromTcp Written, FromWs Written,
     FromTcp Written, FromTcp Written]"

lemma demo_session:
  "tr_status (proxy_tcp chunked_read 2 demo_inbox demo_upstream demo_schedule) = Done"
  "tr_inbox (proxy_tcp chunked_read 2 demo_inbox demo_upstream demo_schedule) = [WsMessage (Close None)]"
  "tr_shutdown (proxy_tcp chunked_read 2 demo_inbox demo_upstream demo_schedule) = False"
  by code_simp+

theorem tcp_relay_upstream_faithful_witness:
  "tr_to_tcp (proxy_tcp chunked_read 2 demo_inbox demo_upstream demo_schedule) =
     concat (map payload [WsMessage (Text ''hi''), WsMessage (Ping [9]), WsMessage (Binary [1, 2])])"
proof -
  let ?st = "proxy_tcp chunked_read 2 demo_inbox demo_upstream demo_schedule"
  let ?first = "[WsMessage (Text ''hi''), WsMessage (Ping [9]), WsMessage (Binary [1, 2])]"
  obtain taken where "demo_inbox = taken @ tr_inbox ?st"
    and "tr_status ?st \<noteq> Failed WriteTcp \<longrightarrow> tr_to_tcp ?st = concat (map payload taken)"
    using tcp_relay_upstream_faithful [of demo_inbox 2 demo_upstream demo_schedule] by blast
  moreover have "demo_inbox = ?first @ [WsMessage (Close None)]" by (simp add: demo_inbox_def)
  ultimately show ?thesis unfolding demo_session by (metis append_same_eq relay_status.distinct(5))
qed

theorem tcp_relay_client_faithful_witness:
  "chunked_content (tr_upstream (proxy_tcp chunked_read 2 demo_inbox demo_upstream demo_schedule)) = []"
  using tcp_relay_client_faithful [of 2 demo_inbox demo_upstream demo_schedule] by (simp add: demo_session)

section \<open>The TCP relay makes progress\<close>

lemma drain_upstream:
  assumes "\<not> ch_fails (tr_upstream st)" and "0 < n" and "tr_status st = Running"
    and "length (chunked_content (tr_upstream st)) < k"
  shows "tr_status (tcp_run chunked_read n (replicate k (FromTcp Written)) st) = Done \<and>
    (\<exists>ms. tr_to_ws (tcp_run chunked_read n (replicate k (FromTcp Written)) st) = tr_to_ws st @ ms @ [Close None] \<and>
       concat (map data_of ms) = chunked_content (tr_upstream st))"
  using assms
proof (induction k arbitrary: st)
  case (Suc k)
  obtain bs u where u: "chunked_read n (tr_upstream st) = (Inr bs, u)" "\<not> ch_fails u"
    using chunked_read_ok [OF Suc.prems(1)] by blast
  note content = chunked.read_content [OF u(1)]
  show ?case
  proof (cases "bs = []")
    case True
    let ?done = "st\<lparr>tr_upstream := u, tr_to_ws := tr_to_ws st @ [Close None], tr_status := Done\<rparr>"
    have "tcp_run chunked_read n cs ?done = ?done" for cs by (cases cs) simp_all
    moreover have "chunked_content (tr_upstream st) = []"
      using chunked.read_end u(1) True Suc.prems(2) by blast
    ultimately show ?thesis using True u Suc.prems(3) by simp
  next
    case False
    let ?st = "st\<lparr>tr_upstream := u, tr_to_ws := tr_to_ws st @ [Binary bs]\<rparr>"
    have step: "tcp_step chunked_read n (FromTcp Written) st = ?st" using u False by (simp add: send_ws_def)
    have "length (chunked_content (tr_upstream ?st)) < k" using Suc.prems(4) content False by (cases bs) auto
    with Suc.IH [of ?st] Suc.prems u obtain ms where
      "tr_status (tcp_run chunked_read n (replicate k (FromTcp Written)) ?st) = Done"
      "tr_to_ws (tcp_run chunked_read n (replicate k (FromTcp Written)) ?st) = tr_to_ws ?st @ ms @ [Close None]"
      "concat (map data_of ms) = chunked_content u"
      by auto
    with step content Suc.prems(3) show ?thesis by (intro conjI exI [of _ "Binary bs # ms"]) simp_all
  qed
qed simp

text \<open>
  The TCP relay delivers what the upstream sends, and then closes. With a positive buffer, when the
  upstream does not fail and the client's side accepts what is sent, reading from the upstream once more than
  it has bytes passes all of them on, sends a close message after them, and ends in good order.
\<close>

theorem tcp_relay_drains_upstream:
  assumes "\<not> ch_fails s" and "0 < n" and "length (chunked_content s) < k"
  shows "tr_status (proxy_tcp chunked_read n inbox s (replicate k (FromTcp Written))) = Done \<and>
    (\<exists>ms. tr_to_ws (proxy_tcp chunked_read n inbox s (replicate k (FromTcp Written))) = ms @ [Close None] \<and>
       concat (map data_of ms) = chunked_content s)"
  using drain_upstream [of "\<lparr>tr_inbox = inbox, tr_upstream = s, tr_to_tcp = [], tr_shutdown = False, tr_to_ws = [],
      tr_status = Running\<rparr>" n k] assms
  by (simp add: proxy_tcp_def)

theorem tcp_relay_drains_upstream_witness:
  "\<exists>ms. tr_to_ws (proxy_tcp chunked_read 2 [] demo_upstream (replicate 5 (FromTcp Written))) = ms @ [Close None] \<and>
     concat (map data_of ms) = [7, 8, 9, 10]"
  using tcp_relay_drains_upstream [of demo_upstream 2 5 "[]"] by (simp add: demo_upstream_def chunked_content_def)

section \<open>Properties of the UDP relay\<close>

text \<open>The datagram a websocket event calls for, and the datagram a message carries.\<close>

fun datagram :: "ws_event \<Rightarrow> bytes list" where
  "datagram (WsMessage (Binary bs)) = [bs]"
| "datagram (WsMessage (Text t)) = [as_bytes t]"
| "datagram _ = []"

fun binary_of :: "message \<Rightarrow> bytes list" where
  "binary_of (Binary bs) = [bs]"
| "binary_of _ = []"

definition udp_in_inv :: "ws_event list \<Rightarrow> udp_relay \<Rightarrow> bool" where
  "udp_in_inv inbox st \<longleftrightarrow>
     (\<exists>taken. inbox = taken @ ur_inbox st \<and> prefix (ur_to_udp st) (concat (map datagram taken)) \<and>
        (ur_status st \<noteq> Failed SendUdp \<longrightarrow> ur_to_udp st = concat (map datagram taken)))"

definition udp_out_inv :: "bytes option list \<Rightarrow> udp_relay \<Rightarrow> bool" where
  "udp_out_inv upstream st \<longleftrightarrow>
     (\<exists>taken. upstream = taken @ ur_upstream st \<and>
        prefix (concat (map binary_of (ur_to_ws st))) (map (take UDP_DATAGRAM_BUFFER) (List.map_filter id taken)) \<and>
        (ur_status st \<noteq> Failed SendWs \<longrightarrow>
           concat (map binary_of (ur_to_ws st)) = map (take UDP_DATAGRAM_BUFFER) (List.map_filter id taken)))"

lemma udp_in_step:
  assumes inv: "udp_in_inv inbox st" and run: "ur_status st = Running"
  shows "udp_in_inv inbox (udp_step idle c st)"
proof -
  obtain delay source w where c: "c = (delay, source, w)" by (cases c)
  show ?thesis
  proof (cases "idle \<le> delay \<or> (source = UdpSide \<and> ur_upstream st = []) \<or> source = UdpSide \<or> ur_inbox st = []")
    case True
    with inv run c show ?thesis
      by (cases source; cases w)
        (auto simp: udp_in_inv_def udp_idle_def udp_from_upstream_def udp_from_ws_def udp_send_ws_def Let_def
          split: list.splits option.splits)
  next
    case False
    then obtain ev rest where ev: "ur_inbox st = ev # rest" "source = WsSide" "\<not> idle \<le> delay"
      by (cases "ur_inbox st"; cases source) auto
    with inv run obtain taken where "inbox = taken @ [ev] @ rest" "ur_to_udp st = concat (map datagram taken)"
      by (auto simp: udp_in_inv_def)
    then show ?thesis
      unfolding udp_in_inv_def
      by (intro exI [of _ "taken @ [ev]"])
        (use ev run c in \<open>auto simp: udp_from_ws_def udp_send_def udp_send_ws_def Let_def
          split: ws_event.splits message.splits write_result.splits\<close>)
  qed
qed

lemma udp_out_step:
  assumes inv: "udp_out_inv upstream st" and run: "ur_status st = Running"
  shows "udp_out_inv upstream (udp_step idle c st)"
proof -
  obtain delay source w where c: "c = (delay, source, w)" by (cases c)
  show ?thesis
  proof (cases "idle \<le> delay \<or> source = WsSide \<or> ur_upstream st = []")
    case True
    with inv run c show ?thesis
      by (cases source)
        (auto simp: udp_out_inv_def udp_idle_def udp_from_ws_def udp_send_def udp_send_ws_def Let_def
          split: list.splits ws_event.splits message.splits write_result.splits)
  next
    case False
    then obtain d rest where d: "ur_upstream st = d # rest" "source = UdpSide" "\<not> idle \<le> delay"
      by (cases "ur_upstream st"; cases source) auto
    with inv run obtain taken where "upstream = taken @ [d] @ rest"
      "concat (map binary_of (ur_to_ws st)) = map (take UDP_DATAGRAM_BUFFER) (List.map_filter id taken)"
      by (auto simp: udp_out_inv_def)
    then show ?thesis
      unfolding udp_out_inv_def
      by (intro exI [of _ "taken @ [d]"])
        (use d run c in \<open>auto simp: udp_from_upstream_def udp_send_ws_def Let_def List.map_filter_def
          split: option.splits write_result.splits\<close>)
  qed
qed

lemma udp_run_inv:
  "udp_in_inv inbox st \<Longrightarrow> udp_out_inv upstream st \<Longrightarrow>
     udp_in_inv inbox (udp_run idle cs st) \<and> udp_out_inv upstream (udp_run idle cs st)"
  by (induction cs arbitrary: st) (auto simp: udp_in_step udp_out_step simp del: udp_step.simps)

lemma proxy_udp_inv:
  "udp_in_inv inbox (proxy_udp idle inbox upstream cs) \<and> udp_out_inv upstream (proxy_udp idle inbox upstream cs)"
  unfolding proxy_udp_def
  by (rule udp_run_inv) (auto simp: udp_in_inv_def udp_out_inv_def List.map_filter_def)

text \<open>
  (C26) The UDP relay keeps datagrams whole and in order. Whatever the schedule and whichever sends fail, each
  data message handled becomes exactly one datagram with its payload, in order; each datagram received
  becomes exactly one binary message, cut at 65536 bytes, in order.
\<close>

theorem udp_relay_faithful:
  "(\<exists>taken. inbox = taken @ ur_inbox (proxy_udp idle inbox upstream cs) \<and>
      prefix (ur_to_udp (proxy_udp idle inbox upstream cs)) (concat (map datagram taken)) \<and>
      (ur_status (proxy_udp idle inbox upstream cs) \<noteq> Failed SendUdp \<longrightarrow>
         ur_to_udp (proxy_udp idle inbox upstream cs) = concat (map datagram taken))) \<and>
   (\<exists>taken. upstream = taken @ ur_upstream (proxy_udp idle inbox upstream cs) \<and>
      prefix (concat (map binary_of (ur_to_ws (proxy_udp idle inbox upstream cs))))
        (map (take 65536) (List.map_filter id taken)) \<and>
      (ur_status (proxy_udp idle inbox upstream cs) \<noteq> Failed SendWs \<longrightarrow>
         concat (map binary_of (ur_to_ws (proxy_udp idle inbox upstream cs))) =
         map (take 65536) (List.map_filter id taken)))"
  by (rule proxy_udp_inv [unfolded udp_in_inv_def udp_out_inv_def UDP_DATAGRAM_BUFFER_def])

theorem udp_relay_faithful_witness:
  "\<exists>taken. [WsMessage (Text ''q'')] = taken @ ur_inbox (proxy_udp 60 [WsMessage (Text ''q'')] [Some [1]] [(3, WsSide, Written)])
     \<and> ur_to_udp (proxy_udp 60 [WsMessage (Text ''q'')] [Some [1]] [(3, WsSide, Written)]) = concat (map datagram taken)"
proof -
  have "ur_status (proxy_udp 60 [WsMessage (Text ''q'')] [Some [1]] [(3, WsSide, Written)]) \<noteq> Failed SendUdp"
    by code_simp
  then show ?thesis
    using udp_relay_faithful [of "[WsMessage (Text ''q'')]" 60 "[Some [1]]" "[(3, WsSide, Written)]"] by blast
qed

lemma udp_idle_run:
  assumes "ur_status st = Running" and "idle \<le> delay"
  shows "udp_run idle ((delay, source, w) # cs) st = udp_idle idle w st"
proof -
  have "ur_status (udp_idle idle w st) = Done" by (simp add: udp_idle_def)
  then have "udp_run idle cs (udp_idle idle w st) = udp_idle idle w st" by (cases cs) simp_all
  with assms show ?thesis by simp
qed

lemma udp_run_append:
  "ur_status (udp_run idle cs st) = Running \<Longrightarrow> udp_run idle (cs @ ds) st = udp_run idle ds (udp_run idle cs st)"
  by (induction cs arbitrary: st) (auto simp del: udp_step.simps split: if_splits)

lemma udp_run_waited:
  "ur_status (udp_run idle cs st) = Running \<Longrightarrow>
     ur_waited (udp_run idle cs st) = ur_waited st + sum_list (map fst cs) \<and> (\<forall>c \<in> set cs. fst c < idle)"
proof (induction cs arbitrary: st)
  case (Cons c cs)
  obtain delay source w where c: "c = (delay, source, w)" by (cases c)
  have run: "ur_status st = Running" using Cons.prems by (auto split: if_splits)
  have not_done: "ur_status (udp_step idle c st) = Running"
    using Cons.prems run by (cases cs) (auto simp del: udp_step.simps split: if_splits)
  then have "\<not> idle \<le> delay" using c by (auto simp: udp_idle_def)
  moreover have "ur_waited (udp_step idle c st) = ur_waited st + delay"
    using not_done c
    by (cases source) (auto simp: udp_idle_def udp_from_ws_def udp_from_upstream_def udp_send_def udp_send_ws_def Let_def
        split: list.splits ws_event.splits message.splits write_result.splits option.splits if_splits)
  ultimately show ?case using Cons.IH [of "udp_step idle c st"] Cons.prems run c by (simp del: udp_step.simps)
qed simp

text \<open>
  Whether a session goes on after an event that came in time: a message other than a close frame, or a datagram, as
  long as what it calls for could be sent. A message that calls for nothing needs no write.
\<close>

fun calls_for :: "message \<Rightarrow> bool" where
  "calls_for (Pong _) = False"
| "calls_for (Frame _) = False"
| "calls_for _ = True"

definition udp_goes_on :: "udp_source \<Rightarrow> write_result \<Rightarrow> udp_relay \<Rightarrow> bool" where
  "udp_goes_on source w st \<longleftrightarrow>
     (case source of
        WsSide \<Rightarrow> (\<exists>m rest. ur_inbox st = WsMessage m # rest \<and> (\<nexists>frame. m = Close frame) \<and> (calls_for m \<longrightarrow> w = Written))
      | UdpSide \<Rightarrow> (\<exists>datagram rest. ur_upstream st = Some datagram # rest) \<and> w = Written)"

lemma udp_step_running:
  assumes "ur_status st = Running"
  shows "ur_status (udp_step idle (delay, source, w) st) = Running \<longleftrightarrow> delay < idle \<and> udp_goes_on source w st"
  using assms
  by (cases source; cases w) (auto simp: udp_goes_on_def udp_idle_def udp_from_ws_def udp_from_upstream_def udp_send_def
      udp_send_ws_def Let_def split: list.splits ws_event.splits message.splits option.splits)

lemma udp_step_closing:
  assumes "\<not> (idle \<le> delay \<or> source = UdpSide \<and> ur_upstream st = [])"
  shows "filter (\<lambda>m. m = Close None) (ur_to_ws (udp_step idle (delay, source, w) st)) = filter (\<lambda>m. m = Close None) (ur_to_ws st)"
  using assms
  by (cases source; cases w) (auto simp: udp_from_ws_def udp_from_upstream_def udp_send_def
      udp_send_ws_def Let_def split: list.splits ws_event.splits message.splits option.splits)

lemma udp_run_snoc:
  "ur_status (udp_run idle cs st) = Running \<Longrightarrow> udp_run idle (cs @ [c]) st = udp_step idle c (udp_run idle cs st)"
  by (simp add: udp_run_append del: udp_step.simps)

text \<open>
  (C27) A UDP session ends exactly when it has been idle for the timeout, or when what arrives ends it. As long as the
  session runs, every wait so far was shorter than the timeout. It then runs on after one more event exactly
  when that event comes in time and is a message other than a close frame or a datagram, and what it calls for
  could be sent: a pong or a frame calls for nothing. When nothing happens for the timeout, the session ends in good
  order at that very moment, having tried to tell the client with a close message; and an event that comes in
  time brings no close message.
\<close>

theorem udp_idle_timeout_exact:
  fixes idle inbox upstream cs
  defines "st \<equiv> proxy_udp idle inbox upstream cs"
  assumes "ur_status st = Running"
  shows "(\<forall>c \<in> set cs. fst c < idle) \<and>
    (ur_status (proxy_udp idle inbox upstream (cs @ [(delay, source, w)])) = Running \<longleftrightarrow>
       delay < idle \<and> udp_goes_on source w st) \<and>
    (idle \<le> delay \<longrightarrow>
      proxy_udp idle inbox upstream (cs @ (delay, source, w) # ds) =
        st\<lparr>ur_waited := sum_list (map fst cs) + idle,
          ur_to_ws := ur_to_ws st @ (if w = Written then [Close None] else []), ur_status := Done\<rparr>) \<and>
    (delay < idle \<and> (source = UdpSide \<longrightarrow> ur_upstream st \<noteq> []) \<longrightarrow>
      filter (\<lambda>m. m = Close None) (ur_to_ws (proxy_udp idle inbox upstream (cs @ [(delay, source, w)]))) =
      filter (\<lambda>m. m = Close None) (ur_to_ws st))"
proof (intro conjI impI)
  note waited = udp_run_waited [OF assms(2) [unfolded st_def proxy_udp_def]]
  then show "\<forall>c \<in> set cs. fst c < idle" by simp
  note snoc = udp_run_snoc [OF assms(2) [unfolded st_def proxy_udp_def], folded proxy_udp_def st_def]
  show "ur_status (proxy_udp idle inbox upstream (cs @ [(delay, source, w)])) = Running \<longleftrightarrow>
       delay < idle \<and> udp_goes_on source w st"
    unfolding snoc by (rule udp_step_running [OF assms(2)])
  show "proxy_udp idle inbox upstream (cs @ (delay, source, w) # ds) =
        st\<lparr>ur_waited := sum_list (map fst cs) + idle,
          ur_to_ws := ur_to_ws st @ (if w = Written then [Close None] else []), ur_status := Done\<rparr>" if "idle \<le> delay"
    using udp_run_append [OF assms(2) [unfolded st_def proxy_udp_def], of "(delay, source, w) # ds", folded proxy_udp_def st_def]
      udp_idle_run [OF assms(2) that, of source w ds] waited [folded proxy_udp_def st_def]
    by (simp add: udp_idle_def)
  show "filter (\<lambda>m. m = Close None) (ur_to_ws (proxy_udp idle inbox upstream (cs @ [(delay, source, w)]))) =
      filter (\<lambda>m. m = Close None) (ur_to_ws st)" if "delay < idle \<and> (source = UdpSide \<longrightarrow> ur_upstream st \<noteq> [])"
    unfolding snoc using that by (intro udp_step_closing) auto
qed

theorem udp_idle_timeout_exact_witness:
  "ur_status (proxy_udp 60 [WsMessage (Pong [])] [Some [1]] ([(3, UdpSide, Written)] @ [(59, WsSide, Broken 0)])) = Running"
proof -
  have "ur_status (proxy_udp 60 [WsMessage (Pong [])] [Some [1]] [(3, UdpSide, Written)]) = Running"
    by code_simp
  moreover have "ur_inbox (proxy_udp 60 [WsMessage (Pong [])] [Some [1]] [(3, UdpSide, Written)]) = [WsMessage (Pong [])]"
    by code_simp
  ultimately show ?thesis
    using udp_idle_timeout_exact [of 60 "[WsMessage (Pong [])]" "[Some [1]]" "[(3, UdpSide, Written)]" 59 WsSide "Broken 0"]
    by (auto simp: udp_goes_on_def)
qed

end
