(* ===== verification/Proxy.thy ===== *)
theory Proxy
  imports TokenApi Relay
begin

text \<open>
  \<open>src/proxy.rs\<close>: one connection, from the first byte to the end of the relay. The websocket
  handshake (\<open>tungstenite\<close>) is a parameter: from the stream to the request it passes to the callback,
  and whether it completes once the callback has accepted. So are the operations of the operating
  system that resolve and connect.
\<close>

section \<open>Data\<close>

definition HEALTH_CHECK_PATH :: string where "HEALTH_CHECK_PATH = ''/''"
definition HEALTH_CHECK_CLOSE_REASON :: string where "HEALTH_CHECK_CLOSE_REASON = ''health check''"

text \<open>The version is that of the package, from the build.\<close>

definition HEALTH_CHECK_MESSAGE :: "string \<Rightarrow> string" where
  "HEALTH_CHECK_MESSAGE version =
     ''ok: ws2tcp-router '' @ version @ '' is available; health check only, no upstream connected''"

datatype route = HealthCheck | Proxy target

text \<open>The slots that the handshake's callback fills.\<close>

record slots =
  sl_target :: "route option"
  sl_user :: "string option"
  sl_user_agent :: "string option"

datatype handshake_result = HandshakeBroken | Handshake request bool

datatype connect_error = NoLookup | NotResolved | NoBind | NoConnect

datatype conn_result =
    ReadHeadFailed
  | Answered string
  | HandshakeFailed
  | HandshakeRefused response
  | NotCaptured string
  | HealthChecked "message list"
  | ConnectFailed string connect_error
  | TcpRelayed client_addr string string target "chunked tcp_relay"
  | UdpRelayed client_addr string string target udp_relay

text \<open>
  The rest of the world, as one connection meets it: what a name resolves to, whether a local UDP socket
  can be bound, whether a TCP address and a UDP peer can be connected; and for the relay, the events of
  the websocket, what the upstream will send, and the schedule of the two branches.
\<close>

record net =
  nt_lookup :: "string \<Rightarrow> socket_addr list option"
  nt_bind_udp :: "string \<Rightarrow> bool"
  nt_connect_udp :: "socket_addr \<Rightarrow> bool"
  nt_connect_tcp :: "string \<Rightarrow> bool"
  nt_inbox :: "ws_event list"
  nt_bytes :: chunked
  nt_datagrams :: "bytes option list"
  nt_tcp_schedule :: "tcp_choice list"
  nt_udp_schedule :: "(duration \<times> udp_source \<times> write_result) list"

section \<open>Operations\<close>

definition request_user_agent :: "ext \<Rightarrow> request \<Rightarrow> string" where
  "request_user_agent x req = (case header_str x req ''user-agent'' of None \<Rightarrow> ''-'' | Some ua \<Rightarrow> ua)"

definition connect_udp :: "net \<Rightarrow> string \<Rightarrow> connect_error + (string \<times> socket_addr)" where
  "connect_udp nt target_addr =
     (case nt_lookup nt target_addr of
        None \<Rightarrow> Inl NoLookup
      | Some [] \<Rightarrow> Inl NotResolved
      | Some (a # _) \<Rightarrow>
          (let local_bind = (case sa_ip a of V6 _ \<Rightarrow> ''[::]:0'' | V4 _ \<Rightarrow> ''0.0.0.0:0'')
           in if \<not> nt_bind_udp nt local_bind then Inl NoBind
              else if \<not> nt_connect_udp nt a then Inl NoConnect
              else Inr (local_bind, a)))"

definition capture_requested_target :: "request \<Rightarrow> slots \<Rightarrow> (response + unit) \<times> slots" where
  "capture_requested_target req sl =
     (if rq_path req = HEALTH_CHECK_PATH then (Inr (), sl\<lparr>sl_target := Some HealthCheck\<rparr>)
      else case parse_target (rq_path req) of
             Inr target \<Rightarrow> (Inr (), sl\<lparr>sl_target := Some (Proxy target)\<rparr>)
           | Inl _ \<Rightarrow>
               (Inl \<lparr>rs_status = 400, rs_headers = [], rs_body = Some (''path must be /tcp:<host>:<port> or '' @
                  ''/udp:<host>:<port>, with IPv6 hosts formatted as [host]:port'')\<rparr>, sl))"

definition accept_callback ::
  "ext \<Rightarrow> u64 \<Rightarrow> request \<Rightarrow> auth_config option \<Rightarrow> slots \<Rightarrow> ((response + unit) \<times> slots) outcome" where
  "accept_callback x unix_now req auth sl =
     (let sl = sl\<lparr>sl_user_agent := Some (request_user_agent x req)\<rparr>
      in case authorize_request x unix_now req auth of
           Panic \<Rightarrow> Panic
         | Ret (Inl response) \<Rightarrow> Ret (Inl response, sl)
         | Ret (Inr auth_user) \<Rightarrow> Ret (capture_requested_target req (sl\<lparr>sl_user := Some auth_user\<rparr>)))"

definition plain_response ::
  "ext \<Rightarrow> env \<Rightarrow> string \<Rightarrow> request \<Rightarrow> auth_config option \<Rightarrow> response outcome \<times> auth_config option" where
  "plain_response x e version req auth =
     (if rq_path req = HEALTH_CHECK_PATH then
        (case authorize_request x (env_unix e) req auth of
           Panic \<Rightarrow> (Panic, auth)
         | Ret (Inr auth_user) \<Rightarrow> (Ret (health_check_response (HEALTH_CHECK_MESSAGE version)), auth)
         | Ret (Inl response) \<Rightarrow> (Ret response, auth))
      else handle_auth_request x e req auth)"

text \<open>The limits every connection gets: the size of the TCP buffer and the idle timeout of UDP sessions.\<close>

record limits =
  lm_buffer_size :: nat
  lm_udp_idle_timeout :: duration

definition connect_upstream ::
  "limits \<Rightarrow> net \<Rightarrow> client_addr \<Rightarrow> string \<Rightarrow> string \<Rightarrow> target \<Rightarrow> conn_result" where
  "connect_upstream lm nt client user ua target =
     (case t_protocol target of
        Tcp \<Rightarrow>
          if nt_connect_tcp nt (addr target)
          then TcpRelayed client user ua target
                 (proxy_tcp chunked_read (lm_buffer_size lm) (nt_inbox nt) (nt_bytes nt) (nt_tcp_schedule nt))
          else ConnectFailed (addr target) NoConnect
      | Udp \<Rightarrow>
          (case connect_udp nt (addr target) of
             Inl err \<Rightarrow> ConnectFailed (addr target) err
           | Inr _ \<Rightarrow> UdpRelayed client user ua target
               (proxy_udp (lm_udp_idle_timeout lm) (nt_inbox nt) (nt_datagrams nt) (nt_udp_schedule nt))))"

definition after_handshake :: "string \<Rightarrow> limits \<Rightarrow> net \<Rightarrow> client_addr \<Rightarrow> slots \<Rightarrow> conn_result" where
  "after_handshake version lm nt client sl =
     (case sl_target sl of
        None \<Rightarrow> NotCaptured ''target''
      | Some route \<Rightarrow>
     (case sl_user sl of
        None \<Rightarrow> NotCaptured ''auth user''
      | Some auth_user \<Rightarrow>
     (case sl_user_agent sl of
        None \<Rightarrow> NotCaptured ''user agent''
      | Some user_agent \<Rightarrow>
     (case route of
        HealthCheck \<Rightarrow> HealthChecked [Text (HEALTH_CHECK_MESSAGE version),
          Close (Some (1000, HEALTH_CHECK_CLOSE_REASON))]
      | Proxy target \<Rightarrow> connect_upstream lm nt client auth_user user_agent target))))"

definition handle_connection ::
  "ext \<Rightarrow> env \<Rightarrow> head_parser \<Rightarrow> http_lib \<Rightarrow> ('s replay_stream \<Rightarrow> handshake_result) \<Rightarrow> net \<Rightarrow> string
     \<Rightarrow> limits \<Rightarrow> trusted_proxies \<Rightarrow> 's reader \<Rightarrow> 's \<Rightarrow> socket_addr \<Rightarrow> auth_config option
     \<Rightarrow> conn_result outcome \<times> auth_config option" where
  "handle_connection x e httparse hx handshake nt version lm tp read stream peer auth =
     (case read_request_head read stream of
        (Inl _, stream) \<Rightarrow> (Ret ReadHeadFailed, auth)
      | (Inr head, stream) \<Rightarrow>
          (let client = client_addr_of httparse tp peer head
           in case parse_plain_request x httparse hx head of
                Some req \<Rightarrow>
                  (case plain_response x e version req auth of
                     (Panic, auth) \<Rightarrow> (Panic, auth)
                   | (Ret response, auth) \<Rightarrow>
                       (Ret (Answered (write_response hx response (rq_method req \<noteq> ''HEAD''))), auth))
              | None \<Rightarrow>
                  (case handshake (ReplayStream_new head stream) of
                     HandshakeBroken \<Rightarrow> (Ret HandshakeFailed, auth)
                   | Handshake req completes \<Rightarrow>
                       (case accept_callback x (env_unix e) req auth
                               \<lparr>sl_target = None, sl_user = None, sl_user_agent = None\<rparr> of
                          Panic \<Rightarrow> (Panic, auth)
                        | Ret (Inl response, sl) \<Rightarrow> (Ret (HandshakeRefused response), auth)
                        | Ret (Inr _, sl) \<Rightarrow>
                            if completes then (Ret (after_handshake version lm nt client sl), auth)
                            else (Ret HandshakeFailed, auth)))))"

lemmas [evals] = HEALTH_CHECK_PATH_def HEALTH_CHECK_CLOSE_REASON_def HEALTH_CHECK_MESSAGE_def
  request_user_agent_def connect_udp_def capture_requested_target_def accept_callback_def
  plain_response_def connect_upstream_def after_handshake_def handle_connection_def

section \<open>Properties\<close>

lemma callback_accepts:
  assumes "accept_callback x unix_now req auth sl = Ret (Inr u, sl')"
  shows "\<exists>user. authorize_request x unix_now req auth = Ret (Inr user) \<and> sl_user sl' = Some user \<and>
    sl_user_agent sl' = Some (request_user_agent x req) \<and>
    (if rq_path req = ''/'' then sl_target sl' = Some HealthCheck
     else \<exists>t. parse_target (rq_path req) = Inr t \<and> sl_target sl' = Some (Proxy t))"
  using assms
  by (auto simp: accept_callback_def capture_requested_target_def HEALTH_CHECK_PATH_def Let_def
      split: outcome.splits sum.splits if_splits)

lemma after_handshake_callback:
  assumes "accept_callback x unix_now req auth sl = Ret (Inr u, sl')"
  shows "\<exists>user. authorize_request x unix_now req auth = Ret (Inr user) \<and>
    after_handshake version lm nt client sl' =
      (if rq_path req = ''/''
       then HealthChecked [Text (HEALTH_CHECK_MESSAGE version), Close (Some (1000, ''health check''))]
       else connect_upstream lm nt client user (request_user_agent x req) (projr (parse_target (rq_path req)))) \<and>
    (rq_path req \<noteq> ''/'' \<longrightarrow> (\<exists>t. parse_target (rq_path req) = Inr t))"
  using callback_accepts [OF assms]
  by (auto simp: after_handshake_def HEALTH_CHECK_CLOSE_REASON_def split: if_splits)

text \<open>A connection that got to a relay: the user, the target, and who is reported.\<close>

fun relayed :: "conn_result \<Rightarrow> (client_addr \<times> string \<times> string \<times> target) option" where
  "relayed (TcpRelayed client user ua t _) = Some (client, user, ua, t)"
| "relayed (UdpRelayed client user ua t _) = Some (client, user, ua, t)"
| "relayed _ = None"

lemma connect_upstream_relayed:
  "relayed (connect_upstream lm nt client user ua t) = Some r \<Longrightarrow> r = (client, user, ua, t)"
  "connect_upstream lm nt client user ua t \<noteq> NotCaptured s"
  by (auto simp: connect_upstream_def split: protocol.splits sum.splits if_splits)

lemma handle_connection_cases:
  assumes "handle_connection x e httparse hx handshake nt version lm tp read stream peer auth = (Ret r, auth')"
  obtains (unread) "r = ReadHeadFailed" "auth' = auth"
  | (plain) head stream' req response where "read_request_head read stream = (Inr head, stream')"
      "parse_plain_request x httparse hx head = Some req"
      "plain_response x e version req auth = (Ret response, auth')"
      "r = Answered (write_response hx response (rq_method req \<noteq> ''HEAD''))"
  | (broken) "r = HandshakeFailed" "auth' = auth"
  | (refused) req response where "r = HandshakeRefused response" "auth' = auth"
  | (accepted) head stream' req sl where "read_request_head read stream = (Inr head, stream')"
      "parse_plain_request x httparse hx head = None"
      "handshake (ReplayStream_new head stream') = Handshake req True"
      "accept_callback x (env_unix e) req auth \<lparr>sl_target = None, sl_user = None, sl_user_agent = None\<rparr> = Ret (Inr (), sl)"
      "r = after_handshake version lm nt (client_addr_of httparse tp peer head) sl" "auth' = auth"
proof -
  obtain h stream' where h: "read_request_head read stream = (h, stream')" by fastforce
  show ?thesis
  proof (cases h)
    case (Inl u)
    with assms h show ?thesis by (auto simp: handle_connection_def intro: unread)
  next
    case (Inr head)
    show ?thesis
    proof (cases "parse_plain_request x httparse hx head")
      case (Some req)
      with assms h Inr show ?thesis
        by (auto simp: handle_connection_def Let_def split: prod.splits outcome.splits intro: plain)
    next
      case None
      show ?thesis
      proof (cases "handshake (ReplayStream_new head stream')")
        case HandshakeBroken
        with assms h Inr None show ?thesis by (auto simp: handle_connection_def Let_def intro: broken)
      next
        case (Handshake req completes)
        with assms h Inr None show ?thesis
          by (auto simp: handle_connection_def Let_def split: outcome.splits sum.splits prod.splits if_splits
              intro: broken refused accepted)
      qed
    qed
  qed
qed

lemma relay_authorized:
  assumes "handle_connection x e httparse hx handshake nt version lm tp read stream peer auth = (Ret r, auth')"
    and "relayed r = Some (client, user, ua, t)"
  shows "\<exists>head stream' req. read_request_head read stream = (Inr head, stream') \<and>
    parse_plain_request x httparse hx head = None \<and>
    handshake (ReplayStream_new head stream') = Handshake req True \<and>
    authorize_request x (env_unix e) req auth = Ret (Inr user) \<and> parse_target (rq_path req) = Inr t \<and>
    client = client_addr_of httparse tp peer head \<and> ua = request_user_agent x req \<and> auth' = auth"
  using assms(1)
proof (cases rule: handle_connection_cases)
  case (accepted head stream' req sl)
  from after_handshake_callback [OF accepted(4), of version lm nt "client_addr_of httparse tp peer head"]
  obtain u where u: "authorize_request x (env_unix e) req auth = Ret (Inr u)"
    and r: "r = (if rq_path req = ''/''
       then HealthChecked [Text (HEALTH_CHECK_MESSAGE version), Close (Some (1000, ''health check''))]
       else connect_upstream lm nt (client_addr_of httparse tp peer head) u (request_user_agent x req)
         (projr (parse_target (rq_path req))))"
    and t: "rq_path req \<noteq> ''/'' \<longrightarrow> (\<exists>t. parse_target (rq_path req) = Inr t)"
    using accepted(5) by blast
  with assms(2) have path: "rq_path req \<noteq> ''/''" by (auto split: if_splits)
  then have "(client, user, ua, t) = (client_addr_of httparse tp peer head, u, request_user_agent x req,
      projr (parse_target (rq_path req)))"
    using connect_upstream_relayed(1) assms(2) r by metis
  with accepted u t path show ?thesis by auto
qed (use assms(2) in auto)

text \<open>
  (C2) Nobody reaches an upstream without authorization. Whenever a connection gets to a relay, with any
  handshake and any stream, the request that the handshake presented was authorized as the reported user,
  its path parses to exactly the target that is connected, and the reported address is the one the trusted
  proxies give for the head that was read.
\<close>

theorem relay_only_authorized:
  assumes "handle_connection x e httparse hx handshake nt version lm tp read stream peer auth = (Ret r, auth')"
    and "relayed r = Some (client, user, ua, t)"
  shows "\<exists>head stream' req. read_request_head read stream = (Inr head, stream') \<and>
    parse_plain_request x httparse hx head = None \<and>
    handshake (ReplayStream_new head stream') = Handshake req True \<and>
    authorize_request x (env_unix e) req auth = Ret (Inr user) \<and> parse_target (rq_path req) = Inr t \<and>
    client = client_addr_of httparse tp peer head \<and> ua = request_user_agent x req \<and> auth' = auth"
  using assms by (rule relay_authorized)

text \<open>
  A websocket that was accepted is always served: the handshake's callback has filled all three slots
  whenever the handshake completes, so a connection never ends with one of the errors that say that the target, the user or the user
  agent was not captured.
\<close>

theorem slots_always_captured:
  assumes "handle_connection x e httparse hx handshake nt version lm tp read stream peer auth = (Ret r, auth')"
  shows "r \<noteq> NotCaptured what"
  using assms
proof (cases rule: handle_connection_cases)
  case (accepted head stream' req sl)
  with after_handshake_callback [OF accepted(4), of version lm nt "client_addr_of httparse tp peer head"]
    connect_upstream_relayed(2)
  show ?thesis by (auto split: if_splits)
qed auto

text \<open>A connection without authentication that is relayed to \<open>web:80\<close>.\<close>

definition demo_net :: net where
  "demo_net = \<lparr>nt_lookup = (\<lambda>_. None), nt_bind_udp = (\<lambda>_. True), nt_connect_udp = (\<lambda>_. True),
     nt_connect_tcp = (\<lambda>_. True), nt_inbox = demo_inbox, nt_bytes = demo_upstream, nt_datagrams = [],
     nt_tcp_schedule = demo_schedule, nt_udp_schedule = []\<rparr>"

definition demo_connection :: "conn_result outcome \<times> auth_config option" where
  "demo_connection = handle_connection demo_ext (demo_env 1 5) (\<lambda>_ _. None) demo_http
     (\<lambda>_. Handshake (demo_request ''GET'' ''/tcp:web:80'' []) True) demo_net ''1.0''
     \<lparr>lm_buffer_size = 2, lm_udp_idle_timeout = 60\<rparr> demo_proxies chunked_read demo_stream demo_peer None"

lemma demo_relayed:
  "\<exists>r. demo_connection = (Ret r, None) \<and>
     relayed r = Some (ClientAddr_from demo_peer, ''anonymous'', ''-'', \<lparr>t_protocol = Tcp, t_host = ''web'', t_port = 80\<rparr>)"
proof -
  have plain: "parse_plain_request demo_ext (\<lambda>_ _. None) demo_http head = None" for head
    by (simp add: parse_plain_request_def)
  have client: "client_addr_of (\<lambda>_ _. None) demo_proxies demo_peer head = ClientAddr_from demo_peer" for head
    by (simp add: client_addr_of_def ClientAddr_from_def forwarded_client_def)
  have target: "parse_target ''/tcp:web:80'' = Inr \<lparr>t_protocol = Tcp, t_host = ''web'', t_port = 80\<rparr>"
    by code_simp
  show ?thesis
    by (simp add: demo_connection_def handle_connection_def demo_head plain client target accept_callback_def
        authorize_request_def capture_requested_target_def HEALTH_CHECK_PATH_def after_handshake_def
        connect_upstream_def demo_net_def demo_request_def ANONYMOUS_AUTH_USER_def request_user_agent_def
        header_str_def Let_def)
qed

theorem relay_only_authorized_witness:
  "\<exists>user. authorize_request demo_ext (env_unix (demo_env 1 5)) (demo_request ''GET'' ''/tcp:web:80'' []) None = Ret (Inr user)
     \<and> user = ''anonymous''"
proof -
  obtain r where r: "demo_connection = (Ret r, None)"
    "relayed r = Some (ClientAddr_from demo_peer, ''anonymous'', ''-'', \<lparr>t_protocol = Tcp, t_host = ''web'', t_port = 80\<rparr>)"
    using demo_relayed by blast
  from relay_only_authorized [OF r(1) [unfolded demo_connection_def] r(2)] show ?thesis by auto
qed

theorem slots_always_captured_witness: "fst demo_connection \<noteq> Ret (NotCaptured ''target'')"
proof -
  obtain r where r: "demo_connection = (Ret r, None)" using demo_relayed by blast
  then have "r \<noteq> NotCaptured ''target''"
    using slots_always_captured [OF r [unfolded demo_connection_def]] by blast
  with r show ?thesis by (metis fst_conv outcome.inject)
qed

end
