(* ===== verification/Server.thy ===== *)
theory Server
  imports Proxy
begin

text \<open>
  The outer layer: \<open>src/listener.rs\<close> (binding), \<open>src/tls.rs\<close> (certificates), \<open>src/logging.rs\<close> (the filter, the
  log file, the format of a line) and \<open>src/main.rs\<close> (start-up, the accept loop, an accepted stream). What the
  operating system and the crates answer is a parameter.
\<close>

section \<open>Listeners\<close>

datatype bind_error = ResolveFailed | Unresolved | Ipv6OnlyOnV4 | BindFailed | SocketFailed
  | SetOnlyV6Failed | ListenFailed | NonblockingFailed | FromStdFailed

text \<open>What the operating system answers to each call, for one listener.\<close>

record os_net =
  os_resolve :: "string \<Rightarrow> u16 \<Rightarrow> socket_addr list option"
  os_bind :: "socket_addr \<Rightarrow> bool"
  os_socket_v6 :: bool
  os_set_only_v6 :: bool
  os_listen :: bool
  os_set_nonblocking :: bool
  os_from_std :: bool

text \<open>A bound listener: its address and, for IPv6, the value given to \<open>IPV6_V6ONLY\<close>.\<close>

record listener =
  li_addr :: socket_addr
  li_only_v6 :: "bool option"

definition resolve_bind_addr :: "os_net \<Rightarrow> string \<Rightarrow> u16 \<Rightarrow> bind_error + socket_addr" where
  "resolve_bind_addr os host port =
     (case os_resolve os host port of
        None \<Rightarrow> Inl ResolveFailed
      | Some [] \<Rightarrow> Inl Unresolved
      | Some (a # _) \<Rightarrow> Inr a)"

definition bind_listener :: "os_net \<Rightarrow> socket_addr \<Rightarrow> bool \<Rightarrow> bind_error + listener" where
  "bind_listener os bind_addr ipv6_only =
     (case sa_ip bind_addr of
        V4 _ \<Rightarrow>
          if ipv6_only then Inl Ipv6OnlyOnV4
          else if os_bind os bind_addr then Inr \<lparr>li_addr = bind_addr, li_only_v6 = None\<rparr>
          else Inl BindFailed
      | V6 _ \<Rightarrow>
          if \<not> os_socket_v6 os then Inl SocketFailed
          else if \<not> os_set_only_v6 os then Inl SetOnlyV6Failed
          else if \<not> os_bind os bind_addr then Inl BindFailed
          else if \<not> os_listen os then Inl ListenFailed
          else if \<not> os_set_nonblocking os then Inl NonblockingFailed
          else if \<not> os_from_std os then Inl FromStdFailed
          else Inr \<lparr>li_addr = bind_addr, li_only_v6 = Some ipv6_only\<rparr>)"

section \<open>TLS\<close>

text \<open>
  \<open>rustls_pemfile\<close>, \<open>rustls\<close>, \<open>rcgen\<close> and \<open>local_ip_address\<close>. Certificates and keys are their DER bytes;
  the server configuration is opaque.
\<close>

record cert_params =
  cp_names :: "string list"
  cp_not_before :: int
  cp_not_after :: int
  cp_common_name :: string

record 'cfg tls_lib =
  tl_certs :: "bytes \<Rightarrow> (unit + bytes) list"
  tl_private_key :: "bytes \<Rightarrow> unit + bytes option"
  tl_server_config :: "bytes list \<Rightarrow> bytes \<Rightarrow> 'cfg option"
  tl_interfaces :: "(string \<times> ip_addr) list option"
  tl_names_ok :: "string list \<Rightarrow> bool"
  tl_key_pair :: "bytes option"
  tl_self_signed :: "cert_params \<Rightarrow> bytes \<Rightarrow> bytes option"

datatype tls_error = CertUnreadable string | CertInvalid string | CertMissing string
  | KeyUnreadable string | KeyInvalid string | KeyMissing string | ServerConfigFailed
  | InterfacesFailed | CertParamsFailed | KeyPairFailed | SelfSignFailed

definition LOCALHOST_V4 :: ip_addr where "LOCALHOST_V4 = V4 0x7F000001"
definition LOCALHOST_V6 :: ip_addr where "LOCALHOST_V6 = V6 1"

text \<open>A \<open>BTreeSet\<close> as its elements in order, without duplicates.\<close>

definition server_ip_addresses :: "'cfg tls_lib \<Rightarrow> tls_error + ip_addr list" where
  "server_ip_addresses lib =
     (case tl_interfaces lib of
        None \<Rightarrow> Inl InterfacesFailed
      | Some netifas \<Rightarrow>
          (let ips = foldl (\<lambda>ips (_, ip). insort_insert ip ips) [] netifas;
               ips = insort_insert LOCALHOST_V4 ips;
               ips = insort_insert LOCALHOST_V6 ips
           in Inr ips))"

definition generate_self_signed_cert :: "'cfg tls_lib \<Rightarrow> int \<Rightarrow> tls_error + (bytes list \<times> bytes)" where
  "generate_self_signed_cert lib now =
     (case server_ip_addresses lib of
        Inl e \<Rightarrow> Inl e
      | Inr ips \<Rightarrow>
          (let subject_alt_names = map show_ip_addr ips
           in if \<not> tl_names_ok lib subject_alt_names then Inl CertParamsFailed
              else
                (let params = \<lparr>cp_names = subject_alt_names, cp_not_before = now,
                       cp_not_after = now + 365 * 10 * (24 * 60 * 60),
                       cp_common_name = ''ws2tcp-router self-signed''\<rparr>
                 in case tl_key_pair lib of
                      None \<Rightarrow> Inl KeyPairFailed
                    | Some key_pair \<Rightarrow>
                        (case tl_self_signed lib params key_pair of
                           None \<Rightarrow> Inl SelfSignFailed
                         | Some cert \<Rightarrow> Inr ([cert], key_pair)))))"

definition load_certs :: "'cfg tls_lib \<Rightarrow> filesystem \<Rightarrow> string \<Rightarrow> tls_error + bytes list" where
  "load_certs lib fs path =
     (case fs path of
        None \<Rightarrow> Inl (CertUnreadable path)
      | Some file \<Rightarrow>
          (case collect_results (tl_certs lib file) of
             Inl _ \<Rightarrow> Inl (CertInvalid path)
           | Inr certs \<Rightarrow> if certs = [] then Inl (CertMissing path) else Inr certs))"

definition load_private_key :: "'cfg tls_lib \<Rightarrow> filesystem \<Rightarrow> string \<Rightarrow> tls_error + bytes" where
  "load_private_key lib fs path =
     (case fs path of
        None \<Rightarrow> Inl (KeyUnreadable path)
      | Some file \<Rightarrow>
          (case tl_private_key lib file of
             Inl _ \<Rightarrow> Inl (KeyInvalid path)
           | Inr None \<Rightarrow> Inl (KeyMissing path)
           | Inr (Some key) \<Rightarrow> Inr key))"

definition build_server_config :: "'cfg tls_lib \<Rightarrow> bytes list \<Rightarrow> bytes \<Rightarrow> tls_error + 'cfg" where
  "build_server_config lib certs key =
     (case tl_server_config lib certs key of None \<Rightarrow> Inl ServerConfigFailed | Some cfg \<Rightarrow> Inr cfg)"

definition to_string_lossy :: "string \<Rightarrow> string" where
  "to_string_lossy path = from_utf8_lossy (as_bytes path)"

definition build_tls_config :: "'cfg tls_lib \<Rightarrow> filesystem \<Rightarrow> int \<Rightarrow> args \<Rightarrow> tls_error + 'cfg option" where
  "build_tls_config lib fs now a =
     (if ar_auto_self_signed_cert a then
        (case generate_self_signed_cert lib now of
           Inl e \<Rightarrow> Inl e
         | Inr (certs, key) \<Rightarrow>
             (case build_server_config lib certs key of Inl e \<Rightarrow> Inl e | Inr cfg \<Rightarrow> Inr (Some cfg)))
      else
        (case (ar_tls_cert a, ar_tls_key a) of
           (Some cert_path, Some key_path) \<Rightarrow>
             (case load_certs lib fs (to_string_lossy cert_path) of
                Inl e \<Rightarrow> Inl e
              | Inr certs \<Rightarrow>
                  (case load_private_key lib fs (to_string_lossy key_path) of
                     Inl e \<Rightarrow> Inl e
                   | Inr key \<Rightarrow>
                       (case build_server_config lib certs key of Inl e \<Rightarrow> Inl e | Inr cfg \<Rightarrow> Inr (Some cfg))))
         | _ \<Rightarrow> Inr None))"

section \<open>Logging\<close>

text \<open>
  What logging reads from outside: \<open>EnvFilter::try_new\<close>, \<open>EnvFilter::try_from_default_env\<close> and the conversion
  of a string; whether \<open>JOURNAL_STREAM\<close> is set; whether a directory can be created and a file opened.
\<close>

record 'f log_world =
  lw_try_new :: "string \<Rightarrow> 'f option"
  lw_from_env :: "'f option"
  lw_into :: "string \<Rightarrow> 'f"
  lw_journal_stream :: bool
  lw_create_dir_all :: "string \<Rightarrow> bool"
  lw_open_append :: "string \<Rightarrow> bool"

datatype log_error = LogFilterInvalid string | LogDirFailed string | LogOpenFailed string

record 'f logging =
  lg_filter :: 'f
  lg_with_time :: bool
  lg_file :: "string option"

definition log_filter :: "'f log_world \<Rightarrow> args \<Rightarrow> log_error + 'f" where
  "log_filter lw a =
     (case ar_log_level a of
        Some log_level \<Rightarrow>
          (case lw_try_new lw log_level of None \<Rightarrow> Inl (LogFilterInvalid log_level) | Some f \<Rightarrow> Inr f)
      | None \<Rightarrow> Inr (case lw_from_env lw of Some f \<Rightarrow> f | None \<Rightarrow> lw_into lw ''ws2tcp_router=info''))"

text \<open>
  \<open>Path::parent\<close> on Unix, up to the equality of paths: the components without the last one, where empty
  components count for nothing and \<open>.\<close> only at the start of a relative path. A path without components
  (the empty one, or the root) has no parent.
\<close>

definition components :: "string \<Rightarrow> string list" where
  "components path =
     (case split_on CHR ''/'' path of
        [] \<Rightarrow> []
      | c # cs \<Rightarrow> (if c = [] then [] else [c]) @ filter (\<lambda>c. c \<noteq> [] \<and> c \<noteq> ''.'') cs)"

fun join_components :: "string list \<Rightarrow> string" where
  "join_components [] = []"
| "join_components [c] = c"
| "join_components (c # cs) = c @ ''/'' @ join_components cs"

definition path_parent :: "string \<Rightarrow> string option" where
  "path_parent path =
     (let cs = components path
      in if cs = [] then None
         else Some ((if prefix ''/'' path then ''/'' else []) @ join_components (butlast cs)))"

definition open_log_writer :: "'f log_world \<Rightarrow> string \<Rightarrow> log_error + string" where
  "open_log_writer lw path =
     (let opened = (if lw_open_append lw path then Inr path else Inl (LogOpenFailed path))
      in case path_parent path of
           Some parent \<Rightarrow>
             if parent \<noteq> [] \<and> \<not> lw_create_dir_all lw parent then Inl (LogDirFailed parent) else opened
         | None \<Rightarrow> opened)"

definition init_logging :: "'f log_world \<Rightarrow> args \<Rightarrow> log_error + 'f logging" where
  "init_logging lw a =
     (case log_filter lw a of
        Inl e \<Rightarrow> Inl e
      | Inr flt \<Rightarrow>
          (case ar_log_file a of
             Some path \<Rightarrow>
               (case open_log_writer lw path of
                  Inl e \<Rightarrow> Inl e
                | Inr f \<Rightarrow> Inr \<lparr>lg_filter = flt, lg_with_time = \<not> lw_journal_stream lw, lg_file = Some f\<rparr>)
           | None \<Rightarrow> Inr \<lparr>lg_filter = flt, lg_with_time = \<not> lw_journal_stream lw, lg_file = None\<rparr>))"

datatype level = ERROR | WARN | INFO | DEBUG | TRACE

definition esc :: string where "esc = [CHR 0x1B]"

definition paint :: "bool \<Rightarrow> string \<Rightarrow> string \<times> string" where
  "paint ansi code = (if ansi then (code, esc @ ''[0m'') else ([], []))"

definition CRATE_PREFIX :: string where "CRATE_PREFIX = ''ws2tcp_router::''"

fun level_color :: "level \<Rightarrow> string" where
  "level_color ERROR = esc @ ''[31m''"
| "level_color WARN = esc @ ''[33m''"
| "level_color INFO = esc @ ''[32m''"
| "level_color DEBUG = esc @ ''[34m''"
| "level_color TRACE = esc @ ''[35m''"

text \<open>\<open>{level:>5}\<close>: the name, padded to five characters on the left.\<close>

fun show_level :: "level \<Rightarrow> string" where
  "show_level ERROR = ''ERROR''"
| "show_level WARN = '' WARN''"
| "show_level INFO = '' INFO''"
| "show_level DEBUG = ''DEBUG''"
| "show_level TRACE = ''TRACE''"

text \<open>\<open>time\<close> is what \<open>SystemTime\<close> formats, \<open>event_fields\<close> what the fields of the event format to.\<close>

definition format_event :: "bool \<Rightarrow> bool \<Rightarrow> string \<Rightarrow> level \<Rightarrow> string \<Rightarrow> string \<Rightarrow> string" where
  "format_event with_time ansi time level target event_fields =
     (let stamp = (if with_time then time @ '' '' else []);
          (on, off) = paint ansi (level_color level);
          short = (case strip_prefix CRATE_PREFIX target of Some t \<Rightarrow> t | None \<Rightarrow> target);
          (on2, off2) = paint ansi (esc @ ''[2m'')
      in stamp @ on @ show_level level @ off @ '' '' @ on2 @ short @ '':'' @ off2 @ '' '' @ event_fields @ [CHR 0x0A])"

section \<open>Start-up\<close>

datatype start_error = LogError log_error | AuthError auth_error | TlsError tls_error | BindError bind_error

record 'cfg endpoint_listener =
  sv_scheme :: string
  sv_listener :: listener
  sv_tls :: "'cfg option"

text \<open>The tasks \<open>spawn_auth_file_reloader\<close> starts: which file each polls, and for what.\<close>

datatype reload_task = ReloadAuth string | ReloadAnonymous string

definition spawn_auth_file_reloader :: "auth_config \<Rightarrow> reload_task list" where
  "spawn_auth_file_reloader auth =
     (case ac_basic_auth_file auth of Some path \<Rightarrow> [ReloadAuth path] | None \<Rightarrow> []) @
     (case ac_anonymous_target_file auth of Some path \<Rightarrow> [ReloadAnonymous path] | None \<Rightarrow> [])"

record ('cfg, 'f) started =
  sd_logging :: "'f logging"
  sd_tasks :: "reload_task list"
  sd_auth :: "auth_config option"
  sd_limits :: limits
  sd_proxies :: trusted_proxies
  sd_listeners :: "'cfg endpoint_listener list"

text \<open>Everything start-up reads from outside.\<close>

record ('cfg, 'f) world =
  wd_fs :: filesystem
  wd_random :: "bytes option"
  wd_imax :: nat
  wd_now :: instant
  wd_time :: int
  wd_tls :: "'cfg tls_lib"
  wd_net :: os_net
  wd_log :: "'f log_world"

definition open_listener :: "os_net \<Rightarrow> args \<Rightarrow> u16 \<Rightarrow> bind_error + listener" where
  "open_listener os a port =
     (case resolve_bind_addr os (ar_bind a) port of
        Inl e \<Rightarrow> Inl e
      | Inr bind_addr \<Rightarrow> bind_listener os bind_addr (ar_ipv6_only a))"

definition start_ws :: "os_net \<Rightarrow> args \<Rightarrow> bind_error + 'cfg endpoint_listener list" where
  "start_ws os a =
     (if includes_ws (ar_service_mode a) then
        (case open_listener os a (ar_port a) of
           Inl e \<Rightarrow> Inl e
         | Inr l \<Rightarrow> Inr [\<lparr>sv_scheme = ''ws'', sv_listener = l, sv_tls = None\<rparr>])
      else Inr [])"

definition start_wss :: "os_net \<Rightarrow> args \<Rightarrow> 'cfg option \<Rightarrow> (bind_error + 'cfg endpoint_listener list) outcome" where
  "start_wss os a tls_config =
     (if includes_wss (ar_service_mode a) then
        (case open_listener os a (ar_tls_port a) of
           Inl e \<Rightarrow> Ret (Inl e)
         | Inr l \<Rightarrow>
             (case tls_config of
                None \<Rightarrow> Panic
              | Some cfg \<Rightarrow> Ret (Inr [\<lparr>sv_scheme = ''wss'', sv_listener = l, sv_tls = Some cfg\<rparr>])))
      else Ret (Inr []))"

definition main_start :: "ext \<Rightarrow> ('cfg, 'f) world \<Rightarrow> args \<Rightarrow> (start_error + ('cfg, 'f) started) outcome" where
  "main_start x w a =
     (case init_logging (wd_log w) a of
        Inl e \<Rightarrow> Ret (Inl (LogError e))
      | Inr log \<Rightarrow>
     (case build_auth_config x (wd_fs w) (wd_random w) (wd_imax w) (wd_now w) a of
        Panic \<Rightarrow> Panic
      | Ret (Inl e) \<Rightarrow> Ret (Inl (AuthError e))
      | Ret (Inr auth) \<Rightarrow>
     (case (if includes_wss (ar_service_mode a) then build_tls_config (wd_tls w) (wd_fs w) (wd_time w) a
            else Inr None) of
        Inl e \<Rightarrow> Ret (Inl (TlsError e))
      | Inr tls_config \<Rightarrow>
     (case start_ws (wd_net w) a of
        Inl e \<Rightarrow> Ret (Inl (BindError e))
      | Inr ws \<Rightarrow>
     (case start_wss (wd_net w) a tls_config of
        Panic \<Rightarrow> Panic
      | Ret (Inl e) \<Rightarrow> Ret (Inl (BindError e))
      | Ret (Inr wss) \<Rightarrow> Ret (Inr \<lparr>
          sd_logging = log,
          sd_tasks = (case auth of Some ac \<Rightarrow> spawn_auth_file_reloader ac | None \<Rightarrow> []),
          sd_auth = auth,
          sd_limits = \<lparr>lm_buffer_size = unat (ar_buffer_size a),
            lm_udp_idle_timeout = from_secs (unat (ar_udp_idle_timeout a))\<rparr>,
          sd_proxies = TrustedProxies_new (ar_trusted_proxy a),
          sd_listeners = ws @ wss\<rparr>))))))"

section \<open>Connections\<close>

text \<open>
  \<open>handle_accepted_stream\<close>: \<open>tls_accept\<close> is the TLS handshake, from the configuration and the stream to the
  decrypted stream.
\<close>

datatype accepted_result = TlsHandshakeFailed | Handled conn_result

definition handle_accepted_stream ::
  "ext \<Rightarrow> env \<Rightarrow> head_parser \<Rightarrow> http_lib \<Rightarrow> (chunked replay_stream \<Rightarrow> handshake_result) \<Rightarrow> net \<Rightarrow> string
     \<Rightarrow> limits \<Rightarrow> trusted_proxies \<Rightarrow> ('cfg \<Rightarrow> chunked \<Rightarrow> chunked option) \<Rightarrow> 'cfg option
     \<Rightarrow> chunked \<Rightarrow> socket_addr \<Rightarrow> auth_config option \<Rightarrow> accepted_result outcome \<times> auth_config option" where
  "handle_accepted_stream x e httparse hx handshake nt version lm tp tls_accept tls_config stream peer auth =
     (case tls_config of
        Some config \<Rightarrow>
          (case tls_accept config stream of
             None \<Rightarrow> (Ret TlsHandshakeFailed, auth)
           | Some stream \<Rightarrow>
               (case handle_connection x e httparse hx handshake nt version lm tp chunked_read stream peer auth of
                  (Panic, auth) \<Rightarrow> (Panic, auth)
                | (Ret r, auth) \<Rightarrow> (Ret (Handled r), auth)))
      | None \<Rightarrow>
          (case handle_connection x e httparse hx handshake nt version lm tp chunked_read stream peer auth of
             (Panic, auth) \<Rightarrow> (Panic, auth)
           | (Ret r, auth) \<Rightarrow> (Ret (Handled r), auth)))"

text \<open>
  The accept loop: what \<open>accept\<close> answers, one after the other, and a handler for the accepted ones that
  changes the shared state. The connections' handlers run concurrently, but on one thread, and what each
  does to the shared state happens without an await in between; the model runs them in the order of
  their arrival. A handler that panics ends its own task only. The loop itself ends at the first error,
  with \<open>Some\<close> of it; \<open>None\<close> means that it is still waiting.
\<close>

fun serve_listener :: "('c \<Rightarrow> 'a \<Rightarrow> 'r \<times> 'a) \<Rightarrow> ('e + 'c) list \<Rightarrow> 'a \<Rightarrow> 'r list \<times> 'e option \<times> 'a" where
  "serve_listener handle [] auth = ([], None, auth)"
| "serve_listener handle (Inl e # rest) auth = ([], Some e, auth)"
| "serve_listener handle (Inr c # rest) auth =
     (let (r, auth) = handle c auth; (rs, e, auth) = serve_listener handle rest auth in (r # rs, e, auth))"

lemmas [evals] = resolve_bind_addr_def bind_listener_def LOCALHOST_V4_def LOCALHOST_V6_def
  server_ip_addresses_def generate_self_signed_cert_def load_certs_def load_private_key_def
  build_server_config_def to_string_lossy_def build_tls_config_def log_filter_def paint_def
  CRATE_PREFIX_def format_event_def components_def path_parent_def open_log_writer_def init_logging_def
  spawn_auth_file_reloader_def open_listener_def start_ws_def start_wss_def main_start_def
  handle_accepted_stream_def

section \<open>Properties\<close>

lemma sorted_insert: "sorted xs \<and> distinct xs \<Longrightarrow> sorted (insort_insert x xs) \<and> distinct (insort_insert x xs)"
  by (simp add: sorted_insort_insert distinct_insort_insert)

lemma collected_ips:
  "sorted acc \<and> distinct acc \<Longrightarrow>
     sorted (foldl (\<lambda>ips (_, ip). insort_insert ip ips) acc ns) \<and>
     distinct (foldl (\<lambda>ips (_, ip). insort_insert ip ips) acc ns) \<and>
     set (foldl (\<lambda>ips (_, ip). insort_insert ip ips) acc ns) = set acc \<union> snd ` set ns"
proof (induction ns arbitrary: acc)
  case (Cons n ns)
  from Cons.IH [OF sorted_insert [OF Cons.prems]] show ?case
    by (cases n) (simp add: set_insort_insert)
qed simp

text \<open>
  A generated certificate names every address of the server once, in order. When the interfaces can be
  listed, the addresses are those of all interfaces and the two loopback addresses, without duplicates and
  sorted with IPv4 first; so the list equals the sorted list of that set.
\<close>

theorem server_ip_addresses_exact:
  "server_ip_addresses lib = (case tl_interfaces lib of
     None \<Rightarrow> Inl InterfacesFailed
   | Some netifas \<Rightarrow> Inr (sorted_list_of_set (snd ` set netifas \<union> {V4 0x7F000001, V6 1})))"
proof (cases "tl_interfaces lib")
  case (Some ns)
  let ?ips = "insort_insert LOCALHOST_V6 (insort_insert LOCALHOST_V4 (foldl (\<lambda>ips (_, ip). insort_insert ip ips) [] ns))"
  have "sorted ?ips \<and> distinct ?ips" using collected_ips [of "[]" ns] by (simp add: sorted_insert)
  moreover have "set ?ips = snd ` set ns \<union> {V4 0x7F000001, V6 1}"
    using collected_ips [of "[]" ns] by (auto simp: set_insort_insert LOCALHOST_V4_def LOCALHOST_V6_def)
  ultimately have "?ips = sorted_list_of_set (snd ` set ns \<union> {V4 0x7F000001, V6 1})"
    by (metis sorted_list_of_set.idem_if_sorted_distinct)
  with Some show ?thesis by (simp add: server_ip_addresses_def)
qed (simp add: server_ip_addresses_def)

lemma build_tls_config_None: "build_tls_config lib fs now a = Inr None \<Longrightarrow> \<not> has_tls_config a"
  by (auto simp: build_tls_config_def has_tls_config_def split: if_splits sum.splits option.splits prod.splits)

text \<open>A listener opened for a port: bound to what the bind option resolves to, IPv6-only exactly as asked.\<close>

definition opened_for :: "os_net \<Rightarrow> args \<Rightarrow> u16 \<Rightarrow> listener \<Rightarrow> bool" where
  "opened_for os a port l \<longleftrightarrow>
     resolve_bind_addr os (ar_bind a) port = Inr (li_addr l) \<and>
     (case sa_ip (li_addr l) of
        V4 _ \<Rightarrow> \<not> ar_ipv6_only a \<and> li_only_v6 l = None
      | V6 _ \<Rightarrow> li_only_v6 l = Some (ar_ipv6_only a))"

lemma open_listener_for: "open_listener os a port = Inr l \<Longrightarrow> opened_for os a port l"
  by (auto simp: opened_for_def open_listener_def bind_listener_def split: sum.splits ip_addr.splits if_splits)

lemma start_ws_ok:
  assumes "start_ws os a = Inr ws"
  shows "map (\<lambda>l. (sv_scheme l, sv_tls l \<noteq> None)) ws = (if includes_ws (ar_service_mode a) then [(''ws'', False)] else [])"
    and "\<forall>l \<in> set ws. sv_tls l = None \<and> opened_for os a (ar_port a) (sv_listener l)"
  using assms by (auto simp: start_ws_def dest: open_listener_for split: if_splits sum.splits)

lemma start_wss_ok:
  assumes "start_wss os a tls = Ret (Inr wss)"
  shows "map (\<lambda>l. (sv_scheme l, sv_tls l \<noteq> None)) wss = (if includes_wss (ar_service_mode a) then [(''wss'', True)] else [])"
    and "\<forall>l \<in> set wss. sv_tls l \<noteq> None \<and> opened_for os a (ar_tls_port a) (sv_listener l)"
  using assms by (auto simp: start_wss_def dest: open_listener_for split: if_splits sum.splits option.splits)

lemma build_auth_config_parts:
  assumes "build_auth_config x fs rnd imax now a = Ret (Inr auth)"
  shows "auth = None \<longleftrightarrow> ar_basic_auth a = [] \<and> ar_basic_auth_file a = None"
    and "auth = Some ac \<Longrightarrow> ac_basic_auth_file ac = ar_basic_auth_file a \<and> ac_anonymous_target_file ac = ar_anonymous_target_file a"
  using assms by (auto simp: build_auth_config_def Let_def split: if_splits sum.splits outcome.splits)

lemma build_auth_config_returns:
  "now + SWEEP_INTERVAL \<le> imax \<Longrightarrow> build_auth_config x fs rnd imax now a \<noteq> Panic"
  by (auto simp: build_auth_config_def TokenService_from_args_def TokenService_new_def instant_add_def Let_def
      split: sum.splits outcome.splits)

text \<open>
  The TLS configuration that is served: made from the certificates and the key of the configured files, or from a
  certificate generated for all addresses of the server and valid for ten years from now.
\<close>

definition serves_certificate :: "('cfg, 'f) world \<Rightarrow> args \<Rightarrow> 'cfg \<Rightarrow> bool" where
  "serves_certificate w a cfg \<longleftrightarrow>
     (if ar_auto_self_signed_cert a
      then \<exists>netifas key cert. tl_interfaces (wd_tls w) = Some netifas \<and> tl_key_pair (wd_tls w) = Some key \<and>
        tl_self_signed (wd_tls w)
          \<lparr>cp_names = map show_ip_addr (sorted_list_of_set (snd ` set netifas \<union> {V4 0x7F000001, V6 1})),
           cp_not_before = wd_time w, cp_not_after = wd_time w + 315360000,
           cp_common_name = ''ws2tcp-router self-signed''\<rparr> key = Some cert \<and>
        tl_server_config (wd_tls w) [cert] key = Some cfg
      else \<exists>cert_path key_path cert_file key_file certs key.
        ar_tls_cert a = Some cert_path \<and> ar_tls_key a = Some key_path \<and>
        wd_fs w (to_string_lossy cert_path) = Some cert_file \<and> wd_fs w (to_string_lossy key_path) = Some key_file \<and>
        tl_certs (wd_tls w) cert_file = map Inr certs \<and> certs \<noteq> [] \<and>
        tl_private_key (wd_tls w) key_file = Inr (Some key) \<and> tl_server_config (wd_tls w) certs key = Some cfg)"

lemma build_tls_config_serves:
  assumes "build_tls_config (wd_tls w) (wd_fs w) (wd_time w) a = Inr (Some cfg)"
  shows "serves_certificate w a cfg"
proof (cases "ar_auto_self_signed_cert a")
  case True
  with assms show ?thesis
    by (auto simp: serves_certificate_def build_tls_config_def build_server_config_def generate_self_signed_cert_def
        server_ip_addresses_exact Let_def split: sum.splits option.splits if_splits)
next
  case False
  with assms show ?thesis
    by (auto simp: serves_certificate_def build_tls_config_def build_server_config_def load_certs_def load_private_key_def
        collect_results_Inr_iff split: sum.splits option.splits if_splits)
qed

text \<open>The entries of a configured file.\<close>

definition file_entries :: "filesystem \<Rightarrow> string option \<Rightarrow> string list \<Rightarrow> bool" where
  "file_entries fs path entries \<longleftrightarrow>
     (case path of
        None \<Rightarrow> entries = []
      | Some p \<Rightarrow> \<exists>contents. read_to_string fs p = Some contents \<and> entries = map snd (entry_lines contents))"

text \<open>The secret of the token service: the one of the file, trimmed and long enough, or random bytes.\<close>

definition signing_secret :: "('cfg, 'f) world \<Rightarrow> args \<Rightarrow> bytes \<Rightarrow> bool" where
  "signing_secret w a secret \<longleftrightarrow>
     (case ar_token_secret_file a of
        None \<Rightarrow> wd_random w = Some secret
      | Some path \<Rightarrow> \<exists>contents. wd_fs w path = Some contents \<and> secret = trim_ascii contents \<and> 32 \<le> length secret)"

text \<open>
  The authentication that is set up: the credentials of the options and of the file, the anonymous targets of the
  options and of the file, and an empty token service with the secret and the lifetimes of the options.
\<close>

definition authenticates_as :: "ext \<Rightarrow> ('cfg, 'f) world \<Rightarrow> args \<Rightarrow> auth_config \<Rightarrow> bool" where
  "authenticates_as x w a ac \<longleftrightarrow>
     (\<exists>more. file_entries (wd_fs w) (ar_basic_auth_file a) more \<and> holds_credentials x ac (ar_basic_auth a @ more) \<and>
        ar_basic_auth a @ more \<noteq> []) \<and>
     (\<exists>more. file_entries (wd_fs w) (ar_anonymous_target_file a) more \<and>
        list_all2 (\<lambda>t allowed. \<exists>target. parse_target_addr t = Inr target \<and> allowed = addr target)
          (ar_anonymous_target a @ more) (ac_anonymous_targets ac)) \<and>
     (\<exists>svc. ac_tokens ac = Some svc \<and> signing_secret w a (ts_key svc) \<and> \<not> ts_poisoned svc \<and> records (ts_state svc) = 0 \<and>
        ts_access_ttl svc = from_secs (unat (ar_access_token_ttl a)) \<and>
        ts_refresh_ttl svc = from_secs (unat (ar_refresh_token_ttl a)))"

lemma load_auth_file_entries:
  assumes "load_optional (load_auth_file x fs) path = Inr es"
  shows "\<exists>more. file_entries fs path more \<and> es = map (encode_credential x) more \<and> (\<forall>c \<in> set more. valid_credential c)"
proof (cases path)
  case (Some p)
  with assms obtain contents cs where contents: "read_to_string fs p = Some contents"
    and cs: "collect_results (map (\<lambda>(index, c).
        case validate_basic_auth_credential c of Inl e \<Rightarrow> Inl (AuthFileLine p (index + 1) e) | Inr _ \<Rightarrow> Inr c)
      (entry_lines contents)) = Inr cs"
    and es: "encode_credentials x cs = Inr es"
    by (auto simp: load_optional_def load_auth_file_def split: option.splits sum.splits)
  have "(\<forall>l \<in> set (entry_lines contents). validate_basic_auth_credential (snd l) = Inr ()) \<and> cs = map snd (entry_lines contents)"
    by (rule collect_results_checked [THEN iffD1, OF _ cs]) (auto split: sum.splits)
  with contents es Some show ?thesis by (auto simp: encode_credentials_iff file_entries_def)
qed (use assms in \<open>auto simp: load_optional_def file_entries_def\<close>)

lemma load_targets_entries:
  assumes "load_optional (load_anonymous_target_file fs) path = Inr ts"
  shows "\<exists>more. file_entries fs path more \<and>
    list_all2 (\<lambda>t allowed. \<exists>target. parse_target_addr t = Inr target \<and> allowed = addr target) more ts"
  using assms
  by (cases path)
    (auto simp: load_optional_def file_entries_def load_anonymous_target_file_def collect_results_map_Inr_iff
      list.rel_map elim!: list_all2_mono split: option.splits sum.splits)

lemma normalized_targets:
  "normalize_anonymous_targets ts = Inr shown \<Longrightarrow>
     list_all2 (\<lambda>t allowed. \<exists>target. parse_target_addr t = Inr target \<and> allowed = addr target) ts shown"
  by (auto simp: normalize_anonymous_targets_def collect_results_map_Inr_iff elim!: list_all2_mono split: sum.splits)

lemma service_from_args:
  assumes "TokenService_from_args (wd_fs w) (wd_random w) imax now a = Ret (Inr svc)"
  shows "signing_secret w a (ts_key svc) \<and> \<not> ts_poisoned svc \<and> records (ts_state svc) = 0 \<and>
    ts_access_ttl svc = from_secs (unat (ar_access_token_ttl a)) \<and>
    ts_refresh_ttl svc = from_secs (unat (ar_refresh_token_ttl a))"
  using assms
  by (auto simp: TokenService_from_args_def TokenService_new_def signing_secret_def load_secret_def MIN_SECRET_BYTES_def
      records_def hm_len_def Let_def split: option.splits sum.splits outcome.splits if_splits)

lemma build_auth_config_as:
  assumes "build_auth_config x (wd_fs w) (wd_random w) imax now a = Ret (Inr (Some ac))"
  shows "authenticates_as x w a ac"
proof -
  obtain fixed from_file targets file_targets tokens where
    fixed: "encode_credentials x (ar_basic_auth a) = Inr fixed"
    and credentials: "load_optional (load_auth_file x (wd_fs w)) (ar_basic_auth_file a) = Inr from_file"
    and some: "fixed @ from_file \<noteq> []"
    and targets: "normalize_anonymous_targets (ar_anonymous_target a) = Inr targets"
    and file_targets: "load_optional (load_anonymous_target_file (wd_fs w)) (ar_anonymous_target_file a) = Inr file_targets"
    and tokens: "TokenService_from_args (wd_fs w) (wd_random w) imax now a = Ret (Inr tokens)"
    and ac: "ac_expected_authorizations ac = fixed @ from_file" "ac_anonymous_targets ac = targets @ file_targets"
      "ac_tokens ac = Some tokens"
    using assms by (auto simp: build_auth_config_def Let_def split: if_splits sum.splits outcome.splits)
  obtain more where more: "file_entries (wd_fs w) (ar_basic_auth_file a) more" "from_file = map (encode_credential x) more"
    "\<forall>c \<in> set more. valid_credential c" using load_auth_file_entries [OF credentials] by blast
  obtain open_more where open_more: "file_entries (wd_fs w) (ar_anonymous_target_file a) open_more"
    "list_all2 (\<lambda>t allowed. \<exists>target. parse_target_addr t = Inr target \<and> allowed = addr target) open_more file_targets"
    using load_targets_entries [OF file_targets] by blast
  have "holds_credentials x ac (ar_basic_auth a @ more)" "ar_basic_auth a @ more \<noteq> []"
    using fixed more some ac(1) by (auto simp: holds_credentials_def encode_credentials_iff)
  moreover have "list_all2 (\<lambda>t allowed. \<exists>target. parse_target_addr t = Inr target \<and> allowed = addr target)
      (ar_anonymous_target a @ open_more) (ac_anonymous_targets ac)"
    using normalized_targets [OF targets] open_more(2) unfolding ac(2) by (rule list_all2_appendI)
  ultimately show ?thesis
    unfolding authenticates_as_def using more(1) open_more(1) service_from_args [OF tokens] ac(3) by blast
qed

text \<open>
  What a successful start-up has set up, in terms of the options and of the world outside: the listeners with their
  addresses and certificates, the limits and the trusted proxies, the authentication with its reload tasks, and
  the log.
\<close>

definition started_as :: "ext \<Rightarrow> ('cfg, 'f) world \<Rightarrow> args \<Rightarrow> ('cfg, 'f) started \<Rightarrow> bool" where
  "started_as x w a s \<longleftrightarrow>
     map (\<lambda>l. (sv_scheme l, sv_tls l \<noteq> None)) (sd_listeners s) =
       (case ar_service_mode a of
          WsOnly \<Rightarrow> [(''ws'', False)] | WssOnly \<Rightarrow> [(''wss'', True)] | Both \<Rightarrow> [(''ws'', False), (''wss'', True)]) \<and>
     (\<forall>l \<in> set (sd_listeners s).
        opened_for (wd_net w) a (if sv_tls l = None then ar_port a else ar_tls_port a) (sv_listener l) \<and>
        (\<forall>cfg. sv_tls l = Some cfg \<longrightarrow> serves_certificate w a cfg)) \<and>
     sd_limits s = \<lparr>lm_buffer_size = unat (ar_buffer_size a), lm_udp_idle_timeout = unat (ar_udp_idle_timeout a) * 1000000000\<rparr> \<and>
     sd_proxies s = \<lparr>ranges = ar_trusted_proxy a\<rparr> \<and>
     (case sd_auth s of
        None \<Rightarrow> ar_basic_auth a = [] \<and> ar_basic_auth_file a = None
      | Some ac \<Rightarrow> (ar_basic_auth a \<noteq> [] \<or> ar_basic_auth_file a \<noteq> None) \<and> authenticates_as x w a ac) \<and>
     sd_tasks s = (if sd_auth s = None then []
       else (case ar_basic_auth_file a of Some p \<Rightarrow> [ReloadAuth p] | None \<Rightarrow> []) @
            (case ar_anonymous_target_file a of Some p \<Rightarrow> [ReloadAnonymous p] | None \<Rightarrow> [])) \<and>
     lg_file (sd_logging s) = ar_log_file a \<and> lg_with_time (sd_logging s) = (\<not> lw_journal_stream (wd_log w)) \<and>
     (case ar_log_level a of
        Some log_level \<Rightarrow> lw_try_new (wd_log w) log_level = Some (lg_filter (sd_logging s))
      | None \<Rightarrow> lg_filter (sd_logging s) =
          (case lw_from_env (wd_log w) of Some f \<Rightarrow> f | None \<Rightarrow> lw_into (wd_log w) ''ws2tcp_router=info''))"

lemma init_logging_as:
  assumes "init_logging lw a = Inr log"
  shows "lg_file log = ar_log_file a \<and> lg_with_time log = (\<not> lw_journal_stream lw) \<and>
    (case ar_log_level a of
       Some log_level \<Rightarrow> lw_try_new lw log_level = Some (lg_filter log)
     | None \<Rightarrow> lg_filter log = (case lw_from_env lw of Some f \<Rightarrow> f | None \<Rightarrow> lw_into lw ''ws2tcp_router=info''))"
  using assms
  by (auto simp: init_logging_def log_filter_def open_log_writer_def Let_def split: sum.splits option.splits if_splits)

lemma start_wss_certificate:
  assumes "start_wss os a tls = Ret (Inr wss)" and "\<And>cfg. tls = Some cfg \<Longrightarrow> serves_certificate w a cfg"
  shows "\<forall>l \<in> set wss. \<forall>cfg. sv_tls l = Some cfg \<longrightarrow> serves_certificate w a cfg"
  using assms by (auto simp: start_wss_def split: if_splits sum.splits option.splits)

lemma main_start_as:
  assumes "main_start x w a = Ret (Inr s)"
  shows "started_as x w a s"
proof -
  from assms obtain log auth tls ws wss where
    log: "init_logging (wd_log w) a = Inr log"
    and built: "build_auth_config x (wd_fs w) (wd_random w) (wd_imax w) (wd_now w) a = Ret (Inr auth)"
    and tls: "(if includes_wss (ar_service_mode a) then build_tls_config (wd_tls w) (wd_fs w) (wd_time w) a else Inr None) = Inr tls"
    and ws: "start_ws (wd_net w) a = Inr ws" and wss: "start_wss (wd_net w) a tls = Ret (Inr wss)"
    and s: "s = \<lparr>sd_logging = log, sd_tasks = (case auth of Some ac \<Rightarrow> spawn_auth_file_reloader ac | None \<Rightarrow> []),
      sd_auth = auth, sd_limits = \<lparr>lm_buffer_size = unat (ar_buffer_size a),
        lm_udp_idle_timeout = from_secs (unat (ar_udp_idle_timeout a))\<rparr>,
      sd_proxies = \<lparr>ranges = ar_trusted_proxy a\<rparr>, sd_listeners = ws @ wss\<rparr>"
    by (auto simp: main_start_def split: sum.splits outcome.splits)
  have certs: "\<forall>l \<in> set wss. \<forall>cfg. sv_tls l = Some cfg \<longrightarrow> serves_certificate w a cfg"
    using wss tls by (intro start_wss_certificate) (auto intro: build_tls_config_serves split: if_splits)
  have tasks: "(case auth of Some ac \<Rightarrow> spawn_auth_file_reloader ac | None \<Rightarrow> []) = (if auth = None then []
       else (case ar_basic_auth_file a of Some p \<Rightarrow> [ReloadAuth p] | None \<Rightarrow> []) @
            (case ar_anonymous_target_file a of Some p \<Rightarrow> [ReloadAnonymous p] | None \<Rightarrow> []))"
    using build_auth_config_parts(2) [OF built] by (auto simp: spawn_auth_file_reloader_def split: option.split)
  have auth: "case auth of None \<Rightarrow> ar_basic_auth a = [] \<and> ar_basic_auth_file a = None
      | Some ac \<Rightarrow> (ar_basic_auth a \<noteq> [] \<or> ar_basic_auth_file a \<noteq> None) \<and> authenticates_as x w a ac"
    using build_auth_config_parts(1) [OF built] built by (auto intro: build_auth_config_as split: option.split)
  have listeners: "map (\<lambda>l. (sv_scheme l, sv_tls l \<noteq> None)) (ws @ wss) =
      (case ar_service_mode a of
         WsOnly \<Rightarrow> [(''ws'', False)] | WssOnly \<Rightarrow> [(''wss'', True)] | Both \<Rightarrow> [(''ws'', False), (''wss'', True)])"
    using start_ws_ok(1) [OF ws] start_wss_ok(1) [OF wss]
    by (cases "ar_service_mode a") (simp_all add: includes_ws_def includes_wss_def)
  have opened: "\<forall>l \<in> set (ws @ wss). opened_for (wd_net w) a (if sv_tls l = None then ar_port a else ar_tls_port a) (sv_listener l) \<and>
        (\<forall>cfg. sv_tls l = Some cfg \<longrightarrow> serves_certificate w a cfg)"
    using start_ws_ok(2) [OF ws] start_wss_ok(2) [OF wss] certs by auto
  show ?thesis
    unfolding started_as_def s from_secs_def nanos_def started.simps
    by (intro conjI listeners opened auth tasks init_logging_as [OF log, THEN conjunct1]
        init_logging_as [OF log, THEN conjunct2, THEN conjunct1] init_logging_as [OF log, THEN conjunct2, THEN conjunct2])
      simp_all
qed

lemma start_returns:
  assumes "from_cli toml fs cli = Ret (Inr a)" and "wd_now w + SWEEP_INTERVAL \<le> wd_imax w"
  shows "main_start x w a \<noteq> Panic"
proof -
  have valid: "valid_args a" using assms(1) by (auto simp: from_cli_iff)
  have auth: "build_auth_config x (wd_fs w) (wd_random w) (wd_imax w) (wd_now w) a \<noteq> Panic"
    using assms(2) build_auth_config_returns by blast
  have tls: "build_tls_config (wd_tls w) (wd_fs w) (wd_time w) a \<noteq> Inr None" if "includes_wss (ar_service_mode a)"
  proof -
    have "ar_service_mode a \<noteq> WsOnly" using that by (auto simp: includes_wss_def)
    with valid have "has_tls_config a" by (auto simp: valid_args_def has_tls_config_def)
    with build_tls_config_None show ?thesis by blast
  qed
  show ?thesis
    using auth tls
    by (auto simp: main_start_def start_wss_def split: sum.splits outcome.splits option.splits if_splits)
qed

text \<open>
  Start-up never panics on accepted options, and serves exactly what they ask for. With options that
  \<open>from_cli\<close> accepted and a clock that can represent the sweep interval, start-up returns. When it succeeds,
  there is a plain listener exactly in the modes with WS and one with a TLS configuration exactly in the
  modes with WSS, in this order, each bound to the address the bind option and its own port resolve to, and
  IPv6-only exactly when asked; the certificate, the limits, the trusted proxies, the credentials, the anonymous
  targets, the secret and the lifetimes of the tokens, the reload tasks and the log are those of the options.
\<close>

theorem start_serves_the_mode:
  assumes "from_cli toml fs cli = Ret (Inr a)" and "wd_now w + SWEEP_INTERVAL \<le> wd_imax w"
  shows "main_start x w a \<noteq> Panic \<and> (\<forall>s. main_start x w a = Ret (Inr s) \<longrightarrow> started_as x w a s)"
  using start_returns [OF assms] main_start_as by blast

definition demo_world :: "(bytes list \<times> bytes, string) world" where
  "demo_world = \<lparr>wd_fs = (\<lambda>path. Some (as_bytes path)), wd_random = Some [7], wd_imax = from_secs 1000, wd_now = 0, wd_time = 0,
     wd_tls = \<lparr>tl_certs = (\<lambda>b. [Inr b]), tl_private_key = (\<lambda>b. Inr (Some b)), tl_server_config = (\<lambda>c k. Some (c, k)),
       tl_interfaces = None, tl_names_ok = (\<lambda>_. True), tl_key_pair = None, tl_self_signed = (\<lambda>_ _. None)\<rparr>,
     wd_net = \<lparr>os_resolve = (\<lambda>_ p. Some [\<lparr>sa_ip = V6 0, sa_port = p, sa_scope = 0\<rparr>]), os_bind = (\<lambda>_. True), os_socket_v6 = True,
       os_set_only_v6 = True, os_listen = True, os_set_nonblocking = True, os_from_std = True\<rparr>,
     wd_log = \<lparr>lw_try_new = Some, lw_from_env = None, lw_into = id, lw_journal_stream = False,
       lw_create_dir_all = (\<lambda>_. True), lw_open_append = (\<lambda>_. True)\<rparr>\<rparr>"

lemma demo_starts:
  "\<exists>s. main_start demo_ext demo_world demo_args = Ret (Inr s) \<and> map (sa_port \<circ> li_addr \<circ> sv_listener) (sd_listeners s) = [8080, 8443]"
proof -
  have "case main_start demo_ext demo_world demo_args of
      Ret (Inr s) \<Rightarrow> map (sa_port \<circ> li_addr \<circ> sv_listener) (sd_listeners s) = [8080, 8443] | _ \<Rightarrow> False"
    by code_simp
  then show ?thesis by (auto split: outcome.splits sum.splits)
qed

theorem start_serves_the_mode_witness:
  "\<exists>s. main_start demo_ext demo_world demo_args = Ret (Inr s) \<and> started_as demo_ext demo_world demo_args s \<and>
     map (sa_port \<circ> li_addr \<circ> sv_listener) (sd_listeners s) = [8080, 8443]"
proof -
  have "wd_now demo_world + SWEEP_INTERVAL \<le> wd_imax demo_world" by code_simp
  note started = start_serves_the_mode [OF demo_from_cli this, of demo_ext]
  obtain s where s: "main_start demo_ext demo_world demo_args = Ret (Inr s)"
    "map (sa_port \<circ> li_addr \<circ> sv_listener) (sd_listeners s) = [8080, 8443]"
    using demo_starts by (elim exE conjE) (rule that)
  have "started_as demo_ext demo_world demo_args s" 
    using spec [OF conjunct2 [OF started], of s] s(1) by (rule mp)
  with s show ?thesis by (intro exI [of _ s] conjI)
qed

text \<open>
  The accept loop gives up at its first error. The connections accepted before the first error of
  \<open>accept\<close> are all handled, in order; no connection after it is, however many follow.
\<close>

theorem serve_stops_at_first_error:
  "serve_listener handle (map Inr cs @ Inl e # rest) auth =
     (fst (serve_listener handle (map Inr cs) auth), Some e, snd (snd (serve_listener handle (map Inr cs) auth))) \<and>
   length (fst (serve_listener handle (map Inr cs) auth)) = length cs \<and>
   fst (snd (serve_listener handle (map Inr cs) auth)) = None"
proof (induction cs arbitrary: auth)
  case (Cons c cs)
  obtain r auth' where h: "handle c auth = (r, auth')" by (cases "handle c auth")
  from Cons.IH [of auth'] h show ?case by (simp add: split_beta Let_def)
qed simp

end
