(* ===== verification/Router.thy ===== *)
theory Router
  imports Server
begin

text \<open>
  The running router. After start-up, the connections of all listeners and the reload tasks share one
  authentication configuration with its token service. They run on one thread, and each touches the shared
  state once, without an await in between: a connection when its plain request is answered or its
  handshake is checked, a reload task at a tick of its timer. So a run is a sequence of these steps, in any
  order and with anything arriving from outside.
\<close>

section \<open>Steps\<close>

text \<open>
  \<open>ok\<close> restricts what a step may meet (the clock); everything else (the peer, the stream, what the libraries
  make of it, the file system) is arbitrary in every step. A TLS configuration is opaque: what it does is what
  the arbitrary \<open>tls_accept\<close> does, so one value stands for all.
\<close>

inductive router_step ::
  "ext \<Rightarrow> (env \<Rightarrow> bool) \<Rightarrow> auth_config option \<times> instant \<Rightarrow> auth_config option \<times> instant \<Rightarrow> bool"
  for x :: ext and ok :: "env \<Rightarrow> bool" where
  step_connection: "t \<le> env_now e \<Longrightarrow> ok e \<Longrightarrow>
     handle_accepted_stream x e httparse hx handshake nt version lm tp tls_accept (tls :: unit option) stream peer auth = (r, auth') \<Longrightarrow>
     router_step x ok (auth, t) (auth', env_now e)"
| step_reload_auth: "ReloadAuth path \<in> set (spawn_auth_file_reloader ac) \<Longrightarrow>
     poll_file_reload (reload_auth_file x fs path) (last_error, ac) = (log, last_error', ac') \<Longrightarrow>
     router_step x ok (Some ac, t) (Some ac', t)"
| step_reload_anonymous: "ReloadAnonymous path \<in> set (spawn_auth_file_reloader ac) \<Longrightarrow>
     poll_file_reload (reload_anonymous_target_file fs path) (last_error, ac) = (log, last_error', ac') \<Longrightarrow>
     router_step x ok (Some ac, t) (Some ac', t)"

abbreviation router_steps ::
  "ext \<Rightarrow> (env \<Rightarrow> bool) \<Rightarrow> auth_config option \<times> instant \<Rightarrow> auth_config option \<times> instant \<Rightarrow> bool" where
  "router_steps x ok \<equiv> (router_step x ok)\<^sup>*\<^sup>*"

section \<open>What a connection does to the shared state\<close>

text \<open>
  Without authentication nothing; otherwise at most one operation of the token service. \<open>fresh\<close> restricts the
  family that a login may draw.
\<close>

abbreviation draws :: "(u64 \<Rightarrow> bool) \<Rightarrow> env \<Rightarrow> bool" where
  "draws fresh e \<equiv> \<forall>f. random_family (env_family e) = Some f \<longrightarrow> fresh f"

definition touches :: "ext \<Rightarrow> (u64 \<Rightarrow> bool) \<Rightarrow> env \<Rightarrow> auth_config option \<Rightarrow> auth_config option \<Rightarrow> bool" where
  "touches x fresh e auth auth' \<longleftrightarrow> auth' = auth \<or>
     (\<exists>ac svc svc'. auth = Some ac \<and> ac_tokens ac = Some svc \<and> auth' = Some (ac\<lparr>ac_tokens := Some svc'\<rparr>) \<and>
        (\<forall>t \<le> env_now e. tok_step x fresh (\<lambda>_. True) (svc, t) (svc', env_now e)))"

lemma touches_refl [simp]: "touches x fresh e auth auth"
  by (simp add: touches_def)

lemma endpoint_step:
  assumes "draws fresh e"
  shows "snd (endpoint_of x e ac svc h ep) = svc \<or>
     (\<forall>t \<le> env_now e. tok_step x fresh (\<lambda>_. True) (svc, t) (snd (endpoint_of x e ac svc h ep), env_now e))"
proof (cases ep)
  case Login
  then have "snd (endpoint_of x e ac svc h ep) = svc \<or>
      (\<exists>u. snd (endpoint_of x e ac svc h ep) = snd (login x e u svc))"
    by (auto simp: endpoint_of_def login_endpoint_def split: option.splits prod.splits outcome.splits sum.splits)
      (metis snd_conv)+
  then show ?thesis using assms by (auto intro: step_login)
next
  case Refresh
  then have "snd (endpoint_of x e ac svc h ep) = svc \<or>
      (\<exists>token. snd (endpoint_of x e ac svc h ep) = snd (refresh x e token (has_user x ac) svc))"
    by (auto simp: endpoint_of_def refresh_endpoint_def
        split: option.splits prod.splits outcome.splits sum.splits token_error.splits) (metis snd_conv)+
  then show ?thesis by (auto intro: step_refresh)
next
  case Revoke
  then have "snd (endpoint_of x e ac svc h ep) = svc \<or>
      (\<exists>token. snd (endpoint_of x e ac svc h ep) = snd (revoke x e token svc))"
    by (auto simp: endpoint_of_def revoke_endpoint_def split: option.splits prod.splits outcome.splits)
      (metis snd_conv)+
  then show ?thesis by (auto intro: step_revoke)
qed

lemma auth_request_touches:
  assumes "draws fresh e"
  shows "touches x fresh e auth (snd (handle_auth_request x e req auth))"
proof (cases "Option.bind auth (\<lambda>ac. map_option (\<lambda>tokens. (ac, tokens)) (ac_tokens ac))")
  case None
  then show ?thesis by (simp add: handle_auth_request_def)
next
  case (Some p)
  then obtain ac svc where auth: "auth = Some ac" and svc: "ac_tokens ac = Some svc"
    by (auto simp: bind_eq_Some_conv)
  show ?thesis
  proof (cases "served req")
    case False
    with handle_not_served [OF False svc, of x e] auth show ?thesis by auto
  next
    case True
    define svc' where "svc' = snd (endpoint_of x e ac svc (header_str x req ''authorization'') (the (endpoint_for (rq_path req))))"
    have result: "snd (handle_auth_request x e req auth) = Some (ac\<lparr>ac_tokens := Some svc'\<rparr>)"
      by (simp add: auth handle_served [OF True svc] svc'_def split_beta)
    have "ac\<lparr>ac_tokens := Some svc\<rparr> = ac" using svc by simp
    with endpoint_step [OF assms, of x ac svc "header_str x req ''authorization''" "the (endpoint_for (rq_path req))"]
    show ?thesis unfolding result svc'_def [symmetric] using auth svc by (auto simp: touches_def)
  qed
qed

lemma plain_response_touches: "draws fresh e \<Longrightarrow> touches x fresh e auth (snd (plain_response x e version req auth))"
  using auth_request_touches [of e fresh x auth req]
  by (auto simp: plain_response_def split: outcome.splits sum.splits)

lemma connection_touches:
  "draws fresh e \<Longrightarrow> touches x fresh e auth (snd (handle_connection x e httparse hx handshake nt version lm tp read stream peer auth))"
  using plain_response_touches [of e fresh x auth version]
  by (auto simp: handle_connection_def Let_def
      split: prod.splits sum.splits option.splits outcome.splits handshake_result.splits) (metis snd_conv)+

lemma accepted_touches:
  assumes "handle_accepted_stream x e httparse hx handshake nt version lm tp tls_accept tls stream peer auth = (r, auth')"
    and "draws fresh e"
  shows "touches x fresh e auth auth'"
proof -
  have "touches x fresh e auth b" if "handle_connection x e httparse hx handshake nt version lm tp chunked_read s peer auth = (a, b)" for s a b
    using connection_touches [OF assms(2), of x auth httparse hx handshake nt version lm tp chunked_read s peer] that by simp
  with assms(1) show ?thesis
    by (auto simp: handle_accepted_stream_def split: option.splits prod.splits outcome.splits)
qed

section \<open>Invariants of a run\<close>

lemma tok_step_ttl:
  "tok_step x fresh newh c c' \<Longrightarrow>
     ts_access_ttl (fst c') = ts_access_ttl (fst c) \<and> ts_refresh_ttl (fst c') = ts_refresh_ttl (fst c)"
  by (induction rule: tok_step.induct) simp_all

text \<open>
  What holds of the shared state at time \<open>t\<close>: without credentials in the options there is no
  authentication; otherwise the configuration is well formed, polls the files of the options, and its token
  service has a well-formed and bounded store.
\<close>

fun router_inv :: "ext \<Rightarrow> args \<Rightarrow> auth_config option \<times> instant \<Rightarrow> bool" where
  "router_inv x a (None, t) \<longleftrightarrow> ar_basic_auth a = [] \<and> ar_basic_auth_file a = None"
| "router_inv x a (Some ac, t) \<longleftrightarrow> (ar_basic_auth a \<noteq> [] \<or> ar_basic_auth_file a \<noteq> None) \<and> auth_inv x (ar_basic_auth a) ac \<and>
     ac_basic_auth_file ac = ar_basic_auth_file a \<and> ac_anonymous_target_file ac = ar_anonymous_target_file a \<and>
     (\<exists>svc. ac_tokens ac = Some svc \<and> store_inv t (ts_state svc))"

text \<open>The lock of the token service is not poisoned, and its lifetimes are those of the options.\<close>

definition healthy :: "args \<Rightarrow> auth_config option \<times> instant \<Rightarrow> bool" where
  "healthy a c \<longleftrightarrow> (\<forall>ac svc. fst c = Some ac \<and> ac_tokens ac = Some svc \<longrightarrow> \<not> ts_poisoned svc \<and>
     ts_access_ttl svc = from_secs (unat (ar_access_token_ttl a)) \<and>
     ts_refresh_ttl svc = from_secs (unat (ar_refresh_token_ttl a)))"

lemma main_start_auth:
  assumes "main_start x w a = Ret (Inr s)"
  shows "build_auth_config x (wd_fs w) (wd_random w) (wd_imax w) (wd_now w) a = Ret (Inr (sd_auth s))"
  using assms by (auto simp: main_start_def split: sum.splits outcome.splits)

lemma build_auth_config_service:
  assumes "build_auth_config x fs rnd imax now a = Ret (Inr (Some ac))"
  obtains secret svc where "ac_tokens ac = Some svc"
    "TokenService_new secret (from_secs (unat (ar_access_token_ttl a))) (from_secs (unat (ar_refresh_token_ttl a))) imax now = Ret svc"
  using assms
  by (auto simp: build_auth_config_def TokenService_from_args_def Let_def split: if_splits sum.splits outcome.splits)

lemma router_start:
  assumes "main_start x w a = Ret (Inr s)"
  shows "router_inv x a (sd_auth s, wd_now w)" and "healthy a (sd_auth s, wd_now w)"
proof -
  note built = main_start_auth [OF assms]
  have "router_inv x a (sd_auth s, wd_now w) \<and> healthy a (sd_auth s, wd_now w)"
  proof (cases "sd_auth s")
    case None
    with build_auth_config_parts(1) [OF built] show ?thesis by (simp add: healthy_def)
  next
    case (Some ac)
    with built obtain secret svc where svc: "ac_tokens ac = Some svc"
      "TokenService_new secret (from_secs (unat (ar_access_token_ttl a))) (from_secs (unat (ar_refresh_token_ttl a)))
         (wd_imax w) (wd_now w) = Ret svc" by (metis build_auth_config_service)
    with Some built build_auth_config_inv [of x "wd_fs w" "wd_random w" "wd_imax w" "wd_now w" a ac]
      build_auth_config_parts(1) [OF built] build_auth_config_parts(2) [OF built, of ac] new_store_inv [OF svc(2)]
    show ?thesis by (simp add: healthy_def)
  qed
  then show "router_inv x a (sd_auth s, wd_now w)" "healthy a (sd_auth s, wd_now w)" by simp_all
qed

lemma reload_frame:
  "poll_file_reload reload (last_error, ac) = (log, last_error', ac') \<Longrightarrow> ac' = snd (reload ac)"
  by (auto simp: poll_file_reload_def split: prod.splits sum.splits bool.splits if_splits)

lemma reload_keeps [simp]:
  "ac_basic_auth_file (snd (reload_auth_file x fs path ac)) = ac_basic_auth_file ac"
  "ac_anonymous_target_file (snd (reload_auth_file x fs path ac)) = ac_anonymous_target_file ac"
  "ac_tokens (snd (reload_auth_file x fs path ac)) = ac_tokens ac"
  "ac_basic_auth_file (snd (reload_anonymous_target_file fs path ac)) = ac_basic_auth_file ac"
  "ac_anonymous_target_file (snd (reload_anonymous_target_file fs path ac)) = ac_anonymous_target_file ac"
  "ac_tokens (snd (reload_anonymous_target_file fs path ac)) = ac_tokens ac"
  by (auto simp: reload_auth_file_def reload_anonymous_target_file_def Let_def split: sum.splits)

lemma task_path:
  "ReloadAuth path \<in> set (spawn_auth_file_reloader ac) \<longleftrightarrow> ac_basic_auth_file ac = Some path"
  "ReloadAnonymous path \<in> set (spawn_auth_file_reloader ac) \<longleftrightarrow> ac_anonymous_target_file ac = Some path"
  by (auto simp: spawn_auth_file_reloader_def split: option.splits)

lemma touches_inv:
  assumes "router_inv x a (auth, t)" and "t \<le> env_now e" and "touches x (\<lambda>_. True) e auth auth'"
  shows "router_inv x a (auth', env_now e)"
proof (cases auth)
  case None
  with assms show ?thesis by (auto simp: touches_def)
next
  case (Some ac)
  with assms(1) obtain svc where inv: "auth_inv x (ar_basic_auth a) ac"
    and svc: "ac_tokens ac = Some svc" "store_inv t (ts_state svc)" by auto
  from svc(2) assms(2) have later: "store_inv (env_now e) (ts_state svc)" by (rule bounded.time)
  show ?thesis
  proof (cases "auth' = auth")
    case True
    with assms(1) Some svc later show ?thesis by auto
  next
    case False
    with assms(3) Some svc obtain svc' where auth': "auth' = Some (ac\<lparr>ac_tokens := Some svc'\<rparr>)"
      and step: "tok_step x (\<lambda>_. True) (\<lambda>_. True) (svc, t) (svc', env_now e)"
      using assms(2) by (auto simp: touches_def)
    have "store_inv (env_now e) (ts_state svc')"
      using bounded.step_keeps [OF step] svc(2) by simp
    with auth_step_inv [OF step_tokens [OF svc(1) step] inv] assms(1) Some show ?thesis by (simp add: auth')
  qed
qed

lemma router_step_inv: "router_step x ok c c' \<Longrightarrow> router_inv x a c \<Longrightarrow> router_inv x a c'"
proof (induction rule: router_step.induct)
  case (step_connection t e httparse hx handshake nt version lm tp tls_accept tls stream peer auth r auth')
  show ?case using touches_inv [OF step_connection.prems step_connection(1) accepted_touches [OF step_connection(3)]] by simp
next
  case (step_reload_auth path ac fs last_error log last_error' ac' t)
  then have ac': "ac' = snd (reload_auth_file x fs path ac)" by (simp add: reload_frame)
  have "auth_inv x (ar_basic_auth a) ac'"
    using step_reload_auth auth_step_inv [OF step_credentials [of ac path x fs]] by (simp add: ac' task_path)
  with step_reload_auth.prems show ?case by (simp add: ac')
next
  case (step_reload_anonymous path ac fs last_error log last_error' ac' t)
  then have ac': "ac' = snd (reload_anonymous_target_file fs path ac)" by (simp add: reload_frame)
  have "auth_inv x (ar_basic_auth a) ac'"
    using step_reload_anonymous auth_step_inv [OF step_targets [of ac path x fs]] by (simp add: ac' task_path)
  with step_reload_anonymous.prems show ?case by (simp add: ac')
qed

lemma router_steps_inv: "router_steps x ok c c' \<Longrightarrow> router_inv x a c \<Longrightarrow> router_inv x a c'"
  by (induction rule: rtranclp_induct) (auto intro: router_step_inv)

text \<open>
  (C12) The shared state stays sound through every run. From a successful start-up, through any interleaving of
  connections on any listener and reloads of the files in any state: authentication is never switched on
  or off; it always holds the credentials of the command line and never none; its anonymous targets are
  well formed; and the token store is well formed and within its bound.
\<close>

theorem router_stays_sound:
  assumes "main_start x w a = Ret (Inr s)" and "router_steps x (\<lambda>_. True) (sd_auth s, wd_now w) c"
  shows "router_inv x a c"
  using router_steps_inv [OF assms(2) router_start(1) [OF assms(1)]] .

text \<open>Who may be relayed, in the terms of the credentials a configuration holds.\<close>

definition entitled :: "ext \<Rightarrow> string list \<Rightarrow> auth_config \<Rightarrow> u64 \<Rightarrow> request \<Rightarrow> string \<Rightarrow> bool" where
  "entitled x cs ac unix_now req user \<longleftrightarrow>
     (if allows_anonymous_target ac (rq_path req) then user = ''anonymous''
      else (\<exists>h. header_str x req ''authorization'' = Some h \<and>
        ((\<exists>p. credential_of cs user p \<and> h = encode_credential x (user @ '':'' @ p)) \<or>
         (\<exists>token svc p. bearer_token h = Some token \<and> ac_tokens ac = Some svc \<and>
            verify_access x unix_now token svc = Ret (Some user) \<and> credential_of cs user p))))"

text \<open>The stream that a connection is read from: the accepted one, or the decrypted one after the TLS handshake.\<close>

definition decrypted :: "('cfg \<Rightarrow> chunked \<Rightarrow> chunked option) \<Rightarrow> 'cfg option \<Rightarrow> chunked \<Rightarrow> chunked option" where
  "decrypted tls_accept tls stream = (case tls of None \<Rightarrow> Some stream | Some config \<Rightarrow> tls_accept config stream)"

lemma accepted_connection:
  "handle_accepted_stream x e httparse hx handshake nt version lm tp tls_accept tls stream peer auth =
     (case decrypted tls_accept tls stream of
        None \<Rightarrow> (Ret TlsHandshakeFailed, auth)
      | Some s \<Rightarrow>
          (case handle_connection x e httparse hx handshake nt version lm tp chunked_read s peer auth of
             (Panic, auth) \<Rightarrow> (Panic, auth) | (Ret r, auth) \<Rightarrow> (Ret (Handled r), auth)))"
  by (simp add: handle_accepted_stream_def decrypted_def split: option.split)

lemma accepted_relay:
  assumes "handle_accepted_stream x e httparse hx handshake nt version lm tp tls_accept tls stream peer auth = (Ret (Handled r), auth')"
    and "relayed r = Some (client, user, ua, t)"
  shows "\<exists>plaintext head rest req. decrypted tls_accept tls stream = Some plaintext \<and>
    read_request_head chunked_read plaintext = (Inr head, rest) \<and>
    handshake (ReplayStream_new head rest) = Handshake req True \<and> client = client_addr_of httparse tp peer head \<and>
    parse_target (rq_path req) = Inr t \<and> authorize_request x (env_unix e) req auth = Ret (Inr user) \<and> auth' = auth"
proof -
  from assms(1) obtain s where s: "decrypted tls_accept tls stream = Some s"
    and "handle_connection x e httparse hx handshake nt version lm tp chunked_read s peer auth = (Ret r, auth')"
    by (auto simp: accepted_connection split: option.splits prod.splits outcome.splits)
  from relay_authorized [OF this(2) assms(2)] s show ?thesis by blast
qed

text \<open>
  (C1) End to end, nobody reaches an upstream who is not entitled to it. Start the router, let it run through any
  interleaving of connections and reloads, and take any connection that is then relayed, on any listener, as
  \<open>user\<close> to \<open>t\<close>. Then its stream, after the TLS handshake where there is one, began with a request head, and the request
  \<open>req\<close> of the websocket handshake on this head and the rest of the stream is what entitles it: the path of \<open>req\<close>
  denotes \<open>t\<close>, and either no credentials were
  configured at all and the user is \<open>anonymous\<close>; or the configuration holds credentials, those of the
  command line among them and all well formed, and \<open>req\<close> is entitled by them: its path names an
  anonymous target, or it carries the Basic encoding of a credential of \<open>user\<close>, or it carries an access
  token that the service accepts for \<open>user\<close>, who has a credential.
\<close>

theorem only_entitled_users_relayed:
  assumes "ext_ok x" and "main_start x w a = Ret (Inr s)"
    and "router_steps x (\<lambda>_. True) (sd_auth s, wd_now w) (auth, now)"
    and "handle_accepted_stream x e httparse hx handshake nt version lm tp tls_accept tls stream peer auth = (Ret (Handled r), auth')"
    and "relayed r = Some (client, user, ua, t)"
  shows "\<exists>plaintext head rest req. decrypted tls_accept tls stream = Some plaintext \<and>
    read_request_head chunked_read plaintext = (Inr head, rest) \<and>
    handshake (ReplayStream_new head rest) = Handshake req True \<and> client = client_addr_of httparse tp peer head \<and>
    parse_target (rq_path req) = Inr t \<and>
    (if ar_basic_auth a = [] \<and> ar_basic_auth_file a = None then auth = None \<and> user = ''anonymous''
     else \<exists>ac cs. auth = Some ac \<and> holds_credentials x ac (ar_basic_auth a @ cs) \<and> ar_basic_auth a @ cs \<noteq> [] \<and>
       entitled x (ar_basic_auth a @ cs) ac (env_unix e) req user)"
proof -
  have inv: "router_inv x a (auth, now)" using router_steps_inv [OF assms(3) router_start(1) [OF assms(2)]] .
  obtain plaintext head rest req where stream: "decrypted tls_accept tls stream = Some plaintext"
      "read_request_head chunked_read plaintext = (Inr head, rest)" "handshake (ReplayStream_new head rest) = Handshake req True"
      "client = client_addr_of httparse tp peer head" "parse_target (rq_path req) = Inr t"
    and req: "authorize_request x (env_unix e) req auth = Ret (Inr user)"
    using accepted_relay [OF assms(4,5)] by blast
  have "if ar_basic_auth a = [] \<and> ar_basic_auth_file a = None then auth = None \<and> user = ''anonymous''
     else \<exists>ac cs. auth = Some ac \<and> holds_credentials x ac (ar_basic_auth a @ cs) \<and> ar_basic_auth a @ cs \<noteq> [] \<and>
       entitled x (ar_basic_auth a @ cs) ac (env_unix e) req user"
  proof (cases auth)
    case None
    with inv req show ?thesis by (simp add: authorize_request_def ANONYMOUS_AUTH_USER_def)
  next
    case (Some ac)
    with inv obtain cs where cs: "holds_credentials x ac (ar_basic_auth a @ cs)" "ar_basic_auth a @ cs \<noteq> []"
      and configured: "\<not> (ar_basic_auth a = [] \<and> ar_basic_auth_file a = None)" by (auto simp: auth_inv_def)
    have "entitled x (ar_basic_auth a @ cs) ac (env_unix e) req user"
      using req unfolding Some authorize_request_iff [OF assms(1) cs(1)] entitled_def .
    with cs Some configured show ?thesis unfolding if_not_P [OF configured] by blast
  qed
  with stream show ?thesis by blast
qed

section \<open>No connection is lost to a panic\<close>

text \<open>From this instant the clock can represent everything that is ever added to it.\<close>

definition clock_fits :: "args \<Rightarrow> env \<Rightarrow> bool" where
  "clock_fits a e \<longleftrightarrow> (\<forall>d \<in> {SWEEP_INTERVAL, MAX_FAMILY_LIFETIME, from_secs (unat (ar_access_token_ttl a)),
     from_secs (unat (ar_refresh_token_ttl a))}. env_now e + d \<le> env_imax e)"

lemma auth_request_returns:
  assumes "ext_ok x" and "healthy a (auth, t)" and "clock_fits a e"
  shows "\<exists>r auth'. handle_auth_request x e req auth = (Ret r, auth') \<and> healthy a (auth', env_now e)"
proof (cases "Option.bind auth (\<lambda>ac. map_option (\<lambda>tokens. (ac, tokens)) (ac_tokens ac))")
  case None
  with assms(2) show ?thesis by (simp add: handle_auth_request_def healthy_def)
next
  case (Some p)
  then obtain ac svc where auth: "auth = Some ac" and svc: "ac_tokens ac = Some svc" by (auto simp: bind_eq_Some_conv)
  with assms(2) have ttl: "\<not> ts_poisoned svc" "ts_access_ttl svc = from_secs (unat (ar_access_token_ttl a))"
    "ts_refresh_ttl svc = from_secs (unat (ar_refresh_token_ttl a))" by (simp_all add: healthy_def)
  show ?thesis
  proof (cases "served req")
    case False
    with handle_not_served [OF False svc, of x e] assms(2) auth show ?thesis by (auto simp: healthy_def)
  next
    case True
    let ?ep = "endpoint_of x e ac svc (header_str x req ''authorization'') (the (endpoint_for (rq_path req)))"
    have "\<forall>d \<in> {SWEEP_INTERVAL, MAX_FAMILY_LIFETIME, ts_access_ttl svc, ts_refresh_ttl svc}. env_now e + d \<le> env_imax e"
      using assms(3) ttl by (simp add: clock_fits_def)
    from endpoint_status [OF assms(1) ttl(1) this] obtain r svc' where r: "?ep = (Ret r, svc')" "\<not> ts_poisoned svc'"
      by blast
    have "ts_access_ttl svc' = ts_access_ttl svc \<and> ts_refresh_ttl svc' = ts_refresh_ttl svc"
      using endpoint_step [of e "\<lambda>_. True" x ac svc "header_str x req ''authorization''" "the (endpoint_for (rq_path req))"] r(1)
      using tok_step_ttl [of x "\<lambda>_. True" "\<lambda>_. True" "(svc, env_now e)" "(svc', env_now e)"] by auto
    with r ttl show ?thesis by (simp add: auth handle_served [OF True svc] healthy_def)
  qed
qed

lemma authorize_healthy:
  assumes "ext_ok x" and "healthy a (auth, t)" and "router_inv x a (auth, t)"
  shows "authorize_request x unix_now req auth \<noteq> Panic"
proof (cases auth)
  case None
  then show ?thesis by (simp add: authorize_request_def)
next
  case (Some ac)
  with assms(2,3) obtain svc where "ac_tokens ac = Some svc" "\<not> ts_poisoned svc" by (auto simp: healthy_def)
  from authorize_request_returns [OF assms(1) this, of unix_now req] Some show ?thesis by auto
qed

lemma connection_returns:
  assumes "ext_ok x" and "healthy a (auth, t)" and "router_inv x a (auth, t)" and "clock_fits a e"
  shows "\<exists>r auth'. handle_connection x e httparse hx handshake nt version lm tp read stream peer auth = (Ret r, auth')
    \<and> healthy a (auth', env_now e)"
proof -
  have same: "healthy a (auth, env_now e)" using assms(2) by (simp add: healthy_def)
  note authorized = authorize_healthy [OF assms(1-3)]
  have plain: "\<exists>r auth'. plain_response x e version req auth = (Ret r, auth') \<and> healthy a (auth', env_now e)" for req
    using auth_request_returns [OF assms(1,2,4)] authorized [of "env_unix e" req] same
    by (auto simp: plain_response_def split: outcome.splits sum.splits)
  have callback: "accept_callback x (env_unix e) req auth sl \<noteq> Panic" for req sl
    using authorized [of "env_unix e" req] by (auto simp: accept_callback_def Let_def split: outcome.splits sum.splits)
  obtain h stream' where h: "read_request_head read stream = (h, stream')" by fastforce
  show ?thesis
  proof (cases h)
    case (Inl err)
    with h same show ?thesis by (simp add: handle_connection_def)
  next
    case (Inr head)
    show ?thesis
    proof (cases "parse_plain_request x httparse hx head")
      case (Some req)
      obtain r auth' where "plain_response x e version req auth = (Ret r, auth')" "healthy a (auth', env_now e)"
        using plain by blast
      with h Inr Some show ?thesis by (simp add: handle_connection_def Let_def)
    next
      case None
      with h Inr same callback show ?thesis
        by (auto simp: handle_connection_def Let_def
            split: handshake_result.splits outcome.splits prod.splits sum.splits)
    qed
  qed
qed

lemma accepted_returns:
  assumes "ext_ok x" and "healthy a (auth, t)" and "router_inv x a (auth, t)" and "clock_fits a e"
  shows "\<exists>r auth'. handle_accepted_stream x e httparse hx handshake nt version lm tp tls_accept tls stream peer auth = (Ret r, auth')
    \<and> healthy a (auth', env_now e)"
proof -
  have same: "healthy a (auth, env_now e)" using assms(2) by (simp add: healthy_def)
  have served: "\<exists>r auth'. (case handle_connection x e httparse hx handshake nt version lm tp chunked_read s peer auth of
      (Panic, auth) \<Rightarrow> (Panic, auth) | (Ret r, auth) \<Rightarrow> (Ret (Handled r), auth)) = (Ret r, auth') \<and> healthy a (auth', env_now e)" for s
  proof -
    obtain r auth' where "handle_connection x e httparse hx handshake nt version lm tp chunked_read s peer auth = (Ret r, auth')"
      "healthy a (auth', env_now e)"
      using connection_returns [OF assms, of httparse hx handshake nt version lm tp chunked_read s peer] by blast
    then show ?thesis by simp
  qed
  show ?thesis
  proof (cases tls)
    case None
    with served show ?thesis by (simp add: handle_accepted_stream_def)
  next
    case (Some config)
    with served same show ?thesis by (cases "tls_accept config stream") (simp_all add: handle_accepted_stream_def)
  qed
qed

lemma router_step_healthy:
  assumes "router_step x (clock_fits a) c c'" and "ext_ok x" and "router_inv x a c" and "healthy a c"
  shows "healthy a c'"
  using assms
proof (induction rule: router_step.induct)
  case (step_connection t e httparse hx handshake nt version lm tp tls_accept tls stream peer auth r auth')
  from accepted_returns [OF step_connection(4,6,5,2)] step_connection(3) show ?case by (metis prod.inject)
qed (auto simp: healthy_def dest!: reload_frame)

text \<open>
  (C10) Every connection is handled to its end. As long as the clock can represent the token lifetimes of the
  options, the sweep interval and thirty days from each instant at which a connection is served, no
  connection on any listener panics, and the lock of the token service is never poisoned: after any run from a
  successful start-up, the next accepted stream is handled and returns.
\<close>

theorem every_connection_returns:
  assumes "ext_ok x" and "main_start x w a = Ret (Inr s)"
    and "router_steps x (clock_fits a) (sd_auth s, wd_now w) (auth, now)" and "clock_fits a e"
  shows "\<exists>r auth'. handle_accepted_stream x e httparse hx handshake nt version lm tp tls_accept tls stream peer auth = (Ret r, auth')
    \<and> healthy a (auth', env_now e)"
proof -
  from assms(3) have "router_inv x a (auth, now) \<and> healthy a (auth, now)"
  proof (induction rule: rtranclp_induct)
    case base
    then show ?case using router_start [OF assms(2)] by simp
  next
    case (step c c')
    then show ?case using router_step_inv router_step_healthy [OF step(2) assms(1)] by blast
  qed
  then show ?thesis using accepted_returns [OF assms(1) _ _ assms(4)] by blast
qed

section \<open>A concrete run\<close>

text \<open>
  The router of \<open>demo_args\<close>, which opens \<open>localhost:22\<close> to everybody, and a websocket to that target.
\<close>

abbreviation demo_accept ::
  "limits \<Rightarrow> auth_config option \<Rightarrow> accepted_result outcome \<times> auth_config option" where
  "demo_accept lm \<equiv> handle_accepted_stream demo_ext (demo_env 1 5) (\<lambda>_ _. None) demo_http
     (\<lambda>_. Handshake (demo_request ''GET'' ''/tcp:localhost:22'' []) True) demo_net ''1.0'' lm demo_proxies
     (\<lambda>_ _. None) (None :: unit option) demo_stream demo_peer"

lemma demo_router:
  obtains s ac where "main_start demo_ext demo_world demo_args = Ret (Inr s)" "sd_auth s = Some ac"
    "allows_anonymous_target ac ''/tcp:localhost:22''"
proof -
  have "case main_start demo_ext demo_world demo_args of
      Ret (Inr s) \<Rightarrow> (case sd_auth s of Some ac \<Rightarrow> allows_anonymous_target ac ''/tcp:localhost:22'' | None \<Rightarrow> False)
    | _ \<Rightarrow> False"
    by code_simp
  then show ?thesis by (auto split: outcome.splits sum.splits option.splits intro: that)
qed

lemma demo_accepted:
  assumes "allows_anonymous_target ac ''/tcp:localhost:22''"
  shows "\<exists>r. demo_accept lm (Some ac) = (Ret (Handled r), Some ac) \<and> relayed r =
    Some (ClientAddr_from demo_peer, ''anonymous'', ''-'', \<lparr>t_protocol = Tcp, t_host = ''localhost'', t_port = 22\<rparr>)"
proof -
  have plain: "parse_plain_request demo_ext (\<lambda>_ _. None) demo_http head = None" for head
    by (simp add: parse_plain_request_def)
  have client: "client_addr_of (\<lambda>_ _. None) demo_proxies demo_peer head = ClientAddr_from demo_peer" for head
    by (simp add: client_addr_of_def ClientAddr_from_def forwarded_client_def)
  have target: "parse_target ''/tcp:localhost:22'' = Inr \<lparr>t_protocol = Tcp, t_host = ''localhost'', t_port = 22\<rparr>"
    by code_simp
  show ?thesis
    using assms
    by (simp add: handle_accepted_stream_def handle_connection_def demo_head plain client target accept_callback_def
        authorize_request_def capture_requested_target_def HEALTH_CHECK_PATH_def after_handshake_def
        connect_upstream_def demo_net_def demo_request_def ANONYMOUS_AUTH_USER_def request_user_agent_def
        header_str_def Let_def)
qed

lemma demo_router_step:
  assumes "sd_auth s = Some ac" and "allows_anonymous_target ac ''/tcp:localhost:22''" and "ok (demo_env 1 5)"
  shows "router_steps demo_ext ok (sd_auth s, wd_now demo_world) (Some ac, from_secs 1)"
proof -
  obtain r where "demo_accept \<lparr>lm_buffer_size = 2, lm_udp_idle_timeout = 60\<rparr> (Some ac) = (Ret (Handled r), Some ac)"
    using demo_accepted [OF assms(2)] by blast
  moreover have "env_now (demo_env 1 5) = from_secs 1" "wd_now demo_world \<le> from_secs 1"
    by (simp_all add: demo_env_def demo_world_def)
  ultimately show ?thesis
    using step_connection [where e = "demo_env 1 5" and t = "wd_now demo_world" and ok = ok and x = demo_ext] assms
    by (metis r_into_rtranclp)
qed

theorem router_stays_sound_witness:
  "\<exists>s ac. main_start demo_ext demo_world demo_args = Ret (Inr s) \<and> router_inv demo_ext demo_args (Some ac, from_secs 1)"
proof -
  obtain s ac where s: "main_start demo_ext demo_world demo_args = Ret (Inr s)" "sd_auth s = Some ac"
    "allows_anonymous_target ac ''/tcp:localhost:22''" by (rule demo_router)
  with router_stays_sound [OF s(1) demo_router_step [OF s(2,3)]] show ?thesis by blast
qed

theorem only_entitled_users_relayed_witness:
  "\<exists>ac cs. holds_credentials demo_ext ac (''bob:pw'' # cs) \<and>
     entitled demo_ext (''bob:pw'' # cs) ac (env_unix (demo_env 1 5)) (demo_request ''GET'' ''/tcp:localhost:22'' []) ''anonymous''"
proof -
  obtain s ac where s: "main_start demo_ext demo_world demo_args = Ret (Inr s)" "sd_auth s = Some ac"
    "allows_anonymous_target ac ''/tcp:localhost:22''" by (rule demo_router)
  obtain r where r: "demo_accept \<lparr>lm_buffer_size = 2, lm_udp_idle_timeout = 60\<rparr> (Some ac) = (Ret (Handled r), Some ac)"
    "relayed r = Some (ClientAddr_from demo_peer, ''anonymous'', ''-'', \<lparr>t_protocol = Tcp, t_host = ''localhost'', t_port = 22\<rparr>)"
    using demo_accepted [OF s(3)] by blast
  have "ar_basic_auth demo_args = [''bob:pw'']" by (simp add: demo_args_def)
  with only_entitled_users_relayed [OF demo_ext_ok s(1) demo_router_step [OF s(2,3)] r] show ?thesis by auto
qed

theorem every_connection_returns_witness:
  "\<exists>s ac r auth'. main_start demo_ext demo_world demo_args = Ret (Inr s) \<and>
     demo_accept (sd_limits s) (Some ac) = (Ret r, auth') \<and> healthy demo_args (auth', from_secs 1)"
proof -
  obtain s ac where s: "main_start demo_ext demo_world demo_args = Ret (Inr s)" "sd_auth s = Some ac"
    "allows_anonymous_target ac ''/tcp:localhost:22''" by (rule demo_router)
  have fits: "clock_fits demo_args (demo_env 1 5)"
    by (simp add: clock_fits_def demo_args_def demo_env_def token_consts from_secs_def nanos_def)
  have now: "env_now (demo_env 1 5) = from_secs 1" by (simp add: demo_env_def)
  from every_connection_returns [OF demo_ext_ok s(1) 
      demo_router_step [where ok = "clock_fits demo_args", OF s(2,3) fits] fits,
      of "\<lambda>_ _. None" demo_http "\<lambda>_. Handshake (demo_request ''GET'' ''/tcp:localhost:22'' []) True" demo_net "''1.0''"
        "sd_limits s" demo_proxies "\<lambda>_ _. None" "None :: unit option" demo_stream demo_peer] s(1)
  show ?thesis unfolding now by blast
qed

end
