(* ===== verification/RouterRun.thy ===== *)
theory RouterRun
  imports Router
begin

text \<open>
  Runs of the router over time: what an answered logout means for everything that happens later.
\<close>

section \<open>The token service in a run\<close>

text \<open>A step of the router is, for its token service, nothing or one of the service's own operations.\<close>

lemma router_step_service:
  assumes "router_step x ok (auth, t) (auth', t')" and "\<And>e. ok e \<Longrightarrow> draws fresh e"
    and "auth = Some ac" and "ac_tokens ac = Some svc"
  shows "t \<le> t' \<and> (\<exists>ac' svc'. auth' = Some ac' \<and> ac_tokens ac' = Some svc' \<and>
    (svc' = svc \<or> (\<forall>u \<le> t'. tok_step x fresh (\<lambda>_. True) (svc, u) (svc', t'))))"
  using assms(1)
proof (cases rule: router_step.cases)
  case (step_connection e httparse hx handshake nt version lm tp tls_accept tls stream peer r)
  then have "touches x fresh e auth auth'" using accepted_touches assms(2) by blast
  with step_connection assms(3,4) show ?thesis by (auto simp: touches_def)
next
  case (step_reload_auth path ac1 fs last_error log last_error' ac2)
  with reload_frame [OF step_reload_auth(5)] assms(3,4) show ?thesis by simp
next
  case (step_reload_anonymous path ac1 fs last_error log last_error' ac2)
  with reload_frame [OF step_reload_anonymous(5)] assms(3,4) show ?thesis by simp
qed

lemma router_steps_service:
  assumes "router_steps x ok (Some ac, t) (auth', t')" and "\<And>e. ok e \<Longrightarrow> draws fresh e" and "ac_tokens ac = Some svc"
  shows "\<exists>ac' svc' u. auth' = Some ac' \<and> ac_tokens ac' = Some svc' \<and> u \<le> t' \<and>
    tok_steps x fresh (\<lambda>_. True) (svc, t) (svc', u)"
  using assms(1)
proof (induction "(auth', t')" arbitrary: auth' t' rule: rtranclp_induct)
  case base
  with assms(3) show ?case by auto
next
  case (step c)
  obtain auth1 t1 where c: "c = (auth1, t1)" by fastforce
  from step(3) [OF c] obtain ac1 svc1 u where one: "auth1 = Some ac1" "ac_tokens ac1 = Some svc1" "u \<le> t1"
    "tok_steps x fresh (\<lambda>_. True) (svc, t) (svc1, u)" by blast
  from router_step_service [OF step(2) [unfolded c] assms(2) one(1,2)] obtain ac' svc' where
    two: "t1 \<le> t'" "auth' = Some ac'" "ac_tokens ac' = Some svc'"
      "svc' = svc1 \<or> (\<forall>u \<le> t'. tok_step x fresh (\<lambda>_. True) (svc1, u) (svc', t'))" by blast
  show ?case
  proof (cases "svc' = svc1")
    case True
    with one two show ?thesis by (auto intro: order_trans)
  next
    case False
    with one two have "tok_steps x fresh (\<lambda>_. True) (svc, t) (svc', t')"
      by (meson order_trans rtranclp.rtrancl_into_rtrancl)
    with two show ?thesis by blast
  qed
qed

text \<open>The lifetimes are those of the options throughout.\<close>

definition lifetimes :: "args \<Rightarrow> auth_config option \<Rightarrow> bool" where
  "lifetimes a auth \<longleftrightarrow> (\<forall>ac svc. auth = Some ac \<and> ac_tokens ac = Some svc \<longrightarrow>
     ts_access_ttl svc = from_secs (unat (ar_access_token_ttl a)) \<and>
     ts_refresh_ttl svc = from_secs (unat (ar_refresh_token_ttl a)))"

lemma tok_steps_ttl:
  "tok_steps x fresh newh c c' \<Longrightarrow>
     ts_access_ttl (fst c') = ts_access_ttl (fst c) \<and> ts_refresh_ttl (fst c') = ts_refresh_ttl (fst c)"
  by (induction rule: rtranclp_induct) (auto dest: tok_step_ttl)

lemma started_lifetimes:
  assumes "main_start x w a = Ret (Inr s)" and "router_steps x ok (sd_auth s, wd_now w) (auth, t)"
  shows "lifetimes a auth"
proof (cases auth)
  case (Some ac')
  from router_steps_inv [OF assms(2) router_start(1) [OF assms(1)]] router_start [OF assms(1)]
  obtain ac svc where start: "sd_auth s = Some ac" "ac_tokens ac = Some svc"
    using Some by (cases "sd_auth s") auto
  from router_start(2) [OF assms(1)] start have ttl: "ts_access_ttl svc = from_secs (unat (ar_access_token_ttl a))"
    "ts_refresh_ttl svc = from_secs (unat (ar_refresh_token_ttl a))" by (simp_all add: healthy_def)
  from router_steps_service [OF assms(2) [unfolded start(1)] _ start(2), of "\<lambda>_. True"] Some ttl
  show ?thesis by (auto simp: lifetimes_def dest!: tok_steps_ttl)
qed (simp add: lifetimes_def)

section \<open>Logging out\<close>

lemma logout_kills:
  assumes x: "ext_ok x" and svc: "ac_tokens ac = Some svc" "maps_ok (ts_state svc)"
    and request: "served req" "rq_path req = ''/auth/revoke''"
      "Option.bind (header_str x req ''authorization'') bearer_token = Some token"
      "known_family (hash_token x token) (ts_state svc) = Some f"
    and answer: "handle_auth_request x e req (Some ac) = (Ret r, auth1)"
  shows "\<exists>ac1 svc1. auth1 = Some ac1 \<and> ac_tokens ac1 = Some svc1 \<and> ts_key svc1 = ts_key svc \<and>
    ts_access_ttl svc1 = ts_access_ttl svc \<and> dead f (env_now e) (ts_access_ttl svc) (env_now e) (ts_state svc1)"
proof -
  have ep: "endpoint_for (rq_path req) = Some Revoke" using request(2) by (simp add: endpoint_for_def)
  obtain res svc1 where res: "revoke x e token svc = (res, svc1)" by fastforce
  with answer ep request obtain known where known: "res = Ret known" and auth1: "auth1 = Some (ac\<lparr>ac_tokens := Some svc1\<rparr>)"
    by (cases res) (auto simp: handle_served [OF request(1) svc(1)] endpoint_of_def revoke_endpoint_def)
  from res [unfolded known] show ?thesis
  proof (cases rule: revoke_cases)
    case (known g s')
    with request(4) revoke_family_dead [OF svc(2) known(3)] auth1 show ?thesis by simp
  qed (use request(4) in simp)
qed

text \<open>
  (C7) Logging out is final for the whole router. Start it, let it run in any way, and let a client log out with a
  refresh token of the login \<open>f\<close>, live or already spent. Whatever the router does from then on (connections on any
  listener, further logins, refreshes and logouts, reloads of its files, as long as no later login draws the same
  random family): a request that presents any access token of that login, minted up to the logout, is not
  authorized, unless its path needs no authorization at all; and no refresh token of the login is live.
\<close>

theorem router_logout_final:
  assumes x: "ext_ok x" and start: "main_start x w a = Ret (Inr s)"
    and before: "router_steps x (\<lambda>_. True) (sd_auth s, wd_now w) (Some ac, t0)"
    and request: "ac_tokens ac = Some svc" "served req" "rq_path req = ''/auth/revoke''"
      "Option.bind (header_str x req ''authorization'') bearer_token = Some token"
      "known_family (hash_token x token) (ts_state svc) = Some f"
    and logout: "handle_auth_request x e req (Some ac) = (Ret r, auth1)"
    and later: "router_steps x (draws (\<lambda>g. g \<noteq> f)) (auth1, env_now e) (auth2, t)"
    and minted: "unat um + unat (ar_access_token_ttl a) < 2 ^ 64" "unat um \<le> (off + env_now e) div nanos"
    and clock: "clock off t' unix" "t \<le> t'"
  shows "\<exists>ac2 svc2. auth2 = Some ac2 \<and> ac_tokens ac2 = Some svc2 \<and>
    (\<forall>req' h user v. header_str x req' ''authorization'' = Some h \<and> bearer_token h = Some (mint_access x svc um f user) \<and>
       \<not> allows_anonymous_target ac2 (rq_path req') \<longrightarrow> authorize_request x unix req' auth2 \<noteq> Ret (Inr v)) \<and>
    (\<forall>h rec. hm_get (st_refresh (ts_state svc2)) h = Some rec \<longrightarrow> rr_family rec \<noteq> f)"
proof -
  have "maps_ok (ts_state svc)"
    using router_steps_inv [OF before router_start(1) [OF start]] request(1) by (auto simp: store_inv_def)
  from logout_kills [OF x request(1) this request(2-5) logout] obtain ac1 svc1 where
    one: "auth1 = Some ac1" "ac_tokens ac1 = Some svc1" "ts_key svc1 = ts_key svc" "ts_access_ttl svc1 = ts_access_ttl svc"
      "dead f (env_now e) (ts_access_ttl svc) (env_now e) (ts_state svc1)" by blast
  from router_steps_service [OF later [unfolded one(1)] _ one(2), of "\<lambda>g. g \<noteq> f"] obtain ac2 svc2 u where
    two: "auth2 = Some ac2" "ac_tokens ac2 = Some svc2" "u \<le> t"
      "tok_steps x (\<lambda>g. g \<noteq> f) (\<lambda>_. True) (svc1, env_now e) (svc2, u)" by blast
  have ttl: "ts_access_ttl svc = from_secs (unat (ar_access_token_ttl a))"
    using started_lifetimes [OF start before] request(1) by (simp add: lifetimes_def)
  have gone: "verify_access x unix (mint_access x svc um f user) svc2 \<noteq> Ret (Some v) \<and>
      (\<forall>h r. hm_get (st_refresh (ts_state svc2)) h = Some r \<longrightarrow> rr_family r \<noteq> f)" for user v
    using dead_forever [OF _ two(4) x one(3,4) ttl minted clock(1)] one(4,5) two(3) clock(2) by simp
  then have refused: "authorize_request x unix req' auth2 \<noteq> Ret (Inr v)"
    if "header_str x req' ''authorization'' = Some h" "bearer_token h = Some (mint_access x svc um f user)"
      "\<not> allows_anonymous_target ac2 (rq_path req')" for req' h user v
    using that two(1,2)
    by (auto simp: authorize_request_def verify_access_token_def split: outcome.splits option.splits if_splits)
  with two gone show ?thesis by blast
qed

section \<open>A concrete logout\<close>

lemma demo_api_step:
  assumes "handle_auth_request demo_ext e (demo_request ''POST'' (''/auth/'' @ p) h) auth = (Ret r, auth')"
    and "CHR ''?'' \<notin> set p" "CHR ''#'' \<notin> set p" and "t \<le> env_now e" and "ok e"
  shows "router_step demo_ext ok (auth, t) (auth', env_now e)"
proof -
  define req where "req = demo_request ''POST'' (''/auth/'' @ p) h"
  define hx where "hx = demo_http\<lparr>hx_build := \<lambda>_ _ _. Some req\<rparr>"
  define parse where "parse = (\<lambda>(_ :: nat) (_ :: bytes).
    Some \<lparr>ph_method = Some ''POST'', ph_path = Some (''/auth/'' @ p), ph_headers = []\<rparr>)"
  have "takeWhile (\<lambda>c. c \<noteq> CHR ''?'' \<and> c \<noteq> CHR ''#'') (p @ []) = p @ takeWhile (\<lambda>c. c \<noteq> CHR ''?'' \<and> c \<noteq> CHR ''#'') []"
    using assms(2,3) by (intro takeWhile_append2) auto
  then have "target_path (''/auth/'' @ p) = ''/auth/'' @ p" by (simp add: target_path_def)
  then have plain: "parse_plain_request demo_ext parse hx head = Some req" for head
    by (simp add: parse_def hx_def req_def parse_plain_request_def demo_http_def is_upgrade_def header_str_def
        demo_request_def strip_prefix_def)
  have req: "rq_path req \<noteq> HEALTH_CHECK_PATH" "rq_method req = ''POST''"
    by (simp_all add: req_def demo_request_def HEALTH_CHECK_PATH_def)
  have "handle_accepted_stream demo_ext e parse hx undefined undefined ''1.0'' undefined demo_proxies
      undefined (None :: unit option) demo_stream demo_peer auth =
      (Ret (Handled (Answered (write_response hx r True))), auth')"
    using assms(1) [folded req_def] req
    by (simp add: handle_accepted_stream_def handle_connection_def demo_head plain plain_response_def Let_def)
  then show ?thesis by (rule step_connection [where ok = ok and e = e and t = t, OF assms(4,5)])
qed

lemma case_resultE:
  "case r of Ret (Inr s) \<Rightarrow> P s | _ \<Rightarrow> False \<Longrightarrow> (\<And>s. r = Ret (Inr s) \<Longrightarrow> P s \<Longrightarrow> thesis) \<Longrightarrow> thesis"
  by (auto split: outcome.splits sum.splits)

lemma case_someE:
  "case r of None \<Rightarrow> False | Some s \<Rightarrow> P s \<Longrightarrow> (\<And>s. r = Some s \<Longrightarrow> P s \<Longrightarrow> thesis) \<Longrightarrow> thesis"
  by (auto split: option.splits)

lemma case_answerE:
  "case r of (Ret a, Some s) \<Rightarrow> P s | _ \<Rightarrow> False \<Longrightarrow> (\<And>a s. r = (Ret a, Some s) \<Longrightarrow> P s \<Longrightarrow> thesis) \<Longrightarrow> thesis"
  by (auto split: prod.splits outcome.splits option.splits)

lemma demo_logout:
  obtains s ac0 r0 ac svc r auth1 where "main_start demo_ext demo_world demo_args = Ret (Inr s)" "sd_auth s = Some ac0"
    "handle_auth_request demo_ext (demo_env 1 5) demo_post (Some ac0) = (Ret r0, Some ac)" "ac_tokens ac = Some svc"
    "known_family (hash_token demo_ext ''af'') (ts_state svc) = Some 5"
    "handle_auth_request demo_ext (demo_env 20 7) (demo_request ''POST'' ''/auth/revoke'' ''Bearer af'') (Some ac) = (Ret r, auth1)"
    "\<forall>ac2. auth1 = Some ac2 \<longrightarrow> \<not> allows_anonymous_target ac2 ''/tcp:web:80''"
proof -
  have "case main_start demo_ext demo_world demo_args of
      Ret (Inr s) \<Rightarrow> (case sd_auth s of
        Some ac0 \<Rightarrow> (case handle_auth_request demo_ext (demo_env 1 5) demo_post (Some ac0) of
          (Ret r0, Some ac) \<Rightarrow> (case ac_tokens ac of
            Some svc \<Rightarrow> known_family (hash_token demo_ext ''af'') (ts_state svc) = Some 5 \<and>
              (case handle_auth_request demo_ext (demo_env 20 7) (demo_request ''POST'' ''/auth/revoke'' ''Bearer af'') (Some ac) of
                 (Ret r, Some ac2) \<Rightarrow> \<not> allows_anonymous_target ac2 ''/tcp:web:80'' | _ \<Rightarrow> False)
          | None \<Rightarrow> False)
        | _ \<Rightarrow> False)
      | None \<Rightarrow> False)
    | _ \<Rightarrow> False"
    by code_simp
  then show ?thesis
    by (elim case_resultE case_someE case_answerE conjE) (rule that, assumption+, simp)
qed

theorem router_logout_final_witness:
  "\<exists>s ac svc r ac2. main_start demo_ext demo_world demo_args = Ret (Inr s) \<and>
     router_steps demo_ext (\<lambda>_. True) (sd_auth s, wd_now demo_world) (Some ac, from_secs 1) \<and> ac_tokens ac = Some svc \<and>
     handle_auth_request demo_ext (demo_env 20 7) (demo_request ''POST'' ''/auth/revoke'' ''Bearer af'') (Some ac) = (Ret r, Some ac2) \<and>
     authorize_request demo_ext 1700000030 (demo_request ''GET'' ''/tcp:web:80''
       (''Bearer '' @ mint_access demo_ext svc 1700000001 5 ''bob'')) (Some ac2) \<noteq> Ret (Inr ''bob'')"
proof -
  obtain s ac0 r0 ac svc r auth1 where s: "main_start demo_ext demo_world demo_args = Ret (Inr s)" "sd_auth s = Some ac0"
    and login: "handle_auth_request demo_ext (demo_env 1 5) demo_post (Some ac0) = (Ret r0, Some ac)"
    and svc: "ac_tokens ac = Some svc" "known_family (hash_token demo_ext ''af'') (ts_state svc) = Some 5"
    and logout: "handle_auth_request demo_ext (demo_env 20 7) (demo_request ''POST'' ''/auth/revoke'' ''Bearer af'') (Some ac) = (Ret r, auth1)"
    and closed: "\<forall>ac2. auth1 = Some ac2 \<longrightarrow> \<not> allows_anonymous_target ac2 ''/tcp:web:80''" by (rule demo_logout)
  have now: "env_now (demo_env n b) = from_secs n" "env_unix (demo_env n b) = 1700000000 + of_nat n" for n b
    by (simp_all add: demo_env_def)
  have "router_step demo_ext (\<lambda>_. True) (Some ac0, wd_now demo_world) (Some ac, env_now (demo_env 1 5))"
    by (rule demo_api_step [where p = "''token''"]) (use login in \<open>simp_all add: demo_world_def\<close>)
  then have run: "router_steps demo_ext (\<lambda>_. True) (sd_auth s, wd_now demo_world) (Some ac, from_secs 1)"
    unfolding s(2) now by (rule r_into_rtranclp)
  have path: "rq_path (demo_request m p h) = p" for m p h by (simp add: demo_request_def)
  have bearer: "Option.bind (header_str demo_ext (demo_request ''POST'' ''/auth/revoke'' ''Bearer af'') ''authorization'') bearer_token
      = Some ''af''"
    unfolding demo_header by code_simp
  have ttl: "unat (1700000001 :: u64) + unat (ar_access_token_ttl demo_args) < 2 ^ 64"
    "unat (1700000001 :: u64) \<le> (from_secs 1700000000 + env_now (demo_env 20 7)) div nanos"
    by (simp_all add: demo_args_def now from_secs_def nanos_def)
  have clock: "clock (from_secs 1700000000) (from_secs 30) 1700000030"
    by (simp add: clock_def from_secs_def nanos_def)
  obtain ac2 where "auth1 = Some ac2" and refused: "\<forall>req' h user v. header_str demo_ext req' ''authorization'' = Some h \<and>
      bearer_token h = Some (mint_access demo_ext svc 1700000001 5 user) \<and> \<not> allows_anonymous_target ac2 (rq_path req') \<longrightarrow>
      authorize_request demo_ext 1700000030 req' auth1 \<noteq> Ret (Inr v)"
    using router_logout_final [OF demo_ext_ok s(1) run svc(1) demo_served(1) path bearer svc(2) logout rtranclp.rtrancl_refl
        ttl clock] by (auto simp: now from_secs_def)
  with bearer_of_token [OF demo_ext_ok] closed demo_header path have
    "authorize_request demo_ext 1700000030 (demo_request ''GET'' ''/tcp:web:80''
       (''Bearer '' @ mint_access demo_ext svc 1700000001 5 ''bob'')) (Some ac2) \<noteq> Ret (Inr ''bob'')"
    by metis
  with s run svc logout \<open>auth1 = Some ac2\<close> show ?thesis by blast
qed

end
