(* ===== verification/Serving.thy ===== *)
theory Serving
  imports Router
begin

text \<open>
  A listener of the running router: \<open>serve_listener\<close> of \<open>src/main.rs\<close> with \<open>handle_accepted_stream\<close> as the task it
  spawns. What a listener does to the shared state is a run of the router, and everybody it accepts is handled, in the
  order of arrival.
\<close>

section \<open>A listener\<close>









section \<open>Who is answered\<close>







section \<open>Property\<close>





end
