(* ===== verification/Program.thy ===== *)
theory Program
  imports Router
begin

text \<open>
  The whole program from its command line: \<open>Args::parse\<close> of \<open>src/args.rs\<close> and \<open>main\<close> of \<open>src/main.rs\<close>. \<open>clap\<close> is a
  parameter that turns the arguments into \<open>cli_args\<close>, or ends the process itself with its own message.
\<close>

section \<open>The command line\<close>

text \<open>The options that exclude each other (\<open>conflicts_with\<close>).\<close>

definition cli_conflicts :: "cli_args \<Rightarrow> bool" where
  "cli_conflicts cli \<longleftrightarrow>
     (cl_ipv6_only cli \<and> cl_no_ipv6_only cli) \<or>
     (cl_auto_self_signed_cert cli \<and>
        (cl_no_auto_self_signed_cert cli \<or> cl_tls_cert cli \<noteq> None \<or> cl_tls_key cli \<noteq> None))"

text \<open>What \<open>clap\<close> documents: a command line with options that conflict is not parsed.\<close>

definition clap_ok :: "(string list \<Rightarrow> cli_args option) \<Rightarrow> bool" where
  "clap_ok clap \<longleftrightarrow> (\<forall>argv cli. clap argv = Some cli \<longrightarrow> \<not> cli_conflicts cli)"

text \<open>\<open>None\<close>: \<open>clap\<close> has printed its message and ended the process.\<close>

definition try_parse_from ::
  "(string list \<Rightarrow> cli_args option) \<Rightarrow> (string \<Rightarrow> config_args option) \<Rightarrow> filesystem \<Rightarrow> string list
     \<Rightarrow> (args_error + args) outcome option" where
  "try_parse_from clap toml fs argv = map_option (from_cli toml fs) (clap argv)"

definition Args_parse ::
  "(string list \<Rightarrow> cli_args option) \<Rightarrow> (string \<Rightarrow> config_args option) \<Rightarrow> filesystem \<Rightarrow> string list
     \<Rightarrow> (args_error + args) outcome option" where
  "Args_parse clap toml fs args_os = try_parse_from clap toml fs args_os"

datatype main_error = ArgsError args_error | StartError start_error

definition main_program ::
  "ext \<Rightarrow> (string list \<Rightarrow> cli_args option) \<Rightarrow> (string \<Rightarrow> config_args option) \<Rightarrow> ('cfg, 'f) world \<Rightarrow> string list
     \<Rightarrow> (main_error + ('cfg, 'f) started) outcome option" where
  "main_program x clap toml w args_os =
     (case Args_parse clap toml (wd_fs w) args_os of
        None \<Rightarrow> None
      | Some Panic \<Rightarrow> Some Panic
      | Some (Ret (Inl e)) \<Rightarrow> Some (Ret (Inl (ArgsError e)))
      | Some (Ret (Inr a)) \<Rightarrow>
          (case main_start x w a of
             Panic \<Rightarrow> Some Panic
           | Ret (Inl e) \<Rightarrow> Some (Ret (Inl (StartError e)))
           | Ret (Inr s) \<Rightarrow> Some (Ret (Inr s))))"

section \<open>Every option counts\<close>

text \<open>All that is asked for on a command line is in force.\<close>

definition asked :: "'a option \<Rightarrow> 'a \<Rightarrow> bool" where
  "asked opt v \<longleftrightarrow> opt = None \<or> opt = Some v"

definition in_force :: "cli_args \<Rightarrow> args \<Rightarrow> bool" where
  "in_force cli a \<longleftrightarrow>
     asked (cl_bind cli) (ar_bind a) \<and> asked (cl_service_mode cli) (ar_service_mode a) \<and>
     asked (cl_port cli) (ar_port a) \<and> asked (cl_tls_port cli) (ar_tls_port a) \<and>
     (cl_ipv6_only cli \<longrightarrow> ar_ipv6_only a) \<and> (cl_no_ipv6_only cli \<longrightarrow> \<not> ar_ipv6_only a) \<and>
     asked (cl_buffer_size cli) (ar_buffer_size a) \<and> asked (cl_udp_idle_timeout cli) (ar_udp_idle_timeout a) \<and>
     (cl_basic_auth cli \<noteq> [] \<longrightarrow> ar_basic_auth a = cl_basic_auth cli) \<and>
     (cl_basic_auth_file cli \<noteq> None \<longrightarrow> ar_basic_auth_file a = cl_basic_auth_file cli) \<and>
     (cl_anonymous_target cli \<noteq> [] \<longrightarrow> ar_anonymous_target a = cl_anonymous_target cli) \<and>
     (cl_anonymous_target_file cli \<noteq> None \<longrightarrow> ar_anonymous_target_file a = cl_anonymous_target_file cli) \<and>
     (cl_trusted_proxy cli \<noteq> [] \<longrightarrow> ar_trusted_proxy a = cl_trusted_proxy cli) \<and>
     (cl_token_secret_file cli \<noteq> None \<longrightarrow> ar_token_secret_file a = cl_token_secret_file cli) \<and>
     asked (cl_access_token_ttl cli) (ar_access_token_ttl a) \<and>
     asked (cl_refresh_token_ttl cli) (ar_refresh_token_ttl a) \<and>
     (cl_tls_cert cli \<noteq> None \<longrightarrow> ar_tls_cert a = cl_tls_cert cli) \<and>
     (cl_tls_key cli \<noteq> None \<longrightarrow> ar_tls_key a = cl_tls_key cli) \<and>
     (cl_auto_self_signed_cert cli \<longrightarrow> ar_auto_self_signed_cert a) \<and>
     (cl_no_auto_self_signed_cert cli \<longrightarrow> \<not> ar_auto_self_signed_cert a) \<and>
     (cl_log_file cli \<noteq> None \<longrightarrow> ar_log_file a = cl_log_file cli) \<and>
     (cl_log_level cli \<noteq> None \<longrightarrow> ar_log_level a = cl_log_level cli)"

lemma asked_or [simp]: "asked opt (unwrap_or (opt_or opt other) v)"
  by (cases opt) (simp_all add: asked_def unwrap_or_def opt_or_def)

lemma opt_or_given [simp]: "opt \<noteq> None \<Longrightarrow> opt_or opt other = opt"
  by (auto simp: opt_or_def)

lemma merge_tls_in_force:
  assumes "merge_tls cli config = (cert, key, auto)" and "\<not> cli_conflicts cli"
  shows "(cl_tls_cert cli \<noteq> None \<longrightarrow> cert = cl_tls_cert cli) \<and> (cl_tls_key cli \<noteq> None \<longrightarrow> key = cl_tls_key cli) \<and>
    (cl_auto_self_signed_cert cli \<longrightarrow> auto) \<and> (cl_no_auto_self_signed_cert cli \<longrightarrow> \<not> auto)"
  using assms by (auto simp: merge_tls_def cli_conflicts_def opt_or_def split: if_splits)

lemma merge_in_force:
  assumes "merge_args cli config = Ret a" and "\<not> cli_conflicts cli"
  shows "in_force cli a"
proof -
  obtain cert key auto where tls: "merge_tls cli config = (cert, key, auto)" by (cases "merge_tls cli config")
  obtain proxies where proxies: "(if cl_trusted_proxy cli = []
      then (case cf_trusted_proxy config of None \<Rightarrow> IpRange_loopback | Some rs \<Rightarrow> Ret rs)
      else Ret (cl_trusted_proxy cli)) = Ret proxies"
    using assms(1) unfolding merge_args_def tls Let_def by (auto split: outcome.splits)
  then have "cl_trusted_proxy cli \<noteq> [] \<longrightarrow> proxies = cl_trusted_proxy cli" by (auto split: if_splits)
  moreover have "\<not> (cl_ipv6_only cli \<and> cl_no_ipv6_only cli)" using assms(2) by (simp add: cli_conflicts_def)
  moreover note merge_tls_in_force [OF tls assms(2)]
  ultimately show ?thesis
    using assms(1) unfolding merge_args_def tls Let_def prod.case proxies outcome.case outcome.inject
    by (elim ssubst [OF sym]) (simp add: in_force_def)
qed

lemma main_program_started:
  "main_program x clap toml w argv = Some (Ret (Inr s)) \<longleftrightarrow>
     (\<exists>cli a. clap argv = Some cli \<and> from_cli toml (wd_fs w) cli = Ret (Inr a) \<and> main_start x w a = Ret (Inr s))"
  by (auto simp: main_program_def Args_parse_def try_parse_from_def split: option.splits outcome.splits sum.splits)

lemma main_program_refused:
  "main_program x clap toml w argv = Some (Ret (Inl (ArgsError e))) \<longleftrightarrow>
     (\<exists>cli. clap argv = Some cli \<and> from_cli toml (wd_fs w) cli = Ret (Inl e))"
  by (auto simp: main_program_def Args_parse_def try_parse_from_def split: option.splits outcome.splits sum.splits)

text \<open>
  (C14) The program does what its command line asks for, or says why not. With a clock that can represent the sweep
  interval, it never panics at start-up, whatever the arguments, the files and the system are like. Options that are
  refused end it with their first fault. When it runs, its options are exactly the table of the options over the command
  line, the configuration file and the defaults, and no option of the command line was ignored: each one that was
  given is in force. And what runs is exactly what the options say: a plain listener in the modes with WS and one with TLS
  in the modes with WSS, each on its own port, bound to the address the bind option resolves to, and with the
  certificate of the options; the buffer size, the UDP timeout and the trusted proxies; authentication with the credentials, the
  anonymous targets, the secret and the token lifetimes of the options, and a reload task per file; and the log in
  the configured file, with the configured filter.
\<close>

theorem program_serves_command_line:
  assumes "clap_ok clap" and "wd_now w + SWEEP_INTERVAL \<le> wd_imax w"
  shows "main_program x clap toml w argv \<noteq> Some Panic \<and>
    (\<forall>e. main_program x clap toml w argv = Some (Ret (Inl (ArgsError e))) \<longleftrightarrow>
       (\<exists>cli. clap argv = Some cli \<and> (config_error toml (wd_fs w) cli e \<or>
          (\<exists>config a more. loaded_config toml (wd_fs w) cli config \<and> options_of cli config a \<and> faults a = e # more)))) \<and>
    (\<forall>s. main_program x clap toml w argv = Some (Ret (Inr s)) \<longrightarrow>
       (\<exists>cli config a. clap argv = Some cli \<and> loaded_config toml (wd_fs w) cli config \<and> options_of cli config a \<and>
          faults a = [] \<and> in_force cli a \<and> started_as x w a s))"
proof (intro conjI allI impI)
  show "main_program x clap toml w argv \<noteq> Some Panic"
    using start_returns [OF _ assms(2)] from_cli_returns [of toml "wd_fs w"]
    by (auto simp: main_program_def Args_parse_def try_parse_from_def split: option.splits outcome.splits sum.splits)
      (metis outcome.distinct(1))
next
  fix e
  show "main_program x clap toml w argv = Some (Ret (Inl (ArgsError e))) \<longleftrightarrow>
       (\<exists>cli. clap argv = Some cli \<and> (config_error toml (wd_fs w) cli e \<or>
          (\<exists>config a more. loaded_config toml (wd_fs w) cli config \<and> options_of cli config a \<and> faults a = e # more)))"
    unfolding main_program_refused from_cli_refused ..
next
  fix s
  assume "main_program x clap toml w argv = Some (Ret (Inr s))"
  then obtain cli a where cli: "clap argv = Some cli" "from_cli toml (wd_fs w) cli = Ret (Inr a)" "main_start x w a = Ret (Inr s)"
    unfolding main_program_started by blast
  from cli(2) obtain config where config: "loaded_config toml (wd_fs w) cli config" "options_of cli config a" "faults a = []"
    unfolding from_cli_table by blast
  moreover have "in_force cli a"
    using cli(1) assms(1) config(2) [folded merge_args_options] merge_in_force unfolding clap_ok_def by blast
  ultimately show "\<exists>cli config a. clap argv = Some cli \<and> loaded_config toml (wd_fs w) cli config \<and> options_of cli config a \<and>
          faults a = [] \<and> in_force cli a \<and> started_as x w a s"
    using cli(1) main_start_as [OF cli(3)] by blast
qed

text \<open>The configuration file of \<open>demo_world\<close> is its own path.\<close>

theorem program_serves_command_line_witness:
  "\<exists>s a. main_program demo_ext (\<lambda>_. Some demo_cli) (\<lambda>_. Some demo_config) demo_world [] = Some (Ret (Inr s)) \<and>
     in_force demo_cli a \<and> started_as demo_ext demo_world a s"
proof -
  have "case main_program demo_ext (\<lambda>_. Some demo_cli) (\<lambda>_. Some demo_config) demo_world [] of
      Some (Ret (Inr s)) \<Rightarrow> True | _ \<Rightarrow> False" by code_simp
  then obtain s where s: "main_program demo_ext (\<lambda>_. Some demo_cli) (\<lambda>_. Some demo_config) demo_world [] = Some (Ret (Inr s))"
    by (auto split: option.splits outcome.splits sum.splits)
  have "clap_ok (\<lambda>_. Some demo_cli)" by (simp add: clap_ok_def cli_conflicts_def demo_cli_def)
  moreover have "wd_now demo_world + SWEEP_INTERVAL \<le> wd_imax demo_world"
    by (simp add: demo_world_def token_consts from_secs_def nanos_def)
  ultimately show ?thesis
    using program_serves_command_line [of "\<lambda>_. Some demo_cli" demo_world demo_ext "\<lambda>_. Some demo_config" "[]"] s
    by auto
qed

end
