(* ===== verification/EventLog.thy ===== *)
theory EventLog
  imports Server
begin

text \<open>
  What the router logs: the \<open>debug!\<close>, \<open>info!\<close> and \<open>warn!\<close> calls of \<open>src/auth.rs\<close>, \<open>src/token_api.rs\<close>,
  \<open>src/proxy.rs\<close> and \<open>src/main.rs\<close>. Every call is an event with the values of its fields, and beside
  every operation that logs stands the list of the events it logs, in order, up to its answer or its panic.
  The properties say what an operator can conclude from the log.
\<close>

section \<open>Events\<close>

text \<open>The fields come in the order client address, user, user agent, and then what is special to the event.\<close>

datatype log_event =
    BadCredentials client_addr string string
  | LoginRejected client_addr string
  | TokensIssued client_addr string string
  | TokensRefreshed client_addr string string
  | RefreshRejected client_addr string
  | RefreshReused client_addr string string
  | LoginRevoked client_addr string
  | StoreFull
  | IssueFailed token_error
  | HttpHealthCheck client_addr string string
  | WebsocketHealthCheck client_addr string string
  | PathRejected client_addr string string string target_error
  | Proxying protocol client_addr string string string
  | WebsocketClosed "(u16 \<times> string) option"
  | UdpIdle
  | ConnectionError string socket_addr

fun event_level :: "log_event \<Rightarrow> level" where
  "event_level (BadCredentials _ _ _) = WARN"
| "event_level (LoginRejected _ _) = WARN"
| "event_level (TokensIssued _ _ _) = INFO"
| "event_level (TokensRefreshed _ _ _) = INFO"
| "event_level (RefreshRejected _ _) = WARN"
| "event_level (RefreshReused _ _ _) = WARN"
| "event_level (LoginRevoked _ _) = INFO"
| "event_level StoreFull = WARN"
| "event_level (IssueFailed _) = WARN"
| "event_level (HttpHealthCheck _ _ _) = DEBUG"
| "event_level (WebsocketHealthCheck _ _ _) = DEBUG"
| "event_level (PathRejected _ _ _ _ _) = WARN"
| "event_level (Proxying _ _ _ _ _) = INFO"
| "event_level (WebsocketClosed _) = DEBUG"
| "event_level UdpIdle = DEBUG"
| "event_level (ConnectionError _ _) = WARN"

section \<open>Authentication\<close>

definition INVALID_AUTH_USER :: string where "INVALID_AUTH_USER = ''invalid''"

text \<open>
  The two names that \<open>authorize_request\<close> works out from the \<open>Authorization\<close> header: who is authorized, and
  who is reported when nobody is.
\<close>

definition presented_user ::
  "ext \<Rightarrow> u64 \<Rightarrow> auth_config \<Rightarrow> string option \<Rightarrow> (string option \<times> string) outcome" where
  "presented_user x unix_now ac header =
     (case header of
        None \<Rightarrow> Ret (None, ANONYMOUS_AUTH_USER)
      | Some authorization \<Rightarrow>
          (case bearer_token authorization of
             Some token \<Rightarrow>
               (case verify_access_token x unix_now ac token of
                  Panic \<Rightarrow> Panic
                | Ret authorized_user \<Rightarrow> Ret (authorized_user, case authorized_user of None \<Rightarrow> INVALID_AUTH_USER | Some user \<Rightarrow> user))
           | None \<Rightarrow> Ret (basic_user x ac authorization,
               case basic_auth_username x authorization of None \<Rightarrow> INVALID_AUTH_USER | Some user \<Rightarrow> user)))"

definition authorize_log :: "ext \<Rightarrow> u64 \<Rightarrow> request \<Rightarrow> auth_config option \<Rightarrow> client_addr \<Rightarrow> log_event list" where
  "authorize_log x unix_now req auth client =
     (case auth of
        None \<Rightarrow> []
      | Some ac \<Rightarrow>
          if allows_anonymous_target ac (rq_path req) then []
          else (case presented_user x unix_now ac (header_str x req ''authorization'') of
                  Ret (None, auth_user) \<Rightarrow> [BadCredentials client auth_user (request_user_agent x req)]
                | _ \<Rightarrow> []))"

section \<open>The token endpoints\<close>

definition token_error_log :: "token_error \<Rightarrow> log_event list" where
  "token_error_log err = (case err of Full \<Rightarrow> [StoreFull] | _ \<Rightarrow> [IssueFailed err])"

definition login_log ::
  "ext \<Rightarrow> env \<Rightarrow> auth_config \<Rightarrow> token_service \<Rightarrow> string option \<Rightarrow> client_addr \<Rightarrow> string \<Rightarrow> log_event list" where
  "login_log x e ac tokens authorization client user_agent =
     (case Option.bind authorization (basic_user x ac) of
        None \<Rightarrow> [LoginRejected client user_agent]
      | Some user \<Rightarrow>
          (case fst (login x e user tokens) of
             Panic \<Rightarrow> []
           | Ret (Inr issued) \<Rightarrow> [TokensIssued client user user_agent]
           | Ret (Inl err) \<Rightarrow> token_error_log err))"

definition refresh_log ::
  "ext \<Rightarrow> env \<Rightarrow> auth_config \<Rightarrow> token_service \<Rightarrow> string option \<Rightarrow> client_addr \<Rightarrow> string \<Rightarrow> log_event list" where
  "refresh_log x e ac tokens authorization client user_agent =
     (case Option.bind authorization bearer_token of
        None \<Rightarrow> []
      | Some token \<Rightarrow>
          (case fst (refresh x e token (has_user x ac) tokens) of
             Panic \<Rightarrow> []
           | Ret (Inr (user, issued)) \<Rightarrow> [TokensRefreshed client user user_agent]
           | Ret (Inl Invalid) \<Rightarrow> [RefreshRejected client user_agent]
           | Ret (Inl (Reused user)) \<Rightarrow> [RefreshReused client user user_agent]
           | Ret (Inl err) \<Rightarrow> token_error_log err))"

definition revoke_log ::
  "ext \<Rightarrow> env \<Rightarrow> token_service \<Rightarrow> string option \<Rightarrow> client_addr \<Rightarrow> string \<Rightarrow> log_event list" where
  "revoke_log x e tokens authorization client user_agent =
     (case Option.bind authorization bearer_token of
        None \<Rightarrow> []
      | Some token \<Rightarrow>
          (case fst (revoke x e token tokens) of
             Ret True \<Rightarrow> [LoginRevoked client user_agent]
           | _ \<Rightarrow> []))"

definition auth_request_log ::
  "ext \<Rightarrow> env \<Rightarrow> request \<Rightarrow> auth_config option \<Rightarrow> client_addr \<Rightarrow> log_event list" where
  "auth_request_log x e req auth client =
     (case Option.bind auth (\<lambda>ac. map_option (\<lambda>tokens. (ac, tokens)) (ac_tokens ac)) of
        None \<Rightarrow> []
      | Some (ac, tokens) \<Rightarrow>
          (case endpoint_for (rq_path req) of
             None \<Rightarrow> []
           | Some endpoint \<Rightarrow>
               if rq_method req \<noteq> ''POST'' \<or> has_body req then []
               else
                 (let authorization = header_str x req ''authorization'';
                      user_agent = request_user_agent x req
                  in case endpoint of
                       Login \<Rightarrow> login_log x e ac tokens authorization client user_agent
                     | Refresh \<Rightarrow> refresh_log x e ac tokens authorization client user_agent
                     | Revoke \<Rightarrow> revoke_log x e tokens authorization client user_agent)))"

section \<open>Connections\<close>

definition plain_log :: "ext \<Rightarrow> env \<Rightarrow> request \<Rightarrow> auth_config option \<Rightarrow> client_addr \<Rightarrow> log_event list" where
  "plain_log x e req auth client =
     (if rq_path req = HEALTH_CHECK_PATH then
        authorize_log x (env_unix e) req auth client @
        (case authorize_request x (env_unix e) req auth of
           Ret (Inr auth_user) \<Rightarrow> [HttpHealthCheck client auth_user (request_user_agent x req)]
         | _ \<Rightarrow> [])
      else auth_request_log x e req auth client)"

definition capture_log :: "ext \<Rightarrow> request \<Rightarrow> client_addr \<Rightarrow> string \<Rightarrow> log_event list" where
  "capture_log x req client auth_user =
     (if rq_path req = HEALTH_CHECK_PATH then []
      else case parse_target (rq_path req) of
             Inr target \<Rightarrow> []
           | Inl err \<Rightarrow> [PathRejected client auth_user (request_user_agent x req) (rq_path req) err])"

definition callback_log :: "ext \<Rightarrow> u64 \<Rightarrow> request \<Rightarrow> auth_config option \<Rightarrow> client_addr \<Rightarrow> log_event list" where
  "callback_log x unix_now req auth client =
     authorize_log x unix_now req auth client @
     (case authorize_request x unix_now req auth of
        Ret (Inr auth_user) \<Rightarrow> capture_log x req client auth_user
      | _ \<Rightarrow> [])"

text \<open>The relays log how they end: the close frame of the client, and the idle timeout of a UDP session.\<close>

fun ws_log :: "ws_event list \<Rightarrow> log_event list" where
  "ws_log (WsMessage (Close frame) # inbox) = [WebsocketClosed frame]"
| "ws_log inbox = []"

fun tcp_step_log :: "tcp_choice \<Rightarrow> 's tcp_relay \<Rightarrow> log_event list" where
  "tcp_step_log (FromWs w) st = ws_log (tr_inbox st)"
| "tcp_step_log (FromTcp w) st = []"

fun tcp_log :: "'s reader \<Rightarrow> nat \<Rightarrow> tcp_choice list \<Rightarrow> 's tcp_relay \<Rightarrow> log_event list" where
  "tcp_log read buffer_size [] st = []"
| "tcp_log read buffer_size (c # cs) st =
     (if tr_status st = Running
      then tcp_step_log c st @ tcp_log read buffer_size cs (tcp_step read buffer_size c st) else [])"

fun udp_step_log :: "duration \<Rightarrow> duration \<times> udp_source \<times> write_result \<Rightarrow> udp_relay \<Rightarrow> log_event list" where
  "udp_step_log idle_timeout (delay, source, w) st =
     (if idle_timeout \<le> delay \<or> (source = UdpSide \<and> ur_upstream st = []) then [UdpIdle]
      else case source of WsSide \<Rightarrow> ws_log (ur_inbox st) | UdpSide \<Rightarrow> [])"

fun udp_log :: "duration \<Rightarrow> (duration \<times> udp_source \<times> write_result) list \<Rightarrow> udp_relay \<Rightarrow> log_event list" where
  "udp_log idle_timeout [] st = []"
| "udp_log idle_timeout (c # cs) st =
     (if ur_status st = Running
      then udp_step_log idle_timeout c st @ udp_log idle_timeout cs (udp_step idle_timeout c st) else [])"

definition upstream_log :: "limits \<Rightarrow> net \<Rightarrow> client_addr \<Rightarrow> string \<Rightarrow> string \<Rightarrow> target \<Rightarrow> log_event list" where
  "upstream_log lm nt client user ua target =
     Proxying (t_protocol target) client user ua (addr target) #
     (case connect_upstream lm nt client user ua target of
        TcpRelayed _ _ _ _ _ \<Rightarrow>
          tcp_log chunked_read (lm_buffer_size lm) (nt_tcp_schedule nt)
            \<lparr>tr_inbox = nt_inbox nt, tr_upstream = nt_bytes nt, tr_to_tcp = [], tr_shutdown = False, tr_to_ws = [],
             tr_status = Running\<rparr>
      | UdpRelayed _ _ _ _ _ \<Rightarrow>
          udp_log (lm_udp_idle_timeout lm) (nt_udp_schedule nt)
            \<lparr>ur_inbox = nt_inbox nt, ur_upstream = nt_datagrams nt, ur_to_udp = [], ur_to_ws = [], ur_waited = 0,
             ur_status = Running\<rparr>
      | _ \<Rightarrow> [])"

definition session_log :: "limits \<Rightarrow> net \<Rightarrow> client_addr \<Rightarrow> slots \<Rightarrow> log_event list" where
  "session_log lm nt client sl =
     (case (sl_target sl, sl_user sl, sl_user_agent sl) of
        (Some HealthCheck, Some user, Some ua) \<Rightarrow> [WebsocketHealthCheck client user ua]
      | (Some (Proxy target), Some user, Some ua) \<Rightarrow> upstream_log lm nt client user ua target
      | _ \<Rightarrow> [])"

definition connection_log ::
  "ext \<Rightarrow> env \<Rightarrow> head_parser \<Rightarrow> http_lib \<Rightarrow> ('s replay_stream \<Rightarrow> handshake_result) \<Rightarrow> net
     \<Rightarrow> limits \<Rightarrow> trusted_proxies \<Rightarrow> 's reader \<Rightarrow> 's \<Rightarrow> socket_addr \<Rightarrow> auth_config option \<Rightarrow> log_event list" where
  "connection_log x e httparse hx handshake nt lm tp read stream peer auth =
     (case read_request_head read stream of
        (Inl _, stream) \<Rightarrow> []
      | (Inr head, stream) \<Rightarrow>
          (let client = client_addr_of httparse tp peer head
           in case parse_plain_request x httparse hx head of
                Some req \<Rightarrow> plain_log x e req auth client
              | None \<Rightarrow>
                  (case handshake (ReplayStream_new head stream) of
                     HandshakeBroken \<Rightarrow> []
                   | Handshake req completes \<Rightarrow>
                       callback_log x (env_unix e) req auth client @
                       (case accept_callback x (env_unix e) req auth
                               \<lparr>sl_target = None, sl_user = None, sl_user_agent = None\<rparr> of
                          Ret (Inr _, sl) \<Rightarrow> if completes then session_log lm nt client sl else []
                        | _ \<Rightarrow> []))))"

section \<open>The accepted connection\<close>

text \<open>Whether \<open>handle_connection\<close> returned an error; a relay that goes on has not returned.\<close>

fun conn_failed :: "conn_result \<Rightarrow> bool" where
  "conn_failed ReadHeadFailed = True"
| "conn_failed (Answered _) = False"
| "conn_failed HandshakeFailed = True"
| "conn_failed (HandshakeRefused _) = True"
| "conn_failed (NotCaptured _) = True"
| "conn_failed (HealthChecked _) = False"
| "conn_failed (ConnectFailed _ _) = True"
| "conn_failed (TcpRelayed _ _ _ _ st) \<longleftrightarrow> (case tr_status st of Failed _ \<Rightarrow> True | _ \<Rightarrow> False)"
| "conn_failed (UdpRelayed _ _ _ _ st) \<longleftrightarrow> (case ur_status st of Failed _ \<Rightarrow> True | _ \<Rightarrow> False)"

fun accepted_failed :: "accepted_result outcome \<Rightarrow> bool" where
  "accepted_failed (Ret TlsHandshakeFailed) = True"
| "accepted_failed (Ret (Handled r)) = conn_failed r"
| "accepted_failed Panic = False"

text \<open>The task of one accepted connection: what its handler logs, and the warning of \<open>serve_listener\<close>.\<close>

definition accepted_log ::
  "ext \<Rightarrow> env \<Rightarrow> head_parser \<Rightarrow> http_lib \<Rightarrow> (chunked replay_stream \<Rightarrow> handshake_result) \<Rightarrow> net \<Rightarrow> string
     \<Rightarrow> limits \<Rightarrow> trusted_proxies \<Rightarrow> ('cfg \<Rightarrow> chunked \<Rightarrow> chunked option) \<Rightarrow> 'cfg option
     \<Rightarrow> string \<Rightarrow> chunked \<Rightarrow> socket_addr \<Rightarrow> auth_config option \<Rightarrow> log_event list" where
  "accepted_log x e httparse hx handshake nt version lm tp tls_accept tls_config scheme stream peer auth =
     (case (case tls_config of None \<Rightarrow> Some stream | Some config \<Rightarrow> tls_accept config stream) of
        None \<Rightarrow> []
      | Some stream \<Rightarrow> connection_log x e httparse hx handshake nt lm tp chunked_read stream peer auth) @
     (if accepted_failed (fst (handle_accepted_stream x e httparse hx handshake nt version lm tp tls_accept
           tls_config stream peer auth))
      then [ConnectionError scheme peer] else [])"

end
