(* ===== verification/EventProps.thy ===== *)
theory EventProps
  imports EventLog
begin

text \<open>
  What the log tells. Every connection leaves exactly the lines that say how it ended: a refusal names the client and the
  user that was claimed, a relay is announced with its user and target before the upstream is contacted, the
  token endpoints report what they issued, renewed and revoked, by a table. No line depends on a password or a token.
\<close>

section \<open>Authorization\<close>

lemma authorize_request_presented:
  "authorize_request x unix_now req (Some ac) =
     (if allows_anonymous_target ac (rq_path req) then Ret (Inr ANONYMOUS_AUTH_USER)
      else case presented_user x unix_now ac (header_str x req ''authorization'') of
             Panic \<Rightarrow> Panic
           | Ret (Some user, _) \<Rightarrow> Ret (Inr user)
           | Ret (None, _) \<Rightarrow>
               (case unauthorized_response x True (map_option (\<lambda>_.
                       if Option.bind (header_str x req ''authorization'') bearer_token \<noteq> None
                       then BEARER_INVALID_CHALLENGE else BEARER_CHALLENGE) (ac_tokens ac)) of
                  Panic \<Rightarrow> Panic
                | Ret response \<Rightarrow> Ret (Inl response)))"
  by (simp add: authorize_request_def presented_user_def split: option.split outcome.split)

text \<open>The name that a refusal reports.\<close>

definition claimed_user :: "ext \<Rightarrow> string option \<Rightarrow> string" where
  "claimed_user x header =
     (case header of
        None \<Rightarrow> ''anonymous''
      | Some h \<Rightarrow>
          if bearer_token h \<noteq> None then ''invalid''
          else (case basic_auth_username x h of None \<Rightarrow> ''invalid'' | Some user \<Rightarrow> user))"

lemma presented_none: "presented_user x unix_now ac h = Ret (None, user) \<Longrightarrow> user = claimed_user x h"
  by (auto simp: presented_user_def claimed_user_def ANONYMOUS_AUTH_USER_def INVALID_AUTH_USER_def
      split: option.splits outcome.splits)

lemma authorize_log_accepted:
  "authorize_request x unix_now req auth = Ret (Inr user) \<Longrightarrow> authorize_log x unix_now req auth client = []"
  by (cases auth)
    (auto simp: authorize_request_presented authorize_log_def split: if_splits outcome.splits option.splits)

lemma authorize_log_refused:
  "authorize_request x unix_now req auth = Ret (Inl response) \<Longrightarrow>
     authorize_log x unix_now req auth client =
       [BadCredentials client (claimed_user x (header_str x req ''authorization'')) (request_user_agent x req)]"
  by (cases auth)
    (auto simp: authorize_request_def [of _ _ _ None] authorize_request_presented authorize_log_def
      dest: presented_none split: if_splits outcome.splits option.splits)

lemma append_challenges_status: "append_challenges x cs r = Ret r' \<Longrightarrow> rs_status r' = rs_status r"
  by (induction cs arbitrary: r) (auto split: if_splits)

lemma unauthorized_response_status: "unauthorized_response x basic bearer = Ret r \<Longrightarrow> rs_status r = 401"
  unfolding unauthorized_response_def by (drule append_challenges_status) simp

lemma authorize_refused_status:
  "authorize_request x unix_now req auth = Ret (Inl response) \<Longrightarrow> rs_status response = 401"
  by (cases auth)
    (auto simp: authorize_request_def [of _ _ _ None] authorize_request_presented
      dest: unauthorized_response_status split: if_splits outcome.splits option.splits)

section \<open>Relays\<close>

lemma ws_log_closes:
  "ws_log inbox \<noteq> [] \<Longrightarrow> \<exists>frame rest. inbox = WsMessage (Close frame) # rest \<and> ws_log inbox = [WebsocketClosed frame]"
  by (cases inbox rule: ws_log.cases) auto

lemma tcp_log_stopped [simp]: "tr_status st \<noteq> Running \<Longrightarrow> tcp_log read n cs st = []"
  by (cases cs) simp_all

lemma udp_log_stopped [simp]: "ur_status st \<noteq> Running \<Longrightarrow> udp_log d cs st = []"
  by (cases cs) simp_all

lemma tcp_step_closes:
  assumes "tcp_step_log c st \<noteq> []"
  shows "\<exists>frame. tcp_step_log c st = [WebsocketClosed frame] \<and> tr_status (tcp_step read n c st) \<noteq> Running"
proof (cases c)
  case (FromWs w)
  with assms ws_log_closes [of "tr_inbox st"] show ?thesis
    by (cases w) (auto simp: shutdown_tcp_def)
qed (use assms in simp)

lemma tcp_log_end: "tcp_log read n cs st = [] \<or> (\<exists>frame. tcp_log read n cs st = [WebsocketClosed frame])"
proof (induction cs arbitrary: st)
  case (Cons c cs)
  show ?case
  proof (cases "tcp_step_log c st = []")
    case False
    with tcp_step_closes [OF False, of read n] show ?thesis by auto
  qed (use Cons.IH in simp)
qed simp

lemma udp_step_closes:
  assumes "udp_step_log d c st \<noteq> []"
  shows "(udp_step_log d c st = [UdpIdle] \<or> (\<exists>frame. udp_step_log d c st = [WebsocketClosed frame])) \<and>
    ur_status (udp_step d c st) = Done"
proof -
  obtain delay source w where c: "c = (delay, source, w)" by (cases c)
  with assms ws_log_closes [of "ur_inbox st"] show ?thesis
    by (cases source) (auto simp: udp_idle_def udp_from_ws_def split: if_splits)
qed

lemma udp_log_end:
  "udp_log d cs st = [] \<or> udp_log d cs st = [UdpIdle] \<or> (\<exists>frame. udp_log d cs st = [WebsocketClosed frame])"
proof (induction cs arbitrary: st)
  case (Cons c cs)
  show ?case
  proof (cases "udp_step_log d c st = []")
    case False
    with udp_step_closes [OF False] show ?thesis by auto
  qed (use Cons.IH in simp)
qed simp

text \<open>The close frames among the websocket events that a relay has taken.\<close>

definition closes :: "ws_event list \<Rightarrow> log_event list" where
  "closes taken = [WebsocketClosed frame. WsMessage (Close frame) \<leftarrow> taken]"

lemma closes_simps [simp]:
  "closes [] = []" "closes (ev # taken) = closes [ev] @ closes taken"
  by (simp_all add: closes_def)

declare closes_simps(2) [simp del]

lemma ws_log_first [simp]: "ws_log (ev # rest) = closes [ev]"
  by (cases "ev # rest" rule: ws_log.cases) (auto simp: closes_def)

lemma tcp_step_taken:
  "\<exists>taken. tr_inbox st = taken @ tr_inbox (tcp_step read n c st) \<and> tcp_step_log c st = closes taken"
proof (cases c)
  case (FromTcp w)
  obtain r u where "read n (tr_upstream st) = (r, u)" by fastforce
  with FromTcp show ?thesis by (cases r; cases w) (auto simp: send_ws_def Let_def)
next
  case (FromWs w)
  show ?thesis
  proof (cases "tr_inbox st")
    case Nil
    with FromWs show ?thesis by (cases w) (auto simp: shutdown_tcp_def)
  next
    case (Cons ev rest)
    then have "tr_inbox (tcp_step read n c st) = rest"
      using FromWs by (cases w)
        (auto simp: write_tcp_def send_ws_def shutdown_tcp_def Let_def split: ws_event.splits message.splits)
    with Cons FromWs show ?thesis by (intro exI [of _ "[ev]"]) simp
  qed
qed

lemma tcp_log_taken:
  "\<exists>taken. tr_inbox st = taken @ tr_inbox (tcp_run read n cs st) \<and> tcp_log read n cs st = closes taken"
proof (induction cs arbitrary: st)
  case (Cons c cs)
  obtain first where first: "tr_inbox st = first @ tr_inbox (tcp_step read n c st)" "tcp_step_log c st = closes first"
    using tcp_step_taken [of st read n c] by blast
  obtain more where more: "tr_inbox (tcp_step read n c st) = more @ tr_inbox (tcp_run read n cs (tcp_step read n c st))"
    "tcp_log read n cs (tcp_step read n c st) = closes more" using Cons.IH by blast
  show ?case
  proof (cases "tr_status st = Running")
    case True
    have "closes (first @ more) = closes first @ closes more" by (simp add: closes_def)
    with first more True show ?thesis by (intro exI [of _ "first @ more"]) simp
  qed simp
qed simp

text \<open>The timeout of a UDP session fires at an event that comes too late, while the session is still running.\<close>

fun fires :: "duration \<Rightarrow> duration \<times> udp_source \<times> write_result \<Rightarrow> udp_relay \<Rightarrow> bool" where
  "fires idle (delay, source, w) st \<longleftrightarrow> idle \<le> delay \<or> (source = UdpSide \<and> ur_upstream st = [])"

definition timed_out :: "duration \<Rightarrow> (duration \<times> udp_source \<times> write_result) list \<Rightarrow> udp_relay \<Rightarrow> bool" where
  "timed_out idle schedule st \<longleftrightarrow>
     (\<exists>before c after. schedule = before @ c # after \<and> ur_status (udp_run idle before st) = Running \<and>
        fires idle c (udp_run idle before st))"

lemma timed_out_Nil [simp]: "\<not> timed_out idle [] st"
  by (simp add: timed_out_def)

lemma timed_out_Cons:
  "timed_out idle (c # cs) st \<longleftrightarrow> ur_status st = Running \<and> (fires idle c st \<or> timed_out idle cs (udp_step idle c st))"
  (is "?l \<longleftrightarrow> ?r")
proof
  assume ?l
  then obtain before d after where split: "c # cs = before @ d # after" "ur_status (udp_run idle before st) = Running"
    "fires idle d (udp_run idle before st)" by (auto simp: timed_out_def)
  show ?r
  proof (cases before)
    case Nil
    with split show ?thesis by simp
  next
    case (Cons c' before')
    with split have "c' = c" "cs = before' @ d # after" "ur_status st = Running"
      "ur_status (udp_run idle before' (udp_step idle c st)) = Running" "fires idle d (udp_run idle before' (udp_step idle c st))"
      by (auto simp del: udp_step.simps fires.simps split: if_splits)
    then show ?thesis unfolding timed_out_def by blast
  qed
next
  assume r: ?r
  then consider "fires idle c st" | before d after where "cs = before @ d # after"
      "ur_status (udp_run idle before (udp_step idle c st)) = Running" "fires idle d (udp_run idle before (udp_step idle c st))"
    by (auto simp: timed_out_def)
  then show ?l
  proof cases
    case 1
    with r show ?thesis unfolding timed_out_def by (intro exI [of _ "[]"] exI [of _ c] exI [of _ cs]) simp
  next
    case 2
    with r show ?thesis unfolding timed_out_def by (intro exI [of _ "c # before"] exI [of _ d] exI [of _ after]) simp
  qed
qed

lemma timed_out_stopped [simp]: "ur_status st \<noteq> Running \<Longrightarrow> \<not> timed_out idle cs st"
  by (cases cs) (simp_all add: timed_out_Cons)

lemma udp_step_taken:
  "\<exists>taken. ur_inbox st = taken @ ur_inbox (udp_step idle c st) \<and>
     udp_step_log idle c st = closes taken @ (if fires idle c st then [UdpIdle] else [])"
proof -
  obtain delay source w where c: "c = (delay, source, w)" by (cases c)
  show ?thesis
  proof (cases "fires idle c st \<or> source = UdpSide \<or> ur_inbox st = []")
    case True
    with c show ?thesis
      by (intro exI [of _ "[]"], cases source)
        (auto simp: udp_idle_def udp_from_ws_def udp_from_upstream_def udp_send_ws_def Let_def
          split: list.splits option.splits write_result.splits)
  next
    case False
    then obtain ev rest where ev: "ur_inbox st = ev # rest" "source = WsSide" "\<not> idle \<le> delay"
      using c by (cases "ur_inbox st"; cases source) auto
    then have "ur_inbox (udp_step idle c st) = rest"
      using c by (cases w)
        (auto simp: udp_from_ws_def udp_send_def udp_send_ws_def Let_def split: ws_event.splits message.splits)
    with ev c show ?thesis by (intro exI [of _ "[ev]"]) simp
  qed
qed

lemma fires_done: "fires idle c st \<Longrightarrow> ur_status (udp_step idle c st) = Done"
  by (cases c rule: prod_cases3) (auto simp: udp_idle_def)

lemma udp_log_taken:
  "\<exists>taken. ur_inbox st = taken @ ur_inbox (udp_run idle cs st) \<and>
     udp_log idle cs st = closes taken @ (if timed_out idle cs st then [UdpIdle] else [])"
proof (induction cs arbitrary: st)
  case (Cons c cs)
  obtain first where first: "ur_inbox st = first @ ur_inbox (udp_step idle c st)"
      "udp_step_log idle c st = closes first @ (if fires idle c st then [UdpIdle] else [])"
    using udp_step_taken [of st idle c] by blast
  obtain more where more: "ur_inbox (udp_step idle c st) = more @ ur_inbox (udp_run idle cs (udp_step idle c st))"
      "udp_log idle cs (udp_step idle c st) = closes more @ (if timed_out idle cs (udp_step idle c st) then [UdpIdle] else [])"
    using Cons.IH by blast
  show ?case
  proof (cases "ur_status st = Running")
    case run: True
    show ?thesis
    proof (cases "fires idle c st")
      case True
      have "udp_run idle cs (udp_step idle c st) = udp_step idle c st" using fires_done [OF True] by (cases cs) simp_all
      with first run True fires_done [OF True] show ?thesis
        by (intro exI [of _ first]) (simp add: timed_out_Cons del: udp_step.simps fires.simps)
    next
      case False
      have "closes (first @ more) = closes first @ closes more" by (simp add: closes_def)
      with first more run False show ?thesis
        by (intro exI [of _ "first @ more"]) (simp add: timed_out_Cons del: udp_step.simps fires.simps)
    qed
  qed simp
qed simp

section \<open>The token endpoints\<close>

text \<open>What the token service says to the refresh token, or to the logout, of a request.\<close>

definition refreshed_as ::
  "ext \<Rightarrow> env \<Rightarrow> request \<Rightarrow> auth_config option \<Rightarrow> token_error + string \<times> issued_tokens \<Rightarrow> bool" where
  "refreshed_as x e req auth result \<longleftrightarrow>
     (\<exists>ac svc token. auth = Some ac \<and> ac_tokens ac = Some svc \<and>
        Option.bind (header_str x req ''authorization'') bearer_token = Some token \<and>
        fst (refresh x e token (has_user x ac) svc) = Ret result)"

definition revoked_as :: "ext \<Rightarrow> env \<Rightarrow> request \<Rightarrow> auth_config option \<Rightarrow> bool \<Rightarrow> bool" where
  "revoked_as x e req auth known \<longleftrightarrow>
     (\<exists>ac svc token. auth = Some ac \<and> ac_tokens ac = Some svc \<and>
        Option.bind (header_str x req ''authorization'') bearer_token = Some token \<and>
        fst (revoke x e token svc) = Ret known)"

text \<open>
  The table of what a request to the token endpoints logs, given the status of its answer: at most one line, and each
  line exactly when. Nothing is logged of a request that is not served (a wrong path, method or a body), of a refresh or a
  logout without a token, and of a logout whose token is not known.
\<close>

definition token_audit ::
  "ext \<Rightarrow> env \<Rightarrow> request \<Rightarrow> auth_config option \<Rightarrow> client_addr \<Rightarrow> nat \<Rightarrow> log_event list \<Rightarrow> bool" where
  "token_audit x e req auth client status log \<longleftrightarrow>
     (let ua = request_user_agent x req; header = header_str x req ''authorization''; path = rq_path req
      in (log = [] \<or> (\<exists>user. log \<in> {[TokensIssued client user ua], [TokensRefreshed client user ua], [RefreshReused client user ua]}) \<or>
            log \<in> {[RefreshRejected client ua], [LoginRejected client ua], [LoginRevoked client ua], [StoreFull]} \<or>
            (\<exists>err. log = [IssueFailed err])) \<and>
         (status = 200 \<longleftrightarrow> (\<exists>user. log \<in> {[TokensIssued client user ua], [TokensRefreshed client user ua]})) \<and>
         (\<forall>user. log = [TokensIssued client user ua] \<longleftrightarrow> status = 200 \<and> path = ''/auth/token'' \<and>
            (\<exists>ac h. auth = Some ac \<and> header = Some h \<and> basic_user x ac h = Some user)) \<and>
         (\<forall>user. log = [TokensRefreshed client user ua] \<longleftrightarrow> status = 200 \<and> path = ''/auth/refresh'' \<and>
            (\<exists>issued. refreshed_as x e req auth (Inr (user, issued)))) \<and>
         (\<forall>user. log = [RefreshReused client user ua] \<longleftrightarrow> status = 401 \<and> path = ''/auth/refresh'' \<and>
            refreshed_as x e req auth (Inl (Reused user))) \<and>
         (log = [RefreshRejected client ua] \<longleftrightarrow> status = 401 \<and> path = ''/auth/refresh'' \<and>
            refreshed_as x e req auth (Inl Invalid)) \<and>
         (log = [LoginRejected client ua] \<longleftrightarrow> status = 401 \<and> path = ''/auth/token'') \<and>
         (log = [LoginRevoked client ua] \<longleftrightarrow> status = 204 \<and> revoked_as x e req auth True) \<and>
         (log = [StoreFull] \<longleftrightarrow> status = 503) \<and>
         ((\<exists>err. log = [IssueFailed err]) \<longleftrightarrow> status = 500) \<and>
         (log = [] \<longleftrightarrow> status \<in> {400, 404, 405} \<or>
            (status = 401 \<and> path \<noteq> ''/auth/token'' \<and> Option.bind header bearer_token = None) \<or>
            (status = 204 \<and> revoked_as x e req auth False)))"

lemma login_logged:
  assumes "login_endpoint x e ac svc h = (Ret r, svc')"
  shows "case Option.bind h (basic_user x ac) of
      None \<Rightarrow> rs_status r = 401 \<and> login_log x e ac svc h client ua = [LoginRejected client ua]
    | Some user \<Rightarrow> (rs_status r = 200 \<and> login_log x e ac svc h client ua = [TokensIssued client user ua]) \<or>
        (rs_status r = 503 \<and> login_log x e ac svc h client ua = [StoreFull]) \<or>
        (rs_status r = 500 \<and> (\<exists>err. login_log x e ac svc h client ua = [IssueFailed err]))"
  using assms
  by (auto simp: login_endpoint_def login_log_def token_error_log_def token_error_response_def
      dest: unauthorized_response_status
      split: option.splits prod.splits outcome.splits sum.splits token_error.splits)

lemma refresh_logged:
  assumes "refresh_endpoint x e ac svc h = (Ret r, svc')"
  shows "case Option.bind h bearer_token of
      None \<Rightarrow> rs_status r = 401 \<and> refresh_log x e ac svc h client ua = []
    | Some token \<Rightarrow> \<exists>result. fst (refresh x e token (has_user x ac) svc) = Ret result \<and>
        (case result of
           Inr (user, issued) \<Rightarrow> rs_status r = 200 \<and> refresh_log x e ac svc h client ua = [TokensRefreshed client user ua]
         | Inl Invalid \<Rightarrow> rs_status r = 401 \<and> refresh_log x e ac svc h client ua = [RefreshRejected client ua]
         | Inl (Reused user) \<Rightarrow> rs_status r = 401 \<and> refresh_log x e ac svc h client ua = [RefreshReused client user ua]
         | Inl Full \<Rightarrow> rs_status r = 503 \<and> refresh_log x e ac svc h client ua = [StoreFull]
         | Inl Random \<Rightarrow> rs_status r = 500 \<and> refresh_log x e ac svc h client ua = [IssueFailed Random])"
  using assms
  by (auto simp: refresh_endpoint_def refresh_log_def token_error_log_def token_error_response_def
      dest: unauthorized_response_status
      split: option.splits prod.splits outcome.splits sum.splits token_error.splits)

lemma revoke_logged:
  assumes "revoke_endpoint x e svc h = (Ret r, svc')"
  shows "case Option.bind h bearer_token of
      None \<Rightarrow> rs_status r = 401 \<and> revoke_log x e svc h client ua = []
    | Some token \<Rightarrow> \<exists>known. fst (revoke x e token svc) = Ret known \<and> rs_status r = 204 \<and>
        revoke_log x e svc h client ua = (if known then [LoginRevoked client ua] else [])"
proof (cases "Option.bind h bearer_token")
  case (Some token)
  obtain known svc'' where "revoke x e token svc = (known, svc'')" by fastforce
  with Some assms show ?thesis by (cases known) (auto simp: revoke_endpoint_def revoke_log_def split: bool.split)
qed (use assms in \<open>auto simp: revoke_endpoint_def revoke_log_def dest: unauthorized_response_status\<close>)

lemma auth_request_audited:
  assumes "handle_auth_request x e req auth = (Ret r, auth')"
  shows "token_audit x e req auth client (rs_status r) (auth_request_log x e req auth client)"
proof (cases "Option.bind auth (\<lambda>ac. map_option (\<lambda>tokens. (ac, tokens)) (ac_tokens ac))")
  case None
  with assms show ?thesis by (auto simp: token_audit_def handle_auth_request_def auth_request_log_def Let_def)
next
  case (Some p)
  then obtain ac svc where auth: "auth = Some ac" and svc: "ac_tokens ac = Some svc" by (auto simp: bind_eq_Some_conv)
  let ?h = "header_str x req ''authorization''" and ?ua = "request_user_agent x req"
  show ?thesis
  proof (cases "served req")
    case False
    with assms handle_not_served [OF False svc, of x e] auth have "rs_status r \<in> {400, 404, 405}" by auto
    moreover have "auth_request_log x e req auth client = []"
      using False auth svc by (auto simp: auth_request_log_def served_def split: option.split)
    ultimately show ?thesis by (auto simp: token_audit_def Let_def)
  next
    case True
    then obtain ep where ep: "endpoint_for (rq_path req) = Some ep" by (auto simp: served_def)
    with True assms auth svc obtain svc' where answer: "endpoint_of x e ac svc ?h ep = (Ret r, svc')"
      by (auto simp: handle_served split: prod.splits)
    have log: "auth_request_log x e req auth client = (case ep of
        Login \<Rightarrow> login_log x e ac svc ?h client ?ua | Refresh \<Rightarrow> refresh_log x e ac svc ?h client ?ua
      | Revoke \<Rightarrow> revoke_log x e svc ?h client ?ua)"
      using True ep auth svc by (simp add: auth_request_log_def served_def Let_def)
    show ?thesis
    proof (cases ep)
      case Login
      then have path: "rq_path req = ''/auth/token''" using ep by (auto simp: endpoint_for_def split: if_splits)
      from login_logged [of x e ac svc ?h r svc' client ?ua] answer Login show ?thesis
        unfolding log token_audit_def Let_def path
        by (cases "Option.bind ?h (basic_user x ac)") (auto simp: endpoint_of_def auth bind_eq_Some_conv)
    next
      case Refresh
      then have path: "rq_path req = ''/auth/refresh''" using ep by (auto simp: endpoint_for_def split: if_splits)
      show ?thesis
      proof (cases "Option.bind ?h bearer_token")
        case None
        with refresh_logged [of x e ac svc ?h r svc' client ?ua] answer Refresh show ?thesis
          unfolding log token_audit_def Let_def path by (simp add: endpoint_of_def refreshed_as_def revoked_as_def)
      next
        case (Some token)
        with refresh_logged [of x e ac svc ?h r svc' client ?ua] answer Refresh
        obtain result where result: "fst (refresh x e token (has_user x ac) svc) = Ret result"
          and logged: "case result of
             Inr (user, issued) \<Rightarrow> rs_status r = 200 \<and> refresh_log x e ac svc ?h client ?ua = [TokensRefreshed client user ?ua]
           | Inl Invalid \<Rightarrow> rs_status r = 401 \<and> refresh_log x e ac svc ?h client ?ua = [RefreshRejected client ?ua]
           | Inl (Reused user) \<Rightarrow> rs_status r = 401 \<and> refresh_log x e ac svc ?h client ?ua = [RefreshReused client user ?ua]
           | Inl Full \<Rightarrow> rs_status r = 503 \<and> refresh_log x e ac svc ?h client ?ua = [StoreFull]
           | Inl Random \<Rightarrow> rs_status r = 500 \<and> refresh_log x e ac svc ?h client ?ua = [IssueFailed Random]"
          by (auto simp: endpoint_of_def)
        have refreshed: "refreshed_as x e req auth q \<longleftrightarrow> q = result" for q
          using auth svc Some result by (auto simp: refreshed_as_def)
        show ?thesis
        proof (cases result)
          case (Inl err)
          with logged Some Refresh show ?thesis
            unfolding log token_audit_def Let_def path refreshed by (cases err) auto
        next
          case (Inr renewed)
          with logged Some Refresh show ?thesis
            unfolding log token_audit_def Let_def path refreshed by (cases renewed) auto
        qed
      qed
    next
      case Revoke
      then have path: "rq_path req = ''/auth/revoke''" using ep by (auto simp: endpoint_for_def split: if_splits)
      show ?thesis
      proof (cases "Option.bind ?h bearer_token")
        case None
        with revoke_logged [of x e svc ?h r svc' client ?ua] answer Revoke show ?thesis
          unfolding log token_audit_def Let_def path by (simp add: endpoint_of_def refreshed_as_def revoked_as_def)
      next
        case (Some token)
        with revoke_logged [of x e svc ?h r svc' client ?ua] answer Revoke
        obtain known where known: "fst (revoke x e token svc) = Ret known" and logged: "rs_status r = 204"
            "revoke_log x e svc ?h client ?ua = (if known then [LoginRevoked client ?ua] else [])"
          by (auto simp: endpoint_of_def)
        have revoked: "revoked_as x e req auth q \<longleftrightarrow> q = known" for q
          using auth svc Some known by (auto simp: revoked_as_def)
        show ?thesis
          using logged Some Revoke unfolding log token_audit_def Let_def path revoked by (cases known) simp_all
      qed
    qed
  qed
qed

section \<open>One connection\<close>

text \<open>What a plain request logs: the health check or its refusal, and else the table of the token endpoints.\<close>

definition plain_audit ::
  "ext \<Rightarrow> env \<Rightarrow> http_lib \<Rightarrow> request \<Rightarrow> auth_config option \<Rightarrow> client_addr \<Rightarrow> conn_result \<Rightarrow> log_event list \<Rightarrow> bool" where
  "plain_audit x e hx req auth client r log \<longleftrightarrow>
     (\<exists>response. r = Answered (write_response hx response (rq_method req \<noteq> ''HEAD'')) \<and>
        (if rq_path req \<noteq> ''/'' then token_audit x e req auth client (rs_status response) log
         else if \<exists>user. authorize_request x (env_unix e) req auth = Ret (Inr user)
         then rs_status response = 200 \<and> (\<exists>user. authorize_request x (env_unix e) req auth = Ret (Inr user) \<and>
           log = [HttpHealthCheck client user (request_user_agent x req)])
         else rs_status response = 401 \<and>
           log = [BadCredentials client (claimed_user x (header_str x req ''authorization'')) (request_user_agent x req)]))"

text \<open>
  What a relay logs: its announcement, before the upstream is contacted; then the close frame among the
  events that it took from the client, and the idle timeout where it fired.
\<close>

definition relay_audit ::
  "limits \<Rightarrow> net \<Rightarrow> client_addr \<Rightarrow> string \<Rightarrow> string \<Rightarrow> target \<Rightarrow> conn_result \<Rightarrow> log_event list \<Rightarrow> bool" where
  "relay_audit lm nt client user ua t r log \<longleftrightarrow>
     (\<exists>ending. log = Proxying (t_protocol t) client user ua (addr t) # ending \<and>
        ((\<exists>err. r = ConnectFailed (addr t) err \<and> ending = []) \<or>
         (\<exists>st taken. r = TcpRelayed client user ua t st \<and> t_protocol t = Tcp \<and>
            nt_inbox nt = taken @ tr_inbox st \<and> ending = closes taken) \<or>
         (\<exists>st taken. r = UdpRelayed client user ua t st \<and> t_protocol t = Udp \<and>
            nt_inbox nt = taken @ ur_inbox st \<and>
            ending = closes taken @
              (if timed_out (lm_udp_idle_timeout lm) (nt_udp_schedule nt)
                 \<lparr>ur_inbox = nt_inbox nt, ur_upstream = nt_datagrams nt, ur_to_udp = [], ur_to_ws = [], ur_waited = 0,
                  ur_status = Running\<rparr>
               then [UdpIdle] else []))))"

text \<open>
  What a websocket handshake logs: the refusal of its credentials or of its path; and once it has completed, the health
  check or the relay.
\<close>

definition handshake_audit ::
  "ext \<Rightarrow> env \<Rightarrow> limits \<Rightarrow> net \<Rightarrow> request \<Rightarrow> bool \<Rightarrow> auth_config option \<Rightarrow> client_addr \<Rightarrow> conn_result
     \<Rightarrow> log_event list \<Rightarrow> bool" where
  "handshake_audit x e lm nt req completes auth client r log \<longleftrightarrow>
     (let ua = request_user_agent x req
      in (\<exists>response. authorize_request x (env_unix e) req auth = Ret (Inl response) \<and> r = HandshakeRefused response \<and>
            rs_status response = 401 \<and>
            log = [BadCredentials client (claimed_user x (header_str x req ''authorization'')) ua]) \<or>
         (\<exists>user. authorize_request x (env_unix e) req auth = Ret (Inr user) \<and>
            (if rq_path req \<noteq> ''/'' \<and> (\<exists>err. parse_target (rq_path req) = Inl err)
             then \<exists>response err. parse_target (rq_path req) = Inl err \<and> r = HandshakeRefused response \<and>
               rs_status response = 400 \<and> log = [PathRejected client user ua (rq_path req) err]
             else if \<not> completes then r = HandshakeFailed \<and> log = []
             else if rq_path req = ''/'' then (\<exists>frames. r = HealthChecked frames) \<and> log = [WebsocketHealthCheck client user ua]
             else \<exists>t. parse_target (rq_path req) = Inr t \<and> relay_audit lm nt client user ua t r log)))"

text \<open>What a connection logs that ended with \<open>r\<close>.\<close>

definition audited ::
  "ext \<Rightarrow> env \<Rightarrow> head_parser \<Rightarrow> http_lib \<Rightarrow> ('s replay_stream \<Rightarrow> handshake_result) \<Rightarrow> net \<Rightarrow> limits \<Rightarrow> trusted_proxies
     \<Rightarrow> 's reader \<Rightarrow> 's \<Rightarrow> socket_addr \<Rightarrow> auth_config option \<Rightarrow> conn_result \<Rightarrow> log_event list \<Rightarrow> bool" where
  "audited x e httparse hx handshake nt lm tp read stream peer auth r log \<longleftrightarrow>
     (case read_request_head read stream of
        (Inl _, _) \<Rightarrow> r = ReadHeadFailed \<and> log = []
      | (Inr head, rest) \<Rightarrow>
          (let client = client_addr_of httparse tp peer head
           in case parse_plain_request x httparse hx head of
                Some req \<Rightarrow> plain_audit x e hx req auth client r log
              | None \<Rightarrow>
                  (case handshake (ReplayStream_new head rest) of
                     HandshakeBroken \<Rightarrow> r = HandshakeFailed \<and> log = []
                   | Handshake req completes \<Rightarrow> handshake_audit x e lm nt req completes auth client r log)))"

lemma upstream_audited:
  "relay_audit lm nt client user ua t (connect_upstream lm nt client user ua t) (upstream_log lm nt client user ua t)"
proof (cases "t_protocol t")
  case Tcp
  let ?st = "\<lparr>tr_inbox = nt_inbox nt, tr_upstream = nt_bytes nt, tr_to_tcp = [], tr_shutdown = False, tr_to_ws = [],
    tr_status = Running\<rparr>"
  obtain taken where "nt_inbox nt = taken @ tr_inbox (tcp_run chunked_read (lm_buffer_size lm) (nt_tcp_schedule nt) ?st)"
      "tcp_log chunked_read (lm_buffer_size lm) (nt_tcp_schedule nt) ?st = closes taken"
    using tcp_log_taken [of ?st chunked_read "lm_buffer_size lm" "nt_tcp_schedule nt"] by auto
  with Tcp show ?thesis by (auto simp: relay_audit_def upstream_log_def connect_upstream_def proxy_tcp_def)
next
  case Udp
  let ?st = "\<lparr>ur_inbox = nt_inbox nt, ur_upstream = nt_datagrams nt, ur_to_udp = [], ur_to_ws = [], ur_waited = 0,
    ur_status = Running\<rparr>"
  obtain taken where "nt_inbox nt = taken @ ur_inbox (udp_run (lm_udp_idle_timeout lm) (nt_udp_schedule nt) ?st)"
      "udp_log (lm_udp_idle_timeout lm) (nt_udp_schedule nt) ?st =
        closes taken @ (if timed_out (lm_udp_idle_timeout lm) (nt_udp_schedule nt) ?st then [UdpIdle] else [])"
    using udp_log_taken [of ?st "lm_udp_idle_timeout lm" "nt_udp_schedule nt"] by auto
  with Udp show ?thesis
    by (auto simp: relay_audit_def upstream_log_def connect_upstream_def proxy_udp_def split: sum.split)
qed

lemma plain_audited:
  assumes "plain_response x e version req auth = (Ret response, auth')"
  shows "plain_audit x e hx req auth client (Answered (write_response hx response (rq_method req \<noteq> ''HEAD'')))
    (plain_log x e req auth client)"
proof (cases "rq_path req = ''/''")
  case False
  with assms auth_request_audited [of x e req auth response auth' client] show ?thesis
    by (auto simp: plain_audit_def plain_response_def plain_log_def HEALTH_CHECK_PATH_def)
next
  case True
  then obtain a where a: "authorize_request x (env_unix e) req auth = Ret a"
    using assms by (auto simp: plain_response_def HEALTH_CHECK_PATH_def split: outcome.splits)
  show ?thesis
  proof (cases a)
    case (Inl refusal)
    with a True assms authorize_refused_status [of x "env_unix e" req auth refusal] show ?thesis
      unfolding plain_audit_def plain_log_def
      by (intro exI [of _ response]) (simp add: plain_response_def HEALTH_CHECK_PATH_def authorize_log_refused)
  next
    case (Inr user)
    with a True assms show ?thesis
      unfolding plain_audit_def plain_log_def
      by (intro exI [of _ response])
        (auto simp: plain_response_def HEALTH_CHECK_PATH_def authorize_log_accepted health_check_response_def)
  qed
qed

lemma callback_audited:
  assumes "accept_callback x (env_unix e) req auth sl = Ret (d, sl')"
  shows "handshake_audit x e lm nt req completes auth client
    (case d of Inl response \<Rightarrow> HandshakeRefused response
     | Inr _ \<Rightarrow> if completes then after_handshake version lm nt client sl' else HandshakeFailed)
    (callback_log x (env_unix e) req auth client @
      (case d of Inr _ \<Rightarrow> if completes then session_log lm nt client sl' else [] | Inl _ \<Rightarrow> []))"
proof -
  from assms obtain a where a: "authorize_request x (env_unix e) req auth = Ret a"
    by (auto simp: accept_callback_def Let_def split: outcome.splits)
  show ?thesis
  proof (cases a)
    case (Inl response)
    with a assms authorize_refused_status [of x "env_unix e" req auth response] show ?thesis
      by (auto simp: handshake_audit_def accept_callback_def callback_log_def authorize_log_refused Let_def)
  next
    case (Inr user)
    show ?thesis
    proof (cases d)
      case refused: (Inl response)
      with a Inr assms show ?thesis
        by (auto simp: handshake_audit_def accept_callback_def callback_log_def authorize_log_accepted
            capture_requested_target_def capture_log_def HEALTH_CHECK_PATH_def Let_def split: if_splits sum.splits)
    next
      case accepted: (Inr u)
      have callback: "callback_log x (env_unix e) req auth client = []"
        using a Inr assms accepted
        by (auto simp: accept_callback_def callback_log_def authorize_log_accepted capture_requested_target_def
            capture_log_def Let_def split: if_splits sum.splits)
      from callback_accepts [OF assms [unfolded accepted]] a Inr have slots:
        "sl_user sl' = Some user" "sl_user_agent sl' = Some (request_user_agent x req)"
        "if rq_path req = ''/'' then sl_target sl' = Some HealthCheck
         else \<exists>t. parse_target (rq_path req) = Inr t \<and> sl_target sl' = Some (Proxy t)" by auto
      with a Inr accepted callback upstream_audited show ?thesis
        by (auto simp: handshake_audit_def after_handshake_def session_log_def Let_def split: if_splits)
    qed
  qed
qed

lemma connection_audited:
  assumes "handle_connection x e httparse hx handshake nt version lm tp read stream peer auth = (Ret r, auth')"
  shows "audited x e httparse hx handshake nt lm tp read stream peer auth r
    (connection_log x e httparse hx handshake nt lm tp read stream peer auth)"
proof (cases "read_request_head read stream")
  case (Pair h stream')
  show ?thesis
  proof (cases h)
    case (Inl u)
    with assms Pair show ?thesis by (auto simp: audited_def handle_connection_def connection_log_def)
  next
    case (Inr head)
    let ?client = "client_addr_of httparse tp peer head"
    show ?thesis
    proof (cases "parse_plain_request x httparse hx head")
      case (Some req)
      from assms Pair Inr Some obtain response auth'' where "plain_response x e version req auth = (Ret response, auth'')"
          "r = Answered (write_response hx response (rq_method req \<noteq> ''HEAD''))"
        by (auto simp: handle_connection_def Let_def split: prod.splits outcome.splits)
      with plain_audited [OF this(1), of hx ?client] Pair Inr Some show ?thesis
        by (simp add: audited_def connection_log_def Let_def)
    next
      case None
      note head = Pair Inr None
      show ?thesis
      proof (cases "handshake (ReplayStream_new head stream')")
        case HandshakeBroken
        with assms head show ?thesis by (auto simp: audited_def handle_connection_def connection_log_def Let_def)
      next
        case (Handshake req completes)
        define sl0 where "sl0 = \<lparr>sl_target = None, sl_user = None, sl_user_agent = None\<rparr>"
        from assms head Handshake obtain d sl
          where call: "accept_callback x (env_unix e) req auth sl0 = Ret (d, sl)"
          by (auto simp: handle_connection_def sl0_def Let_def split: outcome.splits)
        have "r = (case d of Inl response \<Rightarrow> HandshakeRefused response
          | Inr _ \<Rightarrow> if completes then after_handshake version lm nt ?client sl else HandshakeFailed)"
          using assms head Handshake call
          by (auto simp: handle_connection_def sl0_def Let_def split: sum.splits if_splits)
        moreover have "connection_log x e httparse hx handshake nt lm tp read stream peer auth =
          callback_log x (env_unix e) req auth ?client @
            (case d of Inr _ \<Rightarrow> if completes then session_log lm nt ?client sl else [] | Inl _ \<Rightarrow> [])"
          using head Handshake call by (auto simp: connection_log_def sl0_def Let_def split: sum.splits)
        ultimately show ?thesis
          using callback_audited [OF call, of lm nt completes ?client version] head Handshake
          by (simp add: audited_def Let_def)
      qed
    qed
  qed
qed

section \<open>Properties\<close>


lemma proxying_not_closing [simp]:
  "Proxying p c u ua a \<notin> set (tcp_log read n cs st)" "Proxying p c u ua a \<notin> set (udp_log d ks st')"
  using tcp_log_end [of read n cs st] udp_log_end [of d ks st'] by auto

lemma upstream_log_proxying:
  "Proxying p c u ua a \<in> set (upstream_log lm nt client user agent t) \<longleftrightarrow>
     p = t_protocol t \<and> c = client \<and> u = user \<and> ua = agent \<and> a = addr t"
  by (auto simp: upstream_log_def split: conn_result.splits)

lemma authorize_log_cases:
  "authorize_log x unix_now req auth client = [] \<or> (\<exists>user ua. authorize_log x unix_now req auth client = [BadCredentials client user ua])"
  by (auto simp: authorize_log_def split: option.split outcome.split)

lemma plain_log_not_proxying [simp]: "Proxying p c u ua a \<notin> set (plain_log x e req auth client)"
  using authorize_log_cases [of x "env_unix e" req auth client]
  by (auto simp: plain_log_def auth_request_log_def login_log_def refresh_log_def revoke_log_def token_error_log_def
      Let_def split: option.splits endpoint.splits outcome.splits sum.splits token_error.splits bool.splits if_splits)

lemma callback_log_not_proxying [simp]: "Proxying p c u ua a \<notin> set (callback_log x unix_now req auth client)"
  using authorize_log_cases [of x unix_now req auth client]
  by (auto simp: callback_log_def capture_log_def split: outcome.splits sum.splits if_splits)

text \<open>
  (C21) What the log says of a relay is true. When the log of a connection announces that \<open>user\<close> is relayed to
  \<open>upstream\<close>, the request that its handshake presented was authorized as exactly this user and its path denotes
  exactly this upstream, and the address and the user agent are those of the head and the request.
\<close>

theorem announced_relays_authorized:
  assumes "Proxying protocol client user ua upstream \<in>
    set (connection_log x e httparse hx handshake nt lm tp read stream peer auth)"
  shows "\<exists>head stream' req t. read_request_head read stream = (Inr head, stream') \<and>
    handshake (ReplayStream_new head stream') = Handshake req True \<and>
    authorize_request x (env_unix e) req auth = Ret (Inr user) \<and> parse_target (rq_path req) = Inr t \<and>
    protocol = t_protocol t \<and> upstream = addr t \<and>
    client = client_addr_of httparse tp peer head \<and> ua = request_user_agent x req"
proof -
  obtain h stream' where "read_request_head read stream = (h, stream')" by fastforce
  with assms obtain head where head: "read_request_head read stream = (Inr head, stream')"
    by (cases h) (simp_all add: connection_log_def)
  with assms have none: "parse_plain_request x httparse hx head = None"
    by (cases "parse_plain_request x httparse hx head") (simp_all add: connection_log_def)
  define sl0 where "sl0 = \<lparr>sl_target = None, sl_user = None, sl_user_agent = None\<rparr>"
  obtain req completes where shake: "handshake (ReplayStream_new head stream') = Handshake req completes"
    using assms head none
    by (cases "handshake (ReplayStream_new head stream')") (simp_all add: connection_log_def)
  obtain d sl where ret: "accept_callback x (env_unix e) req auth sl0 = Ret (d, sl)"
    using assms head none shake
    by (cases "accept_callback x (env_unix e) req auth sl0") (auto simp: connection_log_def sl0_def)
  with assms head none shake obtain u where "completes"
    and call: "accept_callback x (env_unix e) req auth sl0 = Ret (Inr u, sl)"
    and session: "Proxying protocol client user ua upstream \<in> set (session_log lm nt (client_addr_of httparse tp peer head) sl)"
    by (cases d) (auto simp: connection_log_def sl0_def Let_def split: if_splits)
  from callback_accepts [OF call] session have
    "authorize_request x (env_unix e) req auth = Ret (Inr user) \<and> (\<exists>t. parse_target (rq_path req) = Inr t \<and>
       protocol = t_protocol t \<and> upstream = addr t) \<and>
     client = client_addr_of httparse tp peer head \<and> ua = request_user_agent x req"
    by (auto simp: session_log_def upstream_log_proxying split: if_splits)
  with head shake \<open>completes\<close> show ?thesis by auto
qed

text \<open>
  (C22) The token endpoints log exactly what they do. A request logs at most one line, with its client and user agent. Tokens
  are issued, with \<open>200\<close>, exactly when it is logged for the user of the Basic credentials that were presented; they are
  renewed, with \<open>200\<close>, exactly when it is logged for the user that the token service names for the refresh token. A
  refresh token that the service rejects is logged as rejected, and one that it finds reused raises the alarm with the user whose
  login it ended, both with \<open>401\<close>. A refused login, a logout that ended a login, a full store and tokens that could not be
  made are logged exactly as such. Nothing is logged exactly of a request that is not served, of a refresh or a logout
  without a token, and of a logout whose token is not known.
\<close>

theorem token_requests_audited:
  assumes "handle_auth_request x e req auth = (Ret r, auth')"
  shows "token_audit x e req auth client (rs_status r) (auth_request_log x e req auth client)"
  using assms by (rule auth_request_audited)

text \<open>
  Credentials whose user is \<open>user\<close>, whatever the password; and two \<open>Authorization\<close> headers that differ only in
  the secret: the token, or the password of the same user.
\<close>

definition credential_for :: "string \<Rightarrow> string \<Rightarrow> bool" where
  "credential_for user c \<longleftrightarrow> user \<noteq> [] \<and> CHR '':'' \<notin> set user \<and> (\<exists>p. c = user @ '':'' @ p) \<and> utf8_ok (as_bytes c)"

definition differ_in_secret :: "ext \<Rightarrow> string option \<Rightarrow> string option \<Rightarrow> bool" where
  "differ_in_secret x h h' \<longleftrightarrow>
     (\<exists>a b. h = Some a \<and> h' = Some b \<and> bearer_token a \<noteq> None \<and> bearer_token b \<noteq> None) \<or>
     (\<exists>user c d. credential_for user c \<and> credential_for user d \<and>
        h = Some (encode_credential x c) \<and> h' = Some (encode_credential x d))"

lemma username_of_encoded:
  assumes "ext_ok x" and "credential_for user c"
  shows "basic_auth_username x (encode_credential x c) = Some user"
proof -
  from assms(2) obtain p where "c = user @ CHR '':'' # p" "CHR '':'' \<notin> set user" by (auto simp: credential_for_def)
  then have "split_once '':'' c = Some (user, p)" by (simp add: split_once_char_notin)
  with assms show ?thesis
    by (simp add: basic_auth_username_def encode_credential_def strip_prefix_def ext_ok_def from_utf8_def credential_for_def)
qed

text \<open>
  (C23) Secrets stay out of the log. Take two requests that are both refused, with the same user agent and
  with credentials that differ only in the secret, at any times and under any configurations and stores.
  Then what is logged of them is the same: no line depends on a password or a token that was presented, on
  the credentials that are configured, or on what the token store holds.
\<close>

theorem credentials_not_logged:
  assumes "ext_ok x"
    and "authorize_request x unix_now req auth = Ret (Inl response)"
    and "authorize_request x unix_now' req' auth' = Ret (Inl response')"
    and "request_user_agent x req = request_user_agent x req'"
    and "differ_in_secret x (header_str x req ''authorization'') (header_str x req' ''authorization'')"
  shows "authorize_log x unix_now req auth client = authorize_log x unix_now' req' auth' client"
proof -
  have "claimed_user x (header_str x req ''authorization'') = claimed_user x (header_str x req' ''authorization'')"
    using assms(5) unfolding differ_in_secret_def
    by (elim disjE exE conjE) (simp_all add: claimed_user_def username_of_encoded [OF assms(1)] bearer_not_basic)
  then show ?thesis using authorize_log_refused [OF assms(2)] authorize_log_refused [OF assms(3)] assms(4) by simp
qed

section \<open>The client address\<close>

text \<open>A result and an event as if they had been reported for another client.\<close>

fun result_as :: "client_addr \<Rightarrow> conn_result \<Rightarrow> conn_result" where
  "result_as c (TcpRelayed _ user ua t st) = TcpRelayed c user ua t st"
| "result_as c (UdpRelayed _ user ua t st) = UdpRelayed c user ua t st"
| "result_as c r = r"

fun event_as :: "client_addr \<Rightarrow> log_event \<Rightarrow> log_event" where
  "event_as c (BadCredentials _ user ua) = BadCredentials c user ua"
| "event_as c (LoginRejected _ ua) = LoginRejected c ua"
| "event_as c (TokensIssued _ user ua) = TokensIssued c user ua"
| "event_as c (TokensRefreshed _ user ua) = TokensRefreshed c user ua"
| "event_as c (RefreshRejected _ ua) = RefreshRejected c ua"
| "event_as c (RefreshReused _ user ua) = RefreshReused c user ua"
| "event_as c (LoginRevoked _ ua) = LoginRevoked c ua"
| "event_as c (HttpHealthCheck _ user ua) = HttpHealthCheck c user ua"
| "event_as c (WebsocketHealthCheck _ user ua) = WebsocketHealthCheck c user ua"
| "event_as c (PathRejected _ user ua path err) = PathRejected c user ua path err"
| "event_as c (Proxying protocol _ user ua upstream) = Proxying protocol c user ua upstream"
| "event_as c StoreFull = StoreFull"
| "event_as c (IssueFailed err) = IssueFailed err"
| "event_as c (WebsocketClosed frame) = WebsocketClosed frame"
| "event_as c UdpIdle = UdpIdle"
| "event_as c (ConnectionError scheme peer) = ConnectionError scheme peer"

lemma upstream_as: "result_as c (connect_upstream lm nt client user ua t) = connect_upstream lm nt c user ua t"
  by (simp add: connect_upstream_def split: protocol.split sum.split)

lemma after_handshake_as: "result_as c (after_handshake version lm nt client sl) = after_handshake version lm nt c sl"
  by (simp add: after_handshake_def upstream_as split: option.split route.split)

lemma tcp_log_as [simp]: "map (event_as c) (tcp_log read n cs st) = tcp_log read n cs st"
  using tcp_log_end [of read n cs st] by auto

lemma udp_log_as [simp]: "map (event_as c) (udp_log d cs st) = udp_log d cs st"
  using udp_log_end [of d cs st] by auto

lemma upstream_log_as: "map (event_as c) (upstream_log lm nt client user ua t) = upstream_log lm nt c user ua t"
  by (simp add: upstream_log_def connect_upstream_def split: protocol.split sum.split)

lemma session_log_as: "map (event_as c) (session_log lm nt client sl) = session_log lm nt c sl"
  by (simp add: session_log_def upstream_log_as split: option.split route.split)

lemma token_error_log_as [simp]: "map (event_as c) (token_error_log err) = token_error_log err"
  by (simp add: token_error_log_def split: token_error.split)

lemma endpoint_logs_as:
  "map (event_as c) (login_log x e ac svc h client ua) = login_log x e ac svc h c ua"
  "map (event_as c) (refresh_log x e ac svc h client ua) = refresh_log x e ac svc h c ua"
  "map (event_as c) (revoke_log x e svc h client ua) = revoke_log x e svc h c ua"
  by (simp_all add: login_log_def refresh_log_def revoke_log_def
      split: option.split outcome.split sum.split token_error.split bool.split)

lemma auth_request_log_as: "map (event_as c) (auth_request_log x e req auth client) = auth_request_log x e req auth c"
  by (simp add: auth_request_log_def endpoint_logs_as Let_def split: option.split endpoint.split)

lemma authorize_log_as: "map (event_as c) (authorize_log x unix_now req auth client) = authorize_log x unix_now req auth c"
  by (simp add: authorize_log_def split: option.split outcome.split)

lemma plain_log_as: "map (event_as c) (plain_log x e req auth client) = plain_log x e req auth c"
  by (simp add: plain_log_def authorize_log_as auth_request_log_as split: outcome.split sum.split)

lemma callback_log_as: "map (event_as c) (callback_log x unix_now req auth client) = callback_log x unix_now req auth c"
  by (simp add: callback_log_def authorize_log_as capture_log_def split: outcome.split sum.split)

text \<open>The connection as it goes once the client is known to be \<open>c\<close>: peer and proxies only matter through it.\<close>

lemma handle_connection_as:
  "apfst (map_outcome (result_as c))
     (handle_connection x e httparse hx handshake nt version lm tp read stream peer auth) =
   apfst (map_outcome (result_as c))
     (handle_connection x e httparse hx handshake nt version lm tp' read stream peer' auth)"
  by (simp add: handle_connection_def Let_def after_handshake_as
      split: prod.split sum.split option.split outcome.split handshake_result.split)

lemma connection_log_as:
  "map (event_as c) (connection_log x e httparse hx handshake nt lm tp read stream peer auth) =
   map (event_as c) (connection_log x e httparse hx handshake nt lm tp' read stream peer' auth)"
  by (simp add: connection_log_def Let_def plain_log_as callback_log_as session_log_as
      split: prod.split sum.split option.split outcome.split handshake_result.split)

text \<open>
  (C24) Only the log uses the client's address. Change where a connection comes from and which proxies are trusted:
  it is answered, authorized and relayed exactly alike, it changes the shared state exactly alike, and it
  logs the same lines, up to the address that is reported in them.
\<close>

theorem client_addr_only_logged:
  "apfst (map_outcome (result_as c))
     (handle_connection x e httparse hx handshake nt version lm tp read stream peer auth) =
   apfst (map_outcome (result_as c))
     (handle_connection x e httparse hx handshake nt version lm tp' read stream peer' auth) \<and>
   map (event_as c) (connection_log x e httparse hx handshake nt lm tp read stream peer auth) =
   map (event_as c) (connection_log x e httparse hx handshake nt lm tp' read stream peer' auth)"
  by (rule conjI [OF handle_connection_as connection_log_as])

section \<open>Witnesses\<close>


lemma relay_audit_announced:
  "relay_audit lm nt client user ua t r log \<Longrightarrow> relayed r = Some (c, u, a, t') \<Longrightarrow> Proxying (t_protocol t') c u a (addr t') \<in> set log"
  by (auto simp: relay_audit_def)

lemma audited_announced:
  assumes "audited x e httparse hx handshake nt lm tp read stream peer auth r log" and "relayed r = Some (c, u, a, t)"
  shows "Proxying (t_protocol t) c u a (addr t) \<in> set log"
  using assms relay_audit_announced [OF _ assms(2)]
  by (auto simp: audited_def plain_audit_def handshake_audit_def Let_def
      split: prod.splits sum.splits option.splits handshake_result.splits if_splits)

lemma demo_announced:
  "Proxying Tcp (ClientAddr_from demo_peer) ''anonymous'' ''-'' ''web:80'' \<in>
     set (connection_log demo_ext (demo_env 1 5) (\<lambda>_ _. None) demo_http
       (\<lambda>_. Handshake (demo_request ''GET'' ''/tcp:web:80'' []) True) demo_net
       \<lparr>lm_buffer_size = 2, lm_udp_idle_timeout = 60\<rparr> demo_proxies chunked_read demo_stream demo_peer None)"
proof -
  obtain r where r: "demo_connection = (Ret r, None)"
    "relayed r = Some (ClientAddr_from demo_peer, ''anonymous'', ''-'', \<lparr>t_protocol = Tcp, t_host = ''web'', t_port = 80\<rparr>)"
    using demo_relayed by blast
  moreover have "addr \<lparr>t_protocol = Tcp, t_host = ''web'', t_port = 80\<rparr> = ''web:80''" by code_simp
  ultimately show ?thesis
    using audited_announced [OF connection_audited [OF r(1) [unfolded demo_connection_def]] r(2)] by simp
qed

theorem announced_relays_authorized_witness:
  "authorize_request demo_ext (env_unix (demo_env 1 5)) (demo_request ''GET'' ''/tcp:web:80'' []) None = Ret (Inr ''anonymous'')"
  using announced_relays_authorized [OF demo_announced] by auto

theorem token_requests_audited_witness:
  "\<exists>user ua. auth_request_log demo_ext (demo_env 10 6) demo_post (Some demo_api) (ClientAddr_from demo_peer) =
     [TokensIssued (ClientAddr_from demo_peer) user ua] \<or>
   auth_request_log demo_ext (demo_env 10 6) demo_post (Some demo_api) (ClientAddr_from demo_peer) =
     [TokensRefreshed (ClientAddr_from demo_peer) user ua]"
proof -
  obtain r ac' where r: "handle_auth_request demo_ext (demo_env 10 6) demo_post (Some demo_api) = (Ret r, Some ac')"
    "rs_status r = 200" using demo_post_login by blast
  from token_requests_audited [OF r(1), of "ClientAddr_from demo_peer"] r(2) show ?thesis
    by (auto simp: token_audit_def Let_def)
qed

lemma demo_refused:
  assumes "p = ''no'' \<or> p = ''guess''"
  shows "\<exists>response. authorize_request demo_ext 0
    (demo_request ''GET'' ''/tcp:web:80'' (encode_credential demo_ext (''bob:'' @ p))) (Some demo_auth) = Ret (Inl response)"
proof -
  have "case authorize_request demo_ext 0
      (demo_request ''GET'' ''/tcp:web:80'' (encode_credential demo_ext (''bob:'' @ ''no''))) (Some demo_auth) of
      Ret (Inl _) \<Rightarrow> True | _ \<Rightarrow> False" by code_simp
  moreover have "case authorize_request demo_ext 0
      (demo_request ''GET'' ''/tcp:web:80'' (encode_credential demo_ext (''bob:'' @ ''guess''))) (Some demo_auth) of
      Ret (Inl _) \<Rightarrow> True | _ \<Rightarrow> False" by code_simp
  ultimately show ?thesis using assms by (auto split: outcome.splits sum.splits)
qed

theorem credentials_not_logged_witness:
  "authorize_log demo_ext 0 (demo_request ''GET'' ''/tcp:web:80'' (encode_credential demo_ext ''bob:no'')) (Some demo_auth)
     (ClientAddr_from demo_peer) =
   authorize_log demo_ext 0 (demo_request ''GET'' ''/tcp:web:80'' (encode_credential demo_ext ''bob:guess'')) (Some demo_auth)
     (ClientAddr_from demo_peer)"
proof -
  have "credential_for ''bob'' ''bob:no''" "credential_for ''bob'' ''bob:guess''"
    unfolding credential_for_def by (simp; code_simp)+
  then have "differ_in_secret demo_ext (Some (encode_credential demo_ext ''bob:no'')) (Some (encode_credential demo_ext ''bob:guess''))"
    unfolding differ_in_secret_def by blast
  moreover have "request_user_agent demo_ext (demo_request m p h) = ''-''" for m p h
    by (simp add: request_user_agent_def header_str_def demo_request_def)
  ultimately show ?thesis
    using demo_refused [of "''no''"] demo_refused [of "''guess''"]
    by (auto simp: demo_header intro!: credentials_not_logged [OF demo_ext_ok])
qed

end
