(* ===== verification/LogLine.thy ===== *)
theory LogLine
  imports EventLog
begin

text \<open>
  The lines of the log: \<open>format_event\<close> of \<open>src/logging.rs\<close>, and the line it writes for each event of \<open>EventLog\<close>. The
  text of an event's message and fields is made by \<open>tracing\<close> and is a parameter.
\<close>

section \<open>The lines of the events\<close>

text \<open>The module an event is logged in, which is its target.\<close>

fun event_module :: "log_event \<Rightarrow> string" where
  "event_module (BadCredentials _ _ _) = ''ws2tcp_router::auth''"
| "event_module (LoginRejected _ _) = ''ws2tcp_router::token_api''"
| "event_module (TokensIssued _ _ _) = ''ws2tcp_router::token_api''"
| "event_module (TokensRefreshed _ _ _) = ''ws2tcp_router::token_api''"
| "event_module (RefreshRejected _ _) = ''ws2tcp_router::token_api''"
| "event_module (RefreshReused _ _ _) = ''ws2tcp_router::token_api''"
| "event_module (LoginRevoked _ _) = ''ws2tcp_router::token_api''"
| "event_module StoreFull = ''ws2tcp_router::token_api''"
| "event_module (IssueFailed _) = ''ws2tcp_router::token_api''"
| "event_module (HttpHealthCheck _ _ _) = ''ws2tcp_router::proxy''"
| "event_module (WebsocketHealthCheck _ _ _) = ''ws2tcp_router::proxy''"
| "event_module (PathRejected _ _ _ _ _) = ''ws2tcp_router::proxy''"
| "event_module (Proxying _ _ _ _ _) = ''ws2tcp_router::proxy''"
| "event_module (WebsocketClosed _) = ''ws2tcp_router::proxy''"
| "event_module UdpIdle = ''ws2tcp_router::proxy''"
| "event_module (ConnectionError _ _) = ''ws2tcp_router''"

definition log_line :: "(log_event \<Rightarrow> string) \<Rightarrow> bool \<Rightarrow> bool \<Rightarrow> string \<Rightarrow> log_event \<Rightarrow> string" where
  "log_line format_fields with_time ansi time ev =
     format_event with_time ansi time (event_level ev) (event_module ev) (format_fields ev)"

section \<open>Reading a line back\<close>

text \<open>The target without the prefix of the crate.\<close>

definition short_target :: "string \<Rightarrow> string" where
  "short_target target = (case strip_prefix CRATE_PREFIX target of Some t \<Rightarrow> t | None \<Rightarrow> target)"

lemma format_event_plain:
  "format_event with_time False time level target event_fields =
     (if with_time then time @ '' '' else []) @ show_level level @ '' '' @ short_target target @ '': '' @
     event_fields @ [CHR 0x0A]"
  by (simp add: format_event_def paint_def short_target_def Let_def split: option.split)

lemma show_level_length [simp]: "length (show_level level) = 5"
  by (cases level) simp_all

lemma show_level_inject: "show_level level = show_level level' \<longleftrightarrow> level = level'"
  by (cases level; cases level') simp_all

lemma short_target_chars: "set (short_target target) \<subseteq> set target"
  by (auto simp: short_target_def strip_prefix_def split: option.splits if_splits dest: in_set_dropD)

lemma split_once_pair_notin:
  "b \<notin> set s \<Longrightarrow> b \<noteq> a \<Longrightarrow> split_once [a, b] (s @ a # b # t) = Some (s, t)"
proof (induction s)
  case (Cons c s)
  then show ?case by (cases s) (auto simp: strip_prefix_def)
qed (simp add: strip_prefix_def)

text \<open>A terminal's view of a line: without the colour sequences, from an escape up to the next \<open>m\<close>.\<close>

fun strip_colours :: "bool \<Rightarrow> string \<Rightarrow> string" where
  "strip_colours inside [] = []"
| "strip_colours False (c # s) = (if c = CHR 0x1B then strip_colours True s else c # strip_colours False s)"
| "strip_colours True (c # s) = strip_colours (c \<noteq> CHR ''m'') s"

text \<open>Whether a text ends in the middle of a colour sequence.\<close>

fun in_colour :: "bool \<Rightarrow> string \<Rightarrow> bool" where
  "in_colour inside [] = inside"
| "in_colour False (c # s) = in_colour (c = CHR 0x1B) s"
| "in_colour True (c # s) = in_colour (c \<noteq> CHR ''m'') s"

lemma strip_colours_append: "strip_colours inside (a @ b) = strip_colours inside a @ strip_colours (in_colour inside a) b"
  by (induction inside a rule: in_colour.induct) auto

lemma strip_colours_text: "CHR 0x1B \<notin> set a \<Longrightarrow> strip_colours False (a @ b) = a @ strip_colours False b"
  by (induction a) auto

lemma strip_colours_on [simp]:
  "strip_colours False (level_color level @ s) = strip_colours False s"
  by (cases level) (simp_all add: esc_def)

lemma show_level_text: "CHR 0x1B \<notin> set (show_level level)" "CHR 0x0A \<notin> set (show_level level)"
  by (cases level; simp)+

lemma short_target_text: "c \<notin> set target \<Longrightarrow> c \<notin> set (short_target target)"
  using short_target_chars by blast

lemma format_event_coloured:
  "format_event with_time True time level target event_fields =
     (if with_time then time @ '' '' else []) @ level_color level @ show_level level @ esc @ ''[0m'' @ '' '' @
     esc @ ''[2m'' @ short_target target @ '':'' @ esc @ ''[0m'' @ '' '' @ event_fields @ [CHR 0x0A]"
  by (simp add: format_event_def paint_def short_target_def Let_def split: option.split)

lemma line_plain:
  assumes "CHR 0x1B \<notin> set time \<union> set target" and "\<not> in_colour False event_fields"
  shows "strip_colours False (format_event with_time ansi time level target event_fields) =
    format_event with_time False time level target (strip_colours False event_fields)"
proof -
  have tail: "strip_colours False (event_fields @ [CHR 0x0A]) = strip_colours False event_fields @ [CHR 0x0A]"
    using assms(2) by (simp add: strip_colours_append)
  have target: "CHR 0x1B \<notin> set (short_target target)" using assms by (simp add: short_target_text)
  show ?thesis
  proof (cases ansi)
    case True
    with assms show ?thesis
      by (cases with_time) (simp_all add: format_event_coloured format_event_plain strip_colours_text
        show_level_text target tail esc_def)
  next
    case False
    with assms show ?thesis
      by (cases with_time) (simp_all add: format_event_plain strip_colours_text show_level_text target tail)
  qed
qed

lemma line_breaks:
  assumes "CHR 0x0A \<notin> set time \<union> set target \<union> set event_fields"
  shows "count_list (format_event with_time ansi time level target event_fields) (CHR 0x0A) = 1"
proof -
  have "CHR 0x0A \<notin> set (level_color level)" by (cases level) (simp_all add: esc_def)
  then show ?thesis
    using assms show_level_text short_target_text [of "CHR 0x0A" target]
    by (cases ansi) (simp_all add: format_event_plain format_event_coloured esc_def)
qed

section \<open>Properties\<close>

text \<open>
  (C37) A line of the log can be read back. On a terminal with colours, where the fields of the event are coloured too, or
  in a file without them, with the timestamp or without: provided that every colour sequence of the fields is complete,
  once the colours and the timestamp are dropped, the first five characters are the padded level, and
  after a blank the text up to the first \<open>: \<close> is the target without the prefix of the crate and the rest is exactly
  what the event's fields show. An event whose fields hold no line break takes exactly one line.
\<close>

theorem log_line_read_back:
  assumes "CHR '' '' \<notin> set target" and "CHR 0x1B \<notin> set time \<union> set target" and "\<not> in_colour False event_fields"
  shows "let raw = format_event with_time ansi time level target event_fields;
             line = drop (if with_time then Suc (length time) else 0) (strip_colours False raw)
         in take 5 line = show_level level \<and>
            split_once '': '' (drop 6 line) = Some (short_target target, strip_colours False event_fields @ [CHR 0x0A]) \<and>
            (CHR 0x0A \<notin> set time \<union> set target \<union> set event_fields \<longrightarrow> count_list raw (CHR 0x0A) = 1)"
proof -
  let ?shown = "strip_colours False event_fields"
  have "split_once '': '' (short_target target @ '': '' @ ?shown @ [CHR 0x0A]) = Some (short_target target, ?shown @ [CHR 0x0A])"
    using split_once_pair_notin [OF short_target_text [OF assms(1)], of "CHR '':''" "?shown @ [CHR 0x0A]"] by simp
  then show ?thesis
    unfolding Let_def line_plain [OF assms(2,3)] by (simp add: format_event_plain line_breaks)
qed

text \<open>A warning on a terminal, with a field whose name is in italics and whose equals sign is dimmed.\<close>

theorem log_line_read_back_witness:
  "split_once '': '' (drop 6 (drop 4 (strip_colours False (format_event True True ''now'' WARN ''ws2tcp_router::auth''
       (''rejecting '' @ esc @ ''[3m'' @ ''user'' @ esc @ ''[0m'' @ esc @ ''[2m'' @ ''='' @ esc @ ''[0m'' @ ''bob'')))))
     = Some (''auth'', ''rejecting user=bob'' @ [CHR 0x0A])"
proof -
  let ?fields = "''rejecting '' @ esc @ ''[3m'' @ ''user'' @ esc @ ''[0m'' @ esc @ ''[2m'' @ ''='' @ esc @ ''[0m'' @ ''bob''"
  have "short_target ''ws2tcp_router::auth'' = ''auth''" by code_simp
  moreover have "\<not> in_colour False ?fields" and "strip_colours False ?fields = ''rejecting user=bob''"
    by (simp_all add: esc_def)
  ultimately show ?thesis
    using log_line_read_back [of "''ws2tcp_router::auth''" "''now''" ?fields True True WARN] by (simp add: Let_def)
qed

text \<open>The line of a health check over plain HTTP, without a timestamp and colours.\<close>

theorem health_check_line:
  "log_line format_fields False False time (HttpHealthCheck client user ua) =
     ''DEBUG proxy: '' @ format_fields (HttpHealthCheck client user ua) @ [CHR 0x0A]"
proof -
  have "short_target ''ws2tcp_router::proxy'' = ''proxy''" by code_simp
  then show ?thesis by (simp add: log_line_def format_event_plain)
qed

end
