(* ===== verification/Duplex.thy ===== *)
theory Duplex
  imports HttpProbe
begin

text \<open>
  The writing half of \<open>src/http_probe.rs\<close>: \<open>ReplayStream\<close> as an \<open>AsyncWrite\<close>, and the end of \<open>write_response\<close>,
  which writes the response and shuts the stream down. What a stream that is read and written promises is a locale
  that extends \<open>byte_source\<close>, and what a stream one can send a response on promises is one that extends it again. They are
  interpreted on a pipe whose peer accepts as much as it likes of each write, and on the replaying stream over it.
\<close>

section \<open>Streams that are read and written\<close>

text \<open>
  \<open>put bs s\<close> is \<open>poll_write\<close>: it answers an error or how many bytes were accepted; \<open>written s\<close> is everything accepted so far.
  Reading and writing do not disturb each other.
\<close>

type_synonym 's writer = "bytes \<Rightarrow> 's \<Rightarrow> (unit + nat) \<times> 's"
type_synonym 's action = "'s \<Rightarrow> (unit + unit) \<times> 's"

locale duplex = byte_source read content for read :: "'s reader" and content :: "'s \<Rightarrow> bytes" +
  fixes put :: "'s writer" and flush :: "'s action" and shutdown :: "'s action" and written :: "'s \<Rightarrow> bytes"
  assumes write_some: "put bs s = (Inr k, s') \<Longrightarrow> k \<le> length bs \<and> written s' = written s @ take k bs"
    and write_none: "put bs s = (Inl e, s') \<Longrightarrow> written s' = written s"
    and write_content: "put bs s = (r, s') \<Longrightarrow> content s' = content s"
    and read_written: "read n s = (b, s') \<Longrightarrow> written s' = written s"
    and flush_keeps: "flush s = (d, s') \<Longrightarrow> content s' = content s \<and> written s' = written s"
    and shutdown_keeps: "shutdown s = (d, s') \<Longrightarrow> content s' = content s \<and> written s' = written s"

section \<open>The replaying stream\<close>

definition replay_write :: "'s writer \<Rightarrow> 's replay_stream writer" where
  "replay_write put buf s = (let (r, inner) = put buf (rp_inner s) in (r, s\<lparr>rp_inner := inner\<rparr>))"

definition replay_flush :: "'s action \<Rightarrow> 's replay_stream action" where
  "replay_flush flush s = (let (r, inner) = flush (rp_inner s) in (r, s\<lparr>rp_inner := inner\<rparr>))"

definition replay_shutdown :: "'s action \<Rightarrow> 's replay_stream action" where
  "replay_shutdown shutdown s = (let (r, inner) = shutdown (rp_inner s) in (r, s\<lparr>rp_inner := inner\<rparr>))"

section \<open>Writing a response\<close>

text \<open>
  The end of \<open>write_response\<close>: the text of the response, then the shutdown. \<open>put_all\<close> is \<open>write_all\<close> of \<open>tokio\<close>.
\<close>

definition send_response :: "http_lib \<Rightarrow> (bytes \<Rightarrow> 's action) \<Rightarrow> 's action \<Rightarrow> response \<Rightarrow> bool \<Rightarrow> 's action" where
  "send_response hx put_all shutdown r include_body stream =
     (case put_all (as_bytes (write_response hx r include_body)) stream of
        (Inl e, stream) \<Rightarrow> (Inl e, stream)
      | (Inr _, stream) \<Rightarrow> shutdown stream)"

text \<open>
  What \<open>write_all\<close> documents: it returns once everything is accepted, and otherwise with an error after any part.
\<close>

locale response_sink = duplex read content put flush shutdown written
    for read :: "'s reader" and content :: "'s \<Rightarrow> bytes" and put :: "'s writer" and flush :: "'s action"
    and shutdown :: "'s action" and written :: "'s \<Rightarrow> bytes" +
  fixes put_all :: "bytes \<Rightarrow> 's action"
  assumes put_all_spec: "put_all bs s = (r, s') \<Longrightarrow> content s' = content s \<and>
     (\<exists>k. written s' = written s @ take k bs \<and> (r = Inr () \<longrightarrow> k = length bs))"
begin

lemma send_response_spec:
  assumes "send_response hx put_all shutdown r include_body s = (d, s')"
  shows "content s' = content s \<and> (\<exists>k. written s' = written s @ take k (as_bytes (write_response hx r include_body)) \<and>
    (d = Inr () \<longrightarrow> k = length (as_bytes (write_response hx r include_body))))"
proof -
  obtain a s1 where all: "put_all (as_bytes (write_response hx r include_body)) s = (a, s1)" by fastforce
  show ?thesis
  proof (cases a)
    case (Inl e)
    with put_all_spec [OF all] all assms show ?thesis by (auto simp: send_response_def)
  next
    case (Inr u)
    with all assms have "shutdown s1 = (d, s')" by (simp add: send_response_def)
    with put_all_spec [OF all] shutdown_keeps [OF this] Inr show ?thesis
      by (auto intro!: exI [of _ "length (as_bytes (write_response hx r include_body))"])
  qed
qed

end

text \<open>Writing piece by piece until everything is accepted or a piece is refused or nothing of it is accepted.\<close>

function pieces :: "'s writer \<Rightarrow> bytes \<Rightarrow> 's action" where
  "pieces put bs s =
     (if bs = [] then (Inr (), s)
      else case put bs s of
             (Inl e, s) \<Rightarrow> (Inl e, s)
           | (Inr k, s) \<Rightarrow> if k = 0 then (Inl (), s) else pieces put (drop k bs) s)"
  by pat_completeness auto
termination by (relation "measure (\<lambda>(put, bs, s). length bs)") auto

declare pieces.simps [simp del]

section \<open>A client of both halves\<close>

datatype io = Read nat | Write bytes

text \<open>
  Reads and writes in any order, up to the first error: whether there was one, what was read, what was
  accepted, and the stream after it.
\<close>

fun io_seq :: "'s reader \<Rightarrow> 's writer \<Rightarrow> io list \<Rightarrow> 's \<Rightarrow> bool \<times> bytes \<times> bytes \<times> 's" where
  "io_seq read put [] s = (True, [], [], s)"
| "io_seq read put (Read n # ops) s =
     (case read n s of
        (Inl e, s) \<Rightarrow> (False, [], [], s)
      | (Inr bs, s) \<Rightarrow> (let (ok, got, sent, s) = io_seq read put ops s in (ok, bs @ got, sent, s)))"
| "io_seq read put (Write bs # ops) s =
     (case put bs s of
        (Inl e, s) \<Rightarrow> (False, [], [], s)
      | (Inr k, s) \<Rightarrow> (let (ok, got, sent, s) = io_seq read put ops s in (ok, got, take k bs @ sent, s)))"

context duplex
begin

lemma replay_duplex:
  "duplex (replay_read read) (replay_content content) (replay_write put) (replay_flush flush)
     (replay_shutdown shutdown) (\<lambda>s. written (rp_inner s))"
proof (intro duplex.intro duplex_axioms.intro replay_source, goal_cases)
  case (1 bs s k s')
  then show ?case by (auto simp: replay_write_def dest: write_some split: prod.splits)
next
  case (2 bs s e s')
  then show ?case by (auto simp: replay_write_def dest: write_none split: prod.splits)
next
  case (3 bs s r s')
  then show ?case by (auto simp: replay_write_def replay_content_def dest: write_content split: prod.splits)
next
  case (4 n s b s')
  then show ?case by (auto simp: replay_read_def Let_def dest: read_written split: prod.splits if_splits)
next
  case (5 s d s')
  then show ?case by (auto simp: replay_flush_def replay_content_def dest: flush_keeps split: prod.splits)
next
  case (6 s d s')
  then show ?case by (auto simp: replay_shutdown_def replay_content_def dest: shutdown_keeps split: prod.splits)
qed

lemma io_seq_faithful:
  "io_seq read put ops s = (True, got, sent, s') \<Longrightarrow> content s = got @ content s' \<and> written s' = written s @ sent"
proof (induction ops arbitrary: s got sent)
  case (Cons op ops)
  show ?case
  proof (cases op)
    case (Read n)
    with Cons.prems obtain bs s1 got1 where read: "read n s = (Inr bs, s1)"
      and rest: "io_seq read put ops s1 = (True, got1, sent, s')" and got: "got = bs @ got1"
      by (auto split: prod.splits sum.splits)
    with Cons.IH [OF rest] read_content [OF read] read_written [OF read] show ?thesis by simp
  next
    case (Write bs)
    with Cons.prems obtain k s1 sent1 where wr: "put bs s = (Inr k, s1)"
      and rest: "io_seq read put ops s1 = (True, got, sent1, s')" and sent: "sent = take k bs @ sent1"
      by (auto split: prod.splits sum.splits)
    with Cons.IH [OF rest] write_some [OF wr] write_content [OF wr] show ?thesis by simp
  qed
qed simp

lemma pieces_spec:
  "pieces put bs s = (r, s') \<Longrightarrow> content s' = content s \<and>
     (\<exists>k. written s' = written s @ take k bs \<and> (r = Inr () \<longrightarrow> k = length bs))"
proof (induction bs arbitrary: s rule: length_induct)
  case (1 bs)
  show ?case
  proof (cases "bs = []")
    case True
    with 1 show ?thesis by (auto simp: pieces.simps)
  next
    case False
    obtain a s1 where a: "put bs s = (a, s1)" by fastforce
    show ?thesis
    proof (cases a)
      case (Inl e)
      with a False 1(2) have "r = Inl e" "s' = s1" by (auto simp: pieces.simps [of put bs])
      with a Inl write_none write_content show ?thesis by (auto intro!: exI [of _ 0])
    next
      case (Inr k)
      note some = write_some [OF a [unfolded Inr]] write_content [OF a]
      show ?thesis
      proof (cases "k = 0")
        case True
        with a Inr False 1(2) have "r = Inl ()" "s' = s1" by (auto simp: pieces.simps [of put bs])
        with some True show ?thesis by (auto intro!: exI [of _ 0])
      next
        case positive: False
        with a Inr False 1(2) have "pieces put (drop k bs) s1 = (r, s')" by (simp add: pieces.simps [of put bs])
        with 1(1) False positive obtain j where "content s' = content s1"
          "written s' = written s1 @ take j (drop k bs)" "r = Inr () \<longrightarrow> j = length (drop k bs)"
          by (metis (no_types, lifting) diff_less length_drop length_greater_0_conv neq0_conv)
        with some show ?thesis by (intro conjI exI [of _ "k + j"]) (auto simp: take_add)
      qed
    qed
  qed
qed

lemma read_head_written: "read_head_loop read head s = (r, s') \<Longrightarrow> written s' = written s"
proof (induction "MAX_REQUEST_HEAD - length head" arbitrary: head s rule: less_induct)
  case less
  obtain a s1 where a: "read 2048 s = (a, s1)" by fastforce
  have "chunk \<noteq> [] \<and> length head < MAX_REQUEST_HEAD \<Longrightarrow>
      MAX_REQUEST_HEAD - length (head @ chunk) < MAX_REQUEST_HEAD - length head" for chunk :: bytes
    by (auto intro!: diff_less_mono2)
  then show ?case
    using less.hyps [of "head @ b" s1 for b] less.prems a read_written [OF a]
    by (auto simp: read_head_loop.simps [of read head s] split: if_splits sum.splits)
qed

end

section \<open>A pipe\<close>

text \<open>The bytes that will come in, those that went out, how much of each write is accepted, and the shutdown.\<close>

record pipe =
  pp_in :: chunked
  pp_out :: bytes
  pp_accept :: "nat list"
  pp_open :: bool

definition pipe_read :: "pipe reader" where
  "pipe_read n s = (let (r, i) = chunked_read n (pp_in s) in (r, s\<lparr>pp_in := i\<rparr>))"

definition pipe_write :: "pipe writer" where
  "pipe_write bs s =
     (if \<not> pp_open s then (Inl (), s)
      else case pp_accept s of
             [] \<Rightarrow> (Inl (), s)
           | k # ks \<Rightarrow> (Inr (min k (length bs)), s\<lparr>pp_accept := ks, pp_out := pp_out s @ take k bs\<rparr>))"

definition pipe_flush :: "pipe action" where
  "pipe_flush s = (Inr (), s)"

definition pipe_shutdown :: "pipe action" where
  "pipe_shutdown s = (Inr (), s\<lparr>pp_open := False\<rparr>)"

definition pipe_content :: "pipe \<Rightarrow> bytes" where
  "pipe_content s = chunked_content (pp_in s)"

lemmas pipe_defs = pipe_read_def pipe_write_def pipe_flush_def pipe_shutdown_def pipe_content_def

interpretation pipe: duplex pipe_read pipe_content pipe_write pipe_flush pipe_shutdown pp_out
proof (unfold_locales, goal_cases)
  case (1 n s bs s')
  then show ?case by (auto simp: pipe_defs dest: chunked.read_content split: prod.splits)
next
  case (2 n s bs s')
  then show ?case by (auto simp: pipe_defs dest: chunked.read_bound split: prod.splits)
next
  case (3 n s s')
  then show ?case by (auto simp: pipe_defs dest: chunked.read_end split: prod.splits)
qed (auto simp: pipe_defs min_def split: if_splits list.splits prod.splits)

interpretation replayed_pipe: duplex "replay_read pipe_read" "replay_content pipe_content" "replay_write pipe_write"
  "replay_flush pipe_flush" "replay_shutdown pipe_shutdown" "\<lambda>s. pp_out (rp_inner s)"
  by (rule pipe.replay_duplex)

interpretation pipe_sink: response_sink pipe_read pipe_content pipe_write pipe_flush pipe_shutdown pp_out "pieces pipe_write"
  by unfold_locales (rule pipe.pieces_spec)

section \<open>Properties\<close>

lemma pipe_head:
  assumes "read_request_head pipe_read s = (Inr head, s')"
  shows "pipe_content s = head @ pipe_content s'" and "pp_out s' = pp_out s"
  using assms pipe.read_head_loop_spec [of "[]" s head s'] pipe.read_head_written [of "[]" s "Inr head" s']
  by (simp_all add: read_request_head_def MAX_REQUEST_HEAD_def)

text \<open>
  (C18) The websocket handshake works on the original stream. Nothing is written while the head is read; after it, a
  client that reads and writes the replaying stream in any order and with buffers of any sizes, on a peer that
  accepts any part of each write, gets exactly the first bytes of what the peer sent, the head included, in
  order, with the rest still to come; and the peer receives exactly the accepted bytes, in order.
\<close>

theorem replay_duplex_transparent:
  assumes "read_request_head pipe_read s = (Inr head, s')"
    and "io_seq (replay_read pipe_read) (replay_write pipe_write) ops (ReplayStream_new head s') = (True, got, sent, rs)"
  shows "pipe_content s = got @ replay_content pipe_content rs \<and> pp_out (rp_inner rs) = pp_out s @ sent"
  using replayed_pipe.io_seq_faithful [OF assms(2)] pipe_head [OF assms(1)]
  by (simp add: pipe.replay_new_content) (simp add: ReplayStream_new_def)

definition demo_pipe :: pipe where
  "demo_pipe = \<lparr>pp_in = demo_stream, pp_out = [9], pp_accept = [2, 5], pp_open = True\<rparr>"

lemma demo_pipe_head:
  "read_request_head pipe_read demo_pipe =
     (Inr [71, 69, 84, 13, 10, 13, 10, 1, 2], demo_pipe\<lparr>pp_in := \<lparr>ch_chunks = [[], [3]], ch_fails = False\<rparr>\<rparr>)"
  by code_simp

theorem replay_duplex_transparent_witness:
  "\<exists>rs. pipe_content demo_pipe = [71, 69, 84, 13, 10, 13, 10, 1, 2, 3] @ replay_content pipe_content rs \<and>
     pp_out (rp_inner rs) = [9] @ [1, 1, 4, 5]"
proof -
  have "\<exists>rs. io_seq (replay_read pipe_read) (replay_write pipe_write)
      [Read 4, Write [1, 1, 1], Read 4, Read 4, Write [4, 5], Read 4]
      (ReplayStream_new [71, 69, 84, 13, 10, 13, 10, 1, 2]
        (demo_pipe\<lparr>pp_in := \<lparr>ch_chunks = [[], [3]], ch_fails = False\<rparr>\<rparr>)) =
      (True, [71, 69, 84, 13, 10, 13, 10, 1, 2, 3], [1, 1, 4, 5], rs)"
    by (simp add: ReplayStream_new_def replay_read_def replay_write_def chunked_read_def pipe_defs demo_pipe_def)
  then obtain rs where "io_seq (replay_read pipe_read) (replay_write pipe_write)
      [Read 4, Write [1, 1, 1], Read 4, Read 4, Write [4, 5], Read 4]
      (ReplayStream_new [71, 69, 84, 13, 10, 13, 10, 1, 2]
        (demo_pipe\<lparr>pp_in := \<lparr>ch_chunks = [[], [3]], ch_fails = False\<rparr>\<rparr>)) =
      (True, [71, 69, 84, 13, 10, 13, 10, 1, 2, 3], [1, 1, 4, 5], rs)" by blast
  from replay_duplex_transparent [OF demo_pipe_head this] show ?thesis
    by (intro exI [of _ rs]) (simp add: demo_pipe_def)
qed

text \<open>
  A response that was sent without an error has arrived completely, after everything written before; otherwise a
  first part of it has. Nothing that the client has sent is lost.
\<close>

theorem response_arrives:
  "send_response hx (pieces pipe_write) pipe_shutdown r include_body s = (d, s') \<Longrightarrow> pipe_content s' = pipe_content s \<and>
     (\<exists>k. pp_out s' = pp_out s @ take k (as_bytes (write_response hx r include_body)) \<and>
        (d = Inr () \<longrightarrow> k = length (as_bytes (write_response hx r include_body))))"
  by (rule pipe_sink.send_response_spec)

end
