(* ===== verification/RelayEnd.thy ===== *)
theory RelayEnd
  imports Relay
begin

text \<open>
  The relays of \<open>src/proxy.rs\<close> do not spin. Every turn of either loop uses up something that one of the two
  sides sent (a websocket event, bytes or a datagram of the upstream) or is the last one, so the number of turns is
  bounded by what the sides send, whatever the schedule. How long a turn waits or a write takes is another
  matter: TCP has no idle timeout, and no write has one.
\<close>

section \<open>TCP\<close>

text \<open>The TCP relay goes on after a turn when a message other than a close frame, or bytes, arrived and could be passed on.\<close>

definition tcp_goes_on :: "'s reader \<Rightarrow> nat \<Rightarrow> tcp_choice \<Rightarrow> 's tcp_relay \<Rightarrow> bool" where
  "tcp_goes_on read n c st \<longleftrightarrow>
     (case c of
        FromWs w \<Rightarrow> (\<exists>m rest. tr_inbox st = WsMessage m # rest \<and> (\<nexists>frame. m = Close frame) \<and> (calls_for m \<longrightarrow> w = Written))
      | FromTcp w \<Rightarrow> (\<exists>bs upstream. read n (tr_upstream st) = (Inr bs, upstream) \<and> bs \<noteq> []) \<and> w = Written)"

lemma tcp_step_running:
  assumes "tr_status st = Running"
  shows "tr_status (tcp_step read n c st) = Running \<longleftrightarrow> tcp_goes_on read n c st"
proof (cases c)
  case (FromWs w)
  with assms show ?thesis
    by (cases w) (auto simp: tcp_goes_on_def write_tcp_def send_ws_def shutdown_tcp_def Let_def
        split: list.splits ws_event.splits message.splits)
next
  case (FromTcp w)
  obtain r u where "read n (tr_upstream st) = (r, u)" by fastforce
  with assms FromTcp show ?thesis
    by (cases r; cases w) (auto simp: tcp_goes_on_def send_ws_def Let_def)
qed

lemma tcp_run_append:
  "tr_status (tcp_run read n cs st) = Running \<Longrightarrow> tcp_run read n (cs @ ds) st = tcp_run read n ds (tcp_run read n cs st)"
  by (induction cs arbitrary: st) (auto simp del: tcp_step.simps split: if_splits)

text \<open>What both sides still have in store: a measure that every turn decreases.\<close>

definition tcp_left :: "('s \<Rightarrow> bytes) \<Rightarrow> 's tcp_relay \<Rightarrow> nat" where
  "tcp_left content st = length (tr_inbox st) + length (content (tr_upstream st))"

context byte_source
begin

lemma tcp_step_left:
  assumes "0 < n" and "tr_status (tcp_step read n c st) = Running"
  shows "tcp_left content (tcp_step read n c st) < tcp_left content st"
proof (cases c)
  case (FromWs w)
  with assms(2) show ?thesis
    by (cases w) (auto simp: tcp_left_def write_tcp_def send_ws_def shutdown_tcp_def Let_def
        split: list.splits ws_event.splits message.splits)
next
  case (FromTcp w)
  obtain r u where r: "read n (tr_upstream st) = (r, u)" by fastforce
  with FromTcp assms(2) obtain bs where bs: "r = Inr bs" "bs \<noteq> []"
    by (cases r) (auto simp: Let_def split: if_splits)
  with r have "content (tr_upstream st) = bs @ content u" using read_content by blast
  with FromTcp r bs show ?thesis by (cases w) (simp_all add: tcp_left_def send_ws_def)
qed

lemma tcp_run_left:
  assumes "0 < n" and "tr_status (tcp_run read n cs st) = Running"
  shows "length cs + tcp_left content (tcp_run read n cs st) \<le> tcp_left content st"
  using assms(2)
proof (induction cs arbitrary: st)
  case (Cons c cs)
  then have run: "tr_status st = Running" by (auto split: if_splits)
  with Cons.prems have run': "tr_status (tcp_run read n cs (tcp_step read n c st)) = Running" by simp
  then have "tr_status (tcp_step read n c st) = Running" by (cases cs) (auto split: if_splits)
  from tcp_step_left [OF assms(1) this] Cons.IH [OF run'] run show ?case by simp
qed simp

end

section \<open>UDP\<close>

definition udp_left :: "udp_relay \<Rightarrow> nat" where
  "udp_left st = length (ur_inbox st) + length (ur_upstream st)"

lemma udp_step_left:
  assumes "ur_status (udp_step t c st) = Running"
  shows "udp_left (udp_step t c st) < udp_left st"
  using assms
  by (cases c rule: prod_cases3)
    (auto simp: udp_left_def udp_idle_def udp_from_ws_def udp_from_upstream_def udp_send_def udp_send_ws_def Let_def
      split: if_splits udp_source.splits list.splits ws_event.splits message.splits option.splits write_result.splits)

lemma udp_run_left:
  assumes "ur_status (udp_run t cs st) = Running"
  shows "length cs + udp_left (udp_run t cs st) \<le> udp_left st"
  using assms
proof (induction cs arbitrary: st)
  case (Cons c cs)
  then have run: "ur_status st = Running" by (auto split: if_splits)
  with Cons.prems have run': "ur_status (udp_run t cs (udp_step t c st)) = Running" by simp
  then have "ur_status (udp_step t c st) = Running" by (cases cs) (auto split: if_splits)
  from udp_step_left [OF this] Cons.IH [OF run'] run show ?case by simp
qed simp

section \<open>Property\<close>

text \<open>
  (C19) The relays do no idle turns. Every turn of a running relay has used up at least one message, one datagram or
  one byte that a side sent (a positive buffer assumed for TCP), so the turns taken and what is left
  never exceed what the sides sent; and a running TCP relay goes on after one more turn exactly when that turn brought
  a message other than a close frame, or bytes, and what it calls for could be written. So a closed websocket, a
  closed upstream, a failed read or a failed write ends it at once, and nothing else does.
\<close>

theorem relay_turns_productive:
  "(0 < n \<and> tr_status (proxy_tcp chunked_read n inbox s cs) = Running \<longrightarrow>
      length cs + length (tr_inbox (proxy_tcp chunked_read n inbox s cs)) +
        length (chunked_content (tr_upstream (proxy_tcp chunked_read n inbox s cs)))
      \<le> length inbox + length (chunked_content s)) \<and>
   (tr_status (proxy_tcp chunked_read n inbox s cs) = Running \<longrightarrow>
      (tr_status (proxy_tcp chunked_read n inbox s (cs @ [c])) = Running \<longleftrightarrow>
         tcp_goes_on chunked_read n c (proxy_tcp chunked_read n inbox s cs))) \<and>
   (ur_status (proxy_udp idle_timeout inbox upstream ds) = Running \<longrightarrow>
      length ds + length (ur_inbox (proxy_udp idle_timeout inbox upstream ds)) +
        length (ur_upstream (proxy_udp idle_timeout inbox upstream ds))
      \<le> length inbox + length upstream)"
proof (intro conjI impI)
  let ?tcp = "\<lparr>tr_inbox = inbox, tr_upstream = s, tr_to_tcp = [], tr_shutdown = False, tr_to_ws = [], tr_status = Running\<rparr>"
  show "length cs + length (tr_inbox (proxy_tcp chunked_read n inbox s cs)) +
        length (chunked_content (tr_upstream (proxy_tcp chunked_read n inbox s cs)))
      \<le> length inbox + length (chunked_content s)"
    if "0 < n \<and> tr_status (proxy_tcp chunked_read n inbox s cs) = Running"
    using that chunked.tcp_run_left [of n cs ?tcp] by (simp add: proxy_tcp_def tcp_left_def)
  show "tr_status (proxy_tcp chunked_read n inbox s (cs @ [c])) = Running \<longleftrightarrow>
         tcp_goes_on chunked_read n c (proxy_tcp chunked_read n inbox s cs)"
    if "tr_status (proxy_tcp chunked_read n inbox s cs) = Running"
    using that tcp_step_running [OF that, of chunked_read n c]
    by (simp add: proxy_tcp_def tcp_run_append del: tcp_step.simps)
  show "length ds + length (ur_inbox (proxy_udp idle_timeout inbox upstream ds)) +
        length (ur_upstream (proxy_udp idle_timeout inbox upstream ds)) \<le> length inbox + length upstream"
    if "ur_status (proxy_udp idle_timeout inbox upstream ds) = Running"
    using that udp_run_left [of idle_timeout ds "\<lparr>ur_inbox = inbox, ur_upstream = upstream, ur_to_udp = [], ur_to_ws = [],
      ur_waited = 0, ur_status = Running\<rparr>"] by (simp add: proxy_udp_def udp_left_def)
qed

theorem relay_turns_productive_witness:
  "tr_status (proxy_tcp chunked_read 2 demo_inbox demo_upstream [FromWs Written, FromTcp Written, FromWs (Broken 0)]) \<noteq> Running \<and>
   length (tr_inbox (proxy_tcp chunked_read 2 demo_inbox demo_upstream [FromWs Written, FromTcp Written])) +
     length (chunked_content (tr_upstream (proxy_tcp chunked_read 2 demo_inbox demo_upstream [FromWs Written, FromTcp Written])))
   \<le> 6 \<and>
   length (ur_inbox (proxy_udp 60 [WsMessage (Pong [])] [Some []] [(0, UdpSide, Written)])) +
     length (ur_upstream (proxy_udp 60 [WsMessage (Pong [])] [Some []] [(0, UdpSide, Written)])) \<le> 1"
proof -
  let ?tcp = "proxy_tcp chunked_read 2 demo_inbox demo_upstream [FromWs Written, FromTcp Written]"
  have run: "tr_status ?tcp = Running" and tcp: "tr_inbox ?tcp = [WsMessage (Ping [9]), WsMessage (Binary [1, 2]), WsMessage (Close None)]"
    and udp: "ur_status (proxy_udp 60 [WsMessage (Pong [])] [Some []] [(0, UdpSide, Written)]) = Running"
    by code_simp+
  have sizes: "length demo_inbox = 4" "length (chunked_content demo_upstream) = 4" by code_simp+
  have ends: "\<not> tcp_goes_on chunked_read 2 (FromWs (Broken 0)) ?tcp"
    by (simp add: tcp_goes_on_def tcp)
  show ?thesis
    using run udp sizes ends
      relay_turns_productive [of 2 demo_inbox demo_upstream "[FromWs Written, FromTcp Written]" "FromWs (Broken 0)"]
      relay_turns_productive [of 0 "[WsMessage (Pong [])]" demo_upstream "[]" undefined 60 "[Some []]" "[(0, UdpSide, Written)]"]
    by simp
qed

end
