(* ===== verification/TokenFaults.thy ===== *)
theory TokenFaults
  imports TokenThms
begin

text \<open>
  The Unix clock of \<open>src/token.rs\<close> (\<open>unix_now\<close>), and two faults of the token service: an access lifetime that
  overflows the Unix seconds, and a random generator that fails during a refresh.
\<close>

section \<open>The clock\<close>

text \<open>The system time is given in nanoseconds after (or, negative, before) the Unix epoch.\<close>

definition unix_now :: "int \<Rightarrow> u64" where
  "unix_now system_time = (if system_time < 0 then 0 else of_nat (nat system_time div nanos))"

text \<open>A system clock that runs in step with the monotonic clock gives clocks in step.\<close>

lemma unix_now_clock: "(offset + t) div nanos < 2 ^ 64 \<Longrightarrow> clock offset t (unix_now (int (offset + t)))"
  unfolding clock_def unix_now_def by (simp add: unat_of_nat nat_int_add)

lemma unix_now_mono:
  assumes "a \<le> b" and "nat b div nanos < 2 ^ 64"
  shows "unix_now a \<le> unix_now b"
proof (cases "a < 0")
  case False
  with assms(1) have "nat a div nanos \<le> nat b div nanos" by (intro div_le_mono nat_mono)
  with False assms show ?thesis by (simp add: unix_now_def word_le_nat_alt unat_of_nat)
qed (simp add: unix_now_def)

section \<open>A lifetime that wraps\<close>

text \<open>
  An access lifetime that, added to the Unix time, exceeds \<open>u64\<close> (which the options allow) makes every access token
  worthless: the sum wraps to a moment in the past, so that no token minted under it is ever accepted, from the very
  second of the login on, by this service in any later state.
\<close>

theorem wrapped_lifetime_expired:
  assumes "ext_ok x" and "ts_key svc' = ts_key svc" and "utf8_ok (as_bytes user)"
    and "2 ^ 64 \<le> unat um + as_secs (ts_access_ttl svc)" and "as_secs (ts_access_ttl svc) < 2 ^ 64"
    and "um \<le> unix"
  shows "verify_access x unix (mint_access x svc um f user) svc' = Ret None"
proof -
  let ?a = "as_secs (ts_access_ttl svc)"
  have "unat (um + of_nat ?a) = (unat um + ?a) mod 2 ^ 64"
    using assms(5) by (simp add: unat_word_ariths unat_of_nat)
  also have "\<dots> = unat um + ?a - 2 ^ 64"
    using assms(4,5) unsigned_less [of um, where 'a = nat] by (simp add: le_mod_geq)
  also have "\<dots> \<le> unat um" using assms(5) by simp
  finally have "um + of_nat ?a \<le> um" by (simp add: word_le_nat_alt)
  with assms(6) have "um + of_nat ?a \<le> unix" by (rule order_trans [rotated])
  with decode_mint [OF assms(1,2,3), of unix um f] show ?thesis by (simp add: verify_access_def)
qed

theorem wrapped_lifetime_expired_witness:
  "verify_access demo_ext 1700000000 (mint_access demo_ext (demo_service\<lparr>ts_access_ttl := from_secs (2 ^ 64 - 1)\<rparr>)
     1700000000 5 ''bob'') demo_service = Ret None"
proof -
  let ?svc = "demo_service\<lparr>ts_access_ttl := from_secs (2 ^ 64 - 1)\<rparr>"
  have "utf8_ok (as_bytes ''bob'')" by code_simp
  moreover have "as_secs (ts_access_ttl ?svc) = 2 ^ 64 - 1" by simp
  ultimately show ?thesis
    using wrapped_lifetime_expired [OF demo_ext_ok, of demo_service ?svc "''bob''" 1700000000 1700000000 5]
    by (simp add: demo_service_def)
qed

section \<open>A refresh without random bytes\<close>

lemma consume_without_random:
  assumes "hm_get (st_refresh s) h = Some r" and "env_now e < rr_expires r" "env_now e < rr_family_deadline r"
    and "ue (rr_user r)" and "env_token e = None"
  shows "consume x svc e h ue s = Ret (Inl Random,
    s\<lparr>st_refresh := hm_remove h (st_refresh s),
      st_spent := hm_insert h \<lparr>sp_family = rr_family r, sp_user = rr_user r, sp_expires = rr_expires r\<rparr> (st_spent s)\<rparr>)"
  using assms by (simp add: consume_def issue_def generate_token_def Let_def)

text \<open>
  (C34) A refresh whose random generator fails costs the client its login. The refresh is refused because no token can be
  made, but the presented token is spent all the same; when the client tries again with it (it has no other), the
  retry counts as a reuse, is answered with \<open>Reused\<close>, and revokes the whole login.
\<close>

theorem failed_refresh_costs_login:
  assumes ok: "maps_ok (ts_state svc)" "\<not> ts_poisoned svc"
    and live: "hm_get (st_refresh (ts_state svc)) (hash_token x token) = Some r"
      "env_now e < rr_expires r" "env_now e < rr_family_deadline r" "user_exists (rr_user r)"
    and failed: "env_token e = None" "env_now e + SWEEP_INTERVAL \<le> env_imax e"
      "refresh x e token user_exists svc = (answer, svc1)" "answer \<noteq> Ret (Inl Full)"
    and again: "env_now e \<le> env_now e2" "env_now e2 < rr_expires r"
      "env_now e2 + ts_access_ttl svc \<le> env_imax e2" "env_now e2 + SWEEP_INTERVAL \<le> env_imax e2"
      "refresh x e2 token user_exists2 svc1 = (answer2, svc2)" "answer2 \<noteq> Ret (Inl Full)"
  shows "answer = Ret (Inl Random) \<and> answer2 = Ret (Inl (Reused (rr_user r))) \<and>
    (\<forall>h rec. hm_get (st_refresh (ts_state svc2)) h = Some rec \<longrightarrow> rr_family rec \<noteq> rr_family r)"
proof -
  let ?h = "hash_token x token" and ?sp = "\<lparr>sp_family = rr_family r, sp_user = rr_user r, sp_expires = rr_expires r\<rparr>"
  obtain s1 where s1: "prepare e (ts_state svc) = Ret (Inr (), s1)"
    using prepare_total [OF failed(2), of "ts_state svc"] failed(3,4) ok(2)
    by (auto simp: refresh_def with_state_def refresh_body_prepare)
  have thin: "thinned (env_now e) (ts_state svc) s1" using thinned_prepare [OF ok(1) s1] .
  with live have live1: "hm_get (st_refresh s1) ?h = Some r" by (simp add: thinned_def)
  note consumed = consume_without_random [OF live1 live(2,3), of user_exists x svc, OF live(4) failed(1)]
  have first: "answer = Ret (Inl Random)" and state1: "ts_state svc1 =
      s1\<lparr>st_refresh := hm_remove ?h (st_refresh s1), st_spent := hm_insert ?h ?sp (st_spent s1)\<rparr>"
    and frame: "\<not> ts_poisoned svc1" "ts_access_ttl svc1 = ts_access_ttl svc"
    using failed(3) ok(2) s1 consumed by (auto simp: refresh_def with_state_def refresh_body_prepare)
  have "maps_ok s1" using thin by (simp add: thinned_def)
  then have "remembered ?h ?sp (env_now e) (ts_state svc1)"
    unfolding state1 by (simp add: remembered_def maps_ok_def hm_laws)
  then have "remembered ?h ?sp (env_now e2) (ts_state svc1)" using again(1) by (rule memory.time)
  then obtain svc' where "refresh x e2 token user_exists2 svc1 = (Ret (Inl (Reused (rr_user r))), svc')"
    "dead (rr_family r) (env_now e2) (ts_access_ttl svc1) (env_now e2) (ts_state svc')"
    using refresh_remembered [of x token ?sp e2 svc1 user_exists2] again frame by auto
  with again(5) first show ?thesis by (simp add: dead_def)
qed

theorem failed_refresh_costs_login_witness:
  "\<exists>answer svc1 answer2 svc2.
     refresh demo_ext (demo_env 10 6\<lparr>env_token := None\<rparr>) ''af'' (\<lambda>_. True) demo_login = (answer, svc1) \<and>
     refresh demo_ext (demo_env 20 7) ''af'' (\<lambda>_. True) svc1 = (answer2, svc2) \<and>
     answer = Ret (Inl Random) \<and> answer2 = Ret (Inl (Reused ''bob''))"
proof -
  let ?e = "demo_env 10 6\<lparr>env_token := None\<rparr>"
  obtain answer svc1 where one: "refresh demo_ext ?e ''af'' (\<lambda>_. True) demo_login = (answer, svc1)" by fastforce
  obtain answer2 svc2 where two: "refresh demo_ext (demo_env 20 7) ''af'' (\<lambda>_. True) svc1 = (answer2, svc2)" by fastforce
  have "fst (refresh demo_ext ?e ''af'' (\<lambda>_. True) demo_login) \<noteq> Ret (Inl Full)"
    and "fst (refresh demo_ext (demo_env 20 7) ''af'' (\<lambda>_. True) (snd (refresh demo_ext ?e ''af'' (\<lambda>_. True) demo_login))) \<noteq> Ret (Inl Full)"
    by (simp_all add: demo_simps evals char_of_eq_iff)
  with one two have room: "answer \<noteq> Ret (Inl Full)" "answer2 \<noteq> Ret (Inl Full)" by simp_all
  have "answer = Ret (Inl Random) \<and> answer2 = Ret (Inl (Reused ''bob''))"
    using failed_refresh_costs_login [OF demo_login_refresh(2,3,1) _ _ _ _ _ one room(1) _ _ _ _ two room(2)]
    by (simp add: demo_env_def demo_login_refresh token_consts from_secs_def nanos_def)
  with one two show ?thesis by blast
qed

end
