(* ===== verification/TokenSpec.thy ===== *)
theory TokenSpec
  imports TokenThms
begin

text \<open>
  What the token service of \<open>src/token.rs\<close> promises, without its store: a ledger that remembers every
  refresh token ever handed out and every login ever ended, and never forgets by itself. The service
  keeps only three bounded or swept hash maps; that every sequence of its operations is a run of the ledger, answer
  for answer, is proved by a forward simulation; and how much the ledger leaves open is proved of it by itself.
\<close>

section \<open>Runs and simulations\<close>

inductive runs :: "('c \<Rightarrow> 'l \<Rightarrow> 'c \<Rightarrow> bool) \<Rightarrow> 'c \<Rightarrow> 'l list \<Rightarrow> 'c \<Rightarrow> bool"
  for step :: "'c \<Rightarrow> 'l \<Rightarrow> 'c \<Rightarrow> bool" and c :: 'c where
  runs_nil: "runs step c [] c"
| runs_snoc: "runs step c trace c' \<Longrightarrow> step c' l c'' \<Longrightarrow> runs step c (trace @ [l]) c''"

text \<open>
  A forward simulation: each step of the implementation is matched by a step of the specification with the
  same label. Then every run is matched by a run with the same trace.
\<close>

locale simulation =
  fixes impl :: "'c \<Rightarrow> 'l \<Rightarrow> 'c \<Rightarrow> bool" and spec :: "'a \<Rightarrow> 'l \<Rightarrow> 'a \<Rightarrow> bool" and R :: "'c \<Rightarrow> 'a \<Rightarrow> bool"
  assumes simulates: "R c a \<Longrightarrow> impl c l c' \<Longrightarrow> \<exists>a'. spec a l a' \<and> R c' a'"
begin

lemma traces:
  assumes "runs impl c trace c'" and "R c a"
  shows "\<exists>a'. runs spec a trace a' \<and> R c' a'"
  using assms
proof (induction rule: runs.induct)
  case runs_nil
  then show ?case by (blast intro: runs.runs_nil)
next
  case (runs_snoc trace c' l c'')
  then show ?case using simulates by (meson runs.runs_snoc)
qed

end

section \<open>The ledger\<close>

datatype entry = Live refresh_record | Spent spent_record

fun entry_family :: "entry \<Rightarrow> u64" where
  "entry_family (Live r) = rr_family r"
| "entry_family (Spent sp) = sp_family sp"

fun entry_expires :: "entry \<Rightarrow> instant" where
  "entry_expires (Live r) = rr_expires r"
| "entry_expires (Spent sp) = sp_expires sp"

record ledger =
  ld_tokens :: "hash \<rightharpoonup> entry"
  ld_revoked :: "u64 \<rightharpoonup> instant"

definition empty_ledger :: ledger where
  "empty_ledger = \<lparr>ld_tokens = Map.empty, ld_revoked = Map.empty\<rparr>"

definition enter :: "hash \<Rightarrow> entry \<Rightarrow> ledger \<Rightarrow> ledger" where
  "enter h en L = L\<lparr>ld_tokens := (ld_tokens L)(h \<mapsto> en)\<rparr>"

definition strike :: "hash \<Rightarrow> ledger \<Rightarrow> ledger" where
  "strike h L = L\<lparr>ld_tokens := (ld_tokens L)(h := None)\<rparr>"

definition end_login :: "u64 \<Rightarrow> instant \<Rightarrow> ledger \<Rightarrow> ledger" where
  "end_login f until L = L\<lparr>
     ld_tokens := (\<lambda>h. case ld_tokens L h of
        Some (Live r) \<Rightarrow> if rr_family r = f then None else Some (Live r) | en \<Rightarrow> en),
     ld_revoked := (ld_revoked L)(f \<mapsto> until)\<rparr>"

definition spent_of :: "refresh_record \<Rightarrow> entry" where
  "spent_of r = Spent \<lparr>sp_family = rr_family r, sp_user = rr_user r, sp_expires = rr_expires r\<rparr>"

definition live_until :: "u64 \<Rightarrow> string \<Rightarrow> instant \<Rightarrow> instant \<Rightarrow> refresh_record" where
  "live_until f u expires deadline =
     \<lparr>rr_family = f, rr_user = u, rr_expires = min expires deadline, rr_family_deadline = deadline\<rparr>"

datatype token_request = AskLogin string | AskRefresh string "string \<Rightarrow> bool" | AskRevoke string

datatype token_answer = Tokens string issued_tokens | Denied token_error | Ended bool

text \<open>
  One request to the ledger at time \<open>now\<close>. A service may always refuse for lack of room or of random
  bytes; what it may not do is answer anything else than what the entry of the presented token says. A
  refresh token that expired counts as none, except that a logout may still end the login of such a token.
\<close>

inductive ledger_step ::
  "ext \<Rightarrow> duration \<Rightarrow> duration \<Rightarrow> instant \<Rightarrow> ledger \<Rightarrow> token_request \<Rightarrow> token_answer \<Rightarrow> ledger \<Rightarrow> bool"
  for x :: ext and access_ttl refresh_ttl :: duration and now :: instant where
  login_full: "ledger_step x access_ttl refresh_ttl now L (AskLogin u) (Denied Full) L"
| login_random: "ledger_step x access_ttl refresh_ttl now L (AskLogin u) (Denied Random) L"
| login_opens:
    "r = live_until f u (now + refresh_ttl) (now + MAX_FAMILY_LIFETIME) \<Longrightarrow>
     it_refresh_expires_in it = as_secs (rr_expires r - now) \<Longrightarrow>
     it_access_expires_in it = as_secs access_ttl \<Longrightarrow>
     ledger_step x access_ttl refresh_ttl now L (AskLogin u) (Tokens u it)
       (enter (hash_token x (it_refresh_token it)) (Live r) L)"
| refresh_full: "ledger_step x access_ttl refresh_ttl now L (AskRefresh token ue) (Denied Full) L"
| refresh_unknown:
    "\<forall>en. ld_tokens L (hash_token x token) = Some en \<longrightarrow> entry_expires en \<le> now \<Longrightarrow>
     ledger_step x access_ttl refresh_ttl now L (AskRefresh token ue) (Denied Invalid) L"
| refresh_stranger:
    "ld_tokens L (hash_token x token) = Some (Live r) \<Longrightarrow> now < rr_expires r \<Longrightarrow> \<not> ue (rr_user r) \<Longrightarrow>
     ledger_step x access_ttl refresh_ttl now L (AskRefresh token ue) (Denied Invalid) (strike (hash_token x token) L)"
| refresh_reused:
    "ld_tokens L (hash_token x token) = Some (Spent sp) \<Longrightarrow> now < sp_expires sp \<Longrightarrow>
     ledger_step x access_ttl refresh_ttl now L (AskRefresh token ue) (Denied (Reused (sp_user sp)))
       (end_login (sp_family sp) (now + access_ttl) L)"
| refresh_random:
    "ld_tokens L (hash_token x token) = Some (Live r) \<Longrightarrow> now < rr_expires r \<Longrightarrow> ue (rr_user r) \<Longrightarrow>
     ledger_step x access_ttl refresh_ttl now L (AskRefresh token ue) (Denied Random)
       (enter (hash_token x token) (spent_of r) L)"
| refresh_rotates:
    "ld_tokens L (hash_token x token) = Some (Live r) \<Longrightarrow> now < rr_expires r \<Longrightarrow> ue (rr_user r) \<Longrightarrow>
     r' = live_until (rr_family r) (rr_user r) (now + refresh_ttl) (rr_family_deadline r) \<Longrightarrow>
     it_refresh_expires_in it = as_secs (rr_expires r' - now) \<Longrightarrow>
     it_access_expires_in it = as_secs access_ttl \<Longrightarrow>
     ledger_step x access_ttl refresh_ttl now L (AskRefresh token ue) (Tokens (rr_user r) it)
       (enter (hash_token x (it_refresh_token it)) (Live r') (enter (hash_token x token) (spent_of r) L))"
| revoke_known:
    "ld_tokens L (hash_token x token) = Some en \<Longrightarrow>
     ledger_step x access_ttl refresh_ttl now L (AskRevoke token) (Ended True)
       (end_login (entry_family en) (now + access_ttl) L)"
| revoke_unknown:
    "\<forall>en. ld_tokens L (hash_token x token) = Some en \<longrightarrow> entry_expires en \<le> now \<Longrightarrow>
     ledger_step x access_ttl refresh_ttl now L (AskRevoke token) (Ended False) L"

text \<open>A step of the ledger as a transition labelled with the time, the request and the answer.\<close>

fun ledger_next ::
  "ext \<Rightarrow> duration \<Rightarrow> duration \<Rightarrow> ledger \<Rightarrow> instant \<times> token_request \<times> token_answer \<Rightarrow> ledger \<Rightarrow> bool" where
  "ledger_next x access_ttl refresh_ttl L (now, q, a) L' = ledger_step x access_ttl refresh_ttl now L q a L'"

section \<open>The service as an implementation\<close>

text \<open>One request to the service, with its answer in the terms of the ledger.\<close>

fun perform :: "ext \<Rightarrow> env \<Rightarrow> token_request \<Rightarrow> token_service \<Rightarrow> token_answer outcome \<times> token_service" where
  "perform x e (AskLogin u) svc =
     (case login x e u svc of
        (Panic, svc) \<Rightarrow> (Panic, svc)
      | (Ret (Inl err), svc) \<Rightarrow> (Ret (Denied err), svc)
      | (Ret (Inr it), svc) \<Rightarrow> (Ret (Tokens u it), svc))"
| "perform x e (AskRefresh token ue) svc =
     (case refresh x e token ue svc of
        (Panic, svc) \<Rightarrow> (Panic, svc)
      | (Ret (Inl err), svc) \<Rightarrow> (Ret (Denied err), svc)
      | (Ret (Inr (u, it)), svc) \<Rightarrow> (Ret (Tokens u it), svc))"
| "perform x e (AskRevoke token) svc =
     (case revoke x e token svc of
        (Panic, svc) \<Rightarrow> (Panic, svc)
      | (Ret known, svc) \<Rightarrow> (Ret (Ended known), svc))"

text \<open>The generator does not draw a token that the store already knows.\<close>

definition unused :: "ext \<Rightarrow> env \<Rightarrow> state \<Rightarrow> bool" where
  "unused x e s \<longleftrightarrow> (\<forall>token. generate_token x (env_token e) = Some token \<longrightarrow>
     hm_get (st_refresh s) (hash_token x token) = None \<and> hm_get (st_spent s) (hash_token x token) = None)"

inductive service_next ::
  "ext \<Rightarrow> token_service \<times> instant \<Rightarrow> instant \<times> token_request \<times> token_answer \<Rightarrow> token_service \<times> instant \<Rightarrow> bool"
  for x :: ext where
  service_next: "t \<le> env_now e \<Longrightarrow> unused x e (ts_state svc) \<Longrightarrow> perform x e q svc = (Ret a, svc') \<Longrightarrow>
     service_next x (svc, t) (env_now e, q, a) (svc', env_now e)"

inductive_cases service_nextE: "service_next x c l c'"

section \<open>The simulation\<close>

text \<open>A map that has forgotten only entries expired at \<open>t\<close>, and holds nothing else than the full one.\<close>

definition forgets :: "instant \<Rightarrow> ('v \<Rightarrow> instant) \<Rightarrow> ('k \<rightharpoonup> 'v) \<Rightarrow> ('k \<rightharpoonup> 'v) \<Rightarrow> bool" where
  "forgets t expires m full \<longleftrightarrow> m \<subseteq>\<^sub>m full \<and> (\<forall>k v. full k = Some v \<and> t < expires v \<longrightarrow> m k = Some v)"

lemma forgetsI:
  assumes "\<And>k v. m k = Some v \<Longrightarrow> full k = Some v" and "\<And>k v. full k = Some v \<Longrightarrow> t < ex v \<Longrightarrow> m k = Some v"
  shows "forgets t ex m full"
  unfolding forgets_def by (intro conjI allI impI map_leI) (rule assms(1), assumption, rule assms(2), blast, blast)

lemma forgets_get:
  assumes "forgets t ex m full"
  shows "m k = Some v \<Longrightarrow> full k = Some v" and "full k = Some v \<Longrightarrow> t < ex v \<Longrightarrow> m k = Some v"
  using assms unfolding forgets_def by (blast intro: map_leD)+

lemma forgets_later: "forgets t ex m full \<Longrightarrow> t \<le> t' \<Longrightarrow> forgets t' ex m full"
  by (rule forgetsI) (erule (1) forgets_get, rule forgets_get(2), assumption+, simp)

lemma forgets_upd:
  assumes "forgets t ex m full"
  shows "forgets t ex (m(k := v)) (full(k := v))"
proof (rule forgetsI)
  fix j w
  show "(full(k := v)) j = Some w" if "(m(k := v)) j = Some w"
    using that forgets_get(1) [OF assms, of j w] by (cases "j = k") simp_all
  show "(m(k := v)) j = Some w" if "(full(k := v)) j = Some w" "t < ex w"
    using that forgets_get(2) [OF assms, of j w] by (cases "j = k") simp_all
qed

lemma forgets_thin:
  assumes "forgets t ex m full" and "\<And>k v. m' k = Some v \<Longrightarrow> m k = Some v"
    and "\<And>k v. m k = Some v \<Longrightarrow> t < ex v \<Longrightarrow> m' k = Some v"
  shows "forgets t ex m' full"
  by (rule forgetsI) (rule forgets_get(1) [OF assms(1)], erule assms(2),
      rule assms(3), rule forgets_get(2) [OF assms(1)], assumption+)

lemma forgets_expired:
  assumes "forgets t ex m full" and "m k = Some v" and "ex v \<le> t"
  shows "forgets t ex (m(k := None)) full"
  using assms(1) by (rule forgets_thin) (use assms(2,3) in \<open>auto split: if_splits\<close>)

lemma forgets_filter:
  assumes "forgets t ex m full"
  shows "forgets t ex (\<lambda>k. case m k of Some v \<Rightarrow> if P v then Some v else None | None \<Rightarrow> None)
    (\<lambda>k. case full k of Some v \<Rightarrow> if P v then Some v else None | None \<Rightarrow> None)"
  by (rule forgetsI) (auto split: option.splits if_splits dest: forgets_get [OF assms])

text \<open>The refresh tokens the store knows, as entries of the ledger.\<close>

definition held :: "state \<Rightarrow> hash \<rightharpoonup> entry" where
  "held s h = (case hm_get (st_refresh s) h of
     Some r \<Rightarrow> Some (Live r) | None \<Rightarrow> map_option Spent (hm_get (st_spent s) h))"

definition sim :: "instant \<Rightarrow> state \<Rightarrow> ledger \<Rightarrow> bool" where
  "sim t s L \<longleftrightarrow> maps_ok s \<and>
     (\<forall>h. hm_get (st_refresh s) h = None \<or> hm_get (st_spent s) h = None) \<and>
     (\<forall>h r. hm_get (st_refresh s) h = Some r \<longrightarrow> rr_expires r \<le> rr_family_deadline r) \<and>
     forgets t entry_expires (held s) (ld_tokens L) \<and>
     forgets t id (hm_get (st_revoked s)) (ld_revoked L)"

lemmas ledger_ops = enter_def strike_def end_login_def

lemma sim_later: "sim t s L \<Longrightarrow> t \<le> t' \<Longrightarrow> sim t' s L"
  unfolding sim_def by (elim conjE, intro conjI) (assumption | erule (1) forgets_later)+

lemma sim_thinned:
  assumes sim: "sim t s L" and thin: "thinned t s s'"
  shows "sim t s' L"
proof -
  have sub: "hm_get (st_refresh s') h = Some r \<Longrightarrow> hm_get (st_refresh s) h = Some r"
    "hm_get (st_spent s') h = Some sp \<Longrightarrow> hm_get (st_spent s) h = Some sp"
    "hm_get (st_revoked s') f = Some u \<Longrightarrow> hm_get (st_revoked s) f = Some u" for h r sp f u
    using thin by (auto simp: thinned_def dest: map_leD)
  have disj: "hm_get (st_refresh s') h = None \<or> hm_get (st_spent s') h = None" for h
    using sim sub unfolding sim_def by (metis not_None_eq)
  have bound: "hm_get (st_refresh s) h = Some r \<Longrightarrow> rr_expires r \<le> rr_family_deadline r" for h r
    using sim by (simp add: sim_def)
  have keep: "hm_get (st_refresh s) h = Some r \<Longrightarrow> t < rr_expires r \<Longrightarrow> hm_get (st_refresh s') h = Some r"
    "hm_get (st_spent s) h = Some sp \<Longrightarrow> t < sp_expires sp \<Longrightarrow> hm_get (st_spent s') h = Some sp"
    "hm_get (st_revoked s) f = Some u \<Longrightarrow> t < u \<Longrightarrow> hm_get (st_revoked s') f = Some u" for h r sp f u
    using thin bound [of h r] by (auto simp: thinned_def)
  have "forgets t entry_expires (held s') (ld_tokens L)"
  proof (rule forgets_thin)
    show "forgets t entry_expires (held s) (ld_tokens L)" using sim by (simp add: sim_def)
    show "held s h = Some en" if "held s' h = Some en" for h en
    proof (cases "hm_get (st_refresh s') h")
      case None
      with that obtain sp where "hm_get (st_spent s') h = Some sp" "en = Spent sp" by (auto simp: held_def)
      moreover from this sub(2) sim have "hm_get (st_refresh s) h = None" unfolding sim_def by (metis option.distinct(1))
      ultimately show ?thesis using sub(2) by (simp add: held_def)
    next
      case (Some r)
      with that sub(1) show ?thesis by (simp add: held_def)
    qed
    show "held s' h = Some en" if "held s h = Some en" "t < entry_expires en" for h en
    proof (cases "hm_get (st_refresh s) h")
      case None
      with that obtain sp where "hm_get (st_spent s) h = Some sp" "en = Spent sp" by (auto simp: held_def)
      with that keep(2) have "hm_get (st_spent s') h = Some sp" by simp
      with disj [of h] \<open>en = Spent sp\<close> show ?thesis by (auto simp: held_def)
    next
      case (Some r)
      with that have "en = Live r" by (simp add: held_def)
      with that Some keep(1) show ?thesis by (simp add: held_def)
    qed
  qed
  moreover have "forgets t id (hm_get (st_revoked s')) (ld_revoked L)"
  proof (rule forgets_thin)
    show "forgets t id (hm_get (st_revoked s)) (ld_revoked L)" using sim by (simp add: sim_def)
  qed (erule sub(3), erule keep(3), simp)
  moreover have "maps_ok s'" using thin by (simp add: thinned_def)
  moreover have "rr_expires r \<le> rr_family_deadline r" if "hm_get (st_refresh s') h = Some r" for h r
    using bound [OF sub(1) [OF that]] .
  ultimately show ?thesis using disj unfolding sim_def by (intro conjI allI impI)
qed

lemma sim_add:
  assumes "sim t s L" and "hm_get (st_spent s) h = None" and "rr_expires r \<le> rr_family_deadline r"
  shows "sim t (add_refresh h r s) (enter h (Live r) L)"
proof -
  have "held (add_refresh h r s) = (held s)(h \<mapsto> Live r)"
    using assms(1) unfolding sim_def by (auto simp: held_def fun_eq_iff store_simps split: option.split)
  with assms show ?thesis by (simp add: sim_def forgets_upd enter_def) (simp add: store_simps)
qed

lemma sim_retire:
  assumes "sim t s L" and "hm_get (st_refresh s) h = Some r"
  shows "sim t (retire h r s) (enter h (spent_of r) L)"
proof -
  have "held (retire h r s) = (held s)(h \<mapsto> spent_of r)"
    using assms(1) unfolding sim_def by (auto simp: held_def fun_eq_iff store_simps spent_of_def split: option.split)
  with assms show ?thesis by (simp add: sim_def forgets_upd enter_def) (simp add: store_simps)
qed

lemma held_drop:
  assumes "sim t s L" and "hm_get (st_refresh s) h = Some r"
  shows "held (s\<lparr>st_refresh := hm_remove h (st_refresh s)\<rparr>) = (held s)(h := None)"
proof -
  have "hm_get (st_spent s) h = None" using assms unfolding sim_def by (metis option.distinct(1))
  with assms(1) show ?thesis unfolding sim_def by (auto simp: held_def fun_eq_iff store_simps split: option.split)
qed

lemma sim_drop:
  assumes "sim t s L" and "hm_get (st_refresh s) h = Some r"
  shows "sim t (s\<lparr>st_refresh := hm_remove h (st_refresh s)\<rparr>) (strike h L)"
  using assms(1) unfolding sim_def held_drop [OF assms]
  by (simp add: forgets_upd strike_def) (simp add: store_simps)

lemma sim_drop_expired:
  assumes "sim t s L" and "hm_get (st_refresh s) h = Some r" and "rr_expires r \<le> t"
  shows "sim t (s\<lparr>st_refresh := hm_remove h (st_refresh s)\<rparr>) L"
proof -
  have "forgets t entry_expires ((held s)(h := None)) (ld_tokens L)"
    using assms by (intro forgets_expired [of _ _ _ _ _ "Live r"]) (simp_all add: sim_def held_def)
  with assms(1) show ?thesis unfolding sim_def held_drop [OF assms(1,2)] by (simp add: store_simps)
qed

lemma sim_end:
  assumes sim: "sim t s L" and revoke: "revoke_family imax f t ttl s = Some s'"
  shows "sim t s' (end_login f (t + ttl) L)"
proof -
  let ?P = "\<lambda>en. case en of Live r \<Rightarrow> rr_family r \<noteq> f | Spent _ \<Rightarrow> True"
  have ok: "maps_ok s" and disj: "\<And>h. hm_get (st_refresh s) h = None \<or> hm_get (st_spent s) h = None"
    using sim by (simp_all add: sim_def)
  have refresh: "hm_get (st_refresh s') h = (case hm_get (st_refresh s) h of
      Some r \<Rightarrow> if rr_family r \<noteq> f then Some r else None | None \<Rightarrow> None)" for h
    using ok by (simp add: revoke_familyD [OF revoke] maps_ok_def hm_laws split: option.split)
  have held: "held s' = (\<lambda>h. case held s h of Some en \<Rightarrow> if ?P en then Some en else None | None \<Rightarrow> None)"
  proof
    fix h
    show "held s' h = (case held s h of Some en \<Rightarrow> if ?P en then Some en else None | None \<Rightarrow> None)"
      using disj [of h] by (auto simp: held_def refresh revoke_familyD(2) [OF revoke] split: option.split)
  qed
  have "ld_tokens (end_login f (t + ttl) L) =
      (\<lambda>h. case ld_tokens L h of Some en \<Rightarrow> if ?P en then Some en else None | None \<Rightarrow> None)"
    by (auto simp: end_login_def split: option.split entry.split)
  then have "forgets t entry_expires (held s') (ld_tokens (end_login f (t + ttl) L))"
    using sim forgets_filter [of t entry_expires "held s" "ld_tokens L" ?P] unfolding held by (simp add: sim_def)
  moreover have "forgets t id (hm_get (st_revoked s')) (ld_revoked (end_login f (t + ttl) L))"
    using sim ok by (simp add: sim_def revoke_familyD [OF revoke] maps_ok_def hm_laws end_login_def forgets_upd)
  moreover have "maps_ok s'" using ok revoke by (rule maps_ok_revoke)
  moreover have "hm_get (st_refresh s') h = None \<or> hm_get (st_spent s') h = None" for h
    using disj [of h] by (auto simp: refresh revoke_familyD(2) [OF revoke])
  ultimately show ?thesis
    using sim by (auto simp: sim_def refresh revoke_familyD(2) [OF revoke] split: option.splits if_splits)
qed

section \<open>Every operation is a step of the ledger\<close>

abbreviation service_step ::
  "ext \<Rightarrow> token_service \<Rightarrow> env \<Rightarrow> ledger \<Rightarrow> token_request \<Rightarrow> token_answer \<Rightarrow> ledger \<Rightarrow> bool" where
  "service_step x svc e \<equiv> ledger_step x (ts_access_ttl svc) (ts_refresh_ttl svc) (env_now e)"

lemma new_record_live_until:
  "new_record svc e f u d = live_until f u (env_now e + ts_refresh_ttl svc) d"
  by (simp add: new_record_def live_until_def)

lemma live_until_sel [simp]:
  "rr_family (live_until f u t d) = f" "rr_user (live_until f u t d) = u"
  "rr_expires (live_until f u t d) = min t d" "rr_family_deadline (live_until f u t d) = d"
  by (simp_all add: live_until_def)

lemma map_le_None: "m \<subseteq>\<^sub>m m' \<Longrightarrow> m' k = None \<Longrightarrow> m k = None"
  by (cases "m k") (auto dest: map_leD)

lemma unused_thinned: "unused x e s \<Longrightarrow> thinned t s s' \<Longrightarrow> unused x e s'"
  unfolding unused_def thinned_def by (auto intro: map_le_None)

lemma sim_held: "sim t s L \<Longrightarrow> hm_get (st_refresh s) h = Some r \<Longrightarrow> ld_tokens L h = Some (Live r)"
  "sim t s L \<Longrightarrow> hm_get (st_spent s) h = Some sp \<Longrightarrow> ld_tokens L h = Some (Spent sp)"
  "sim t s L \<Longrightarrow> hm_get (st_refresh s) h = None \<Longrightarrow> hm_get (st_spent s) h = None \<Longrightarrow>
     ld_tokens L h = Some en \<Longrightarrow> entry_expires en \<le> t"
proof -
  assume sim: "sim t s L"
  then have fg: "forgets t entry_expires (held s) (ld_tokens L)" by (simp add: sim_def)
  show "ld_tokens L h = Some (Live r)" if "hm_get (st_refresh s) h = Some r"
    using that by (intro forgets_get(1) [OF fg]) (simp add: held_def)
  show "ld_tokens L h = Some (Spent sp)" if "hm_get (st_spent s) h = Some sp"
  proof -
    have "hm_get (st_refresh s) h = None" using sim that unfolding sim_def by (metis option.distinct(1))
    with that show ?thesis by (intro forgets_get(1) [OF fg]) (simp add: held_def)
  qed
  show "entry_expires en \<le> t" if "hm_get (st_refresh s) h = None" "hm_get (st_spent s) h = None" "ld_tokens L h = Some en"
    using that forgets_get(2) [OF fg that(3)] by (auto simp: held_def intro: leI)
qed

lemma login_body_sim:
  assumes sim: "sim (env_now e) s L" and new: "unused x e s" and body: "login_body x svc e f u s = Ret (r, s')"
  shows "\<exists>L'. service_step x svc e L (AskLogin u) (case r of Inl err \<Rightarrow> Denied err | Inr it \<Rightarrow> Tokens u it) L' \<and>
    sim (env_now e) s' L'"
proof -
  obtain q s1 where room: "make_room (env_imax e) (env_now e) s = Ret (q, s1)"
    using body by (cases "make_room (env_imax e) (env_now e) s") (auto simp: login_body_def)
  have thin: "thinned (env_now e) s s1" using sim room by (auto simp: sim_def intro: thinned_make_room)
  have sim1: "sim (env_now e) s1 L" using sim thin by (rule sim_thinned)
  have new1: "unused x e s1" using new thin by (rule unused_thinned)
  show ?thesis
  proof (cases q)
    case (Inl err)
    with room have "err = Full" by (auto simp: make_room_def split: if_splits option.splits)
    with Inl body room sim1 show ?thesis by (auto simp: login_body_def intro!: exI conjI login_full)
  next
    case (Inr a)
    with body room have issue: "issue x svc e s1 f u (env_now e) (env_now e + MAX_FAMILY_LIFETIME) = Ret (r, s')"
      by (auto simp: login_body_def Let_def split: option.splits)
    then show ?thesis
    proof (cases rule: issue_cases)
      case random
      with sim1 show ?thesis by (auto intro!: exI conjI login_random)
    next
      case (issued token)
      then have "hm_get (st_spent s1) (hash_token x token) = None" using new1 by (simp add: unused_def)
      with sim1 issued show ?thesis
        by (auto intro!: exI conjI login_opens [where f = f] sim_add simp: new_record_live_until)
    qed
  qed
qed

lemma consume_sim:
  assumes sim: "sim (env_now e) s L" and new: "unused x e s"
    and body: "consume x svc e (hash_token x token) ue s = Ret (r, s')"
  shows "\<exists>L'. service_step x svc e L (AskRefresh token ue)
      (case r of Inl err \<Rightarrow> Denied err | Inr (u, it) \<Rightarrow> Tokens u it) L' \<and> sim (env_now e) s' L'"
proof (cases "hm_get (st_refresh s) (hash_token x token)")
  case None
  show ?thesis
  proof (cases "hm_get (st_spent s) (hash_token x token)")
    case unknown: None
    have "ledger_step x (ts_access_ttl svc) (ts_refresh_ttl svc) (env_now e) L
        (AskRefresh token ue) (Denied Invalid) L"
      using sim_held(3) [OF sim None unknown] by (blast intro: refresh_unknown)
    with body None unknown sim show ?thesis by (auto simp: consume_def)
  next
    case (Some sp)
    note entry = sim_held(2) [OF sim Some]
    show ?thesis
    proof (cases "env_now e < sp_expires sp")
      case True
      with body None Some obtain revoke: "revoke_family (env_imax e) (sp_family sp) (env_now e) (ts_access_ttl svc) s = Some s'"
        and r: "r = Inl (Reused (sp_user sp))" by (auto simp: consume_def split: option.splits)
      from sim_end [OF sim revoke] refresh_reused [OF entry True, of "ts_access_ttl svc" "ts_refresh_ttl svc" ue] show ?thesis by (auto simp: r)
    next
      case False
      with entry have "service_step x svc e L (AskRefresh token ue) (Denied Invalid) L"
        by (intro refresh_unknown) simp
      with body None Some False sim show ?thesis by (auto simp: consume_def)
    qed
  qed
next
  case (Some rec)
  note entry = sim_held(1) [OF sim Some]
  have bound: "rr_expires rec \<le> rr_family_deadline rec" using sim Some by (simp add: sim_def)
  consider (expired) "rr_expires rec \<le> env_now e" | (stranger) "env_now e < rr_expires rec" "\<not> ue (rr_user rec)"
    | (good) "env_now e < rr_expires rec" "ue (rr_user rec)" by linarith
  then show ?thesis
  proof cases
    case expired
    with entry have "service_step x svc e L (AskRefresh token ue) (Denied Invalid) L"
      by (intro refresh_unknown) simp
    with body Some expired sim_drop_expired [OF sim Some expired] show ?thesis
      by (auto simp: consume_def Let_def)
  next
    case stranger
    from refresh_stranger [OF entry stranger(1), of ue "ts_access_ttl svc" "ts_refresh_ttl svc"] body Some stranger sim_drop [OF sim Some] show ?thesis
      by (auto simp: consume_def Let_def)
  next
    case good
    let ?s = "retire (hash_token x token) rec s"
    from good bound body Some obtain r1 where
      issue: "issue x svc e ?s (rr_family rec) (rr_user rec) (env_now e) (rr_family_deadline rec) = Ret (r1, s')"
      and r: "r = map_sum id (\<lambda>it. (rr_user rec, it)) r1"
      by (auto simp: consume_def retire_def Let_def split: outcome.splits sum.splits prod.splits)
    note sim1 = sim_retire [OF sim Some]
    from issue show ?thesis
    proof (cases rule: issue_cases)
      case random
      with sim1 refresh_random [OF entry good(1), of ue "ts_access_ttl svc" "ts_refresh_ttl svc"] good(2) show ?thesis by (auto simp: r)
    next
      case (issued token')
      then have "hm_get (st_spent ?s) (hash_token x token') = None"
        using new sim Some by (auto simp: unused_def sim_def store_simps)
      from sim_add [OF sim1 this, of "new_record svc e (rr_family rec) (rr_user rec) (rr_family_deadline rec)"] issued good
      show ?thesis by (auto simp: r new_record_live_until intro!: exI conjI refresh_rotates [OF entry])
    qed
  qed
qed

lemma refresh_body_sim:
  assumes sim: "sim (env_now e) s L" and new: "unused x e s"
    and body: "refresh_body x svc e token ue s = Ret (r, s')"
  shows "\<exists>L'. service_step x svc e L (AskRefresh token ue)
      (case r of Inl err \<Rightarrow> Denied err | Inr (u, it) \<Rightarrow> Tokens u it) L' \<and> sim (env_now e) s' L'"
proof -
  obtain q s1 where prep: "prepare e s = Ret (q, s1)"
    using body by (cases "prepare e s") (auto simp: refresh_body_prepare)
  have thin: "thinned (env_now e) s s1" using sim prep by (auto simp: sim_def intro: thinned_prepare)
  have sim1: "sim (env_now e) s1 L" using sim thin by (rule sim_thinned)
  have new1: "unused x e s1" using new thin by (rule unused_thinned)
  show ?thesis
  proof (cases q)
    case (Inl err)
    with prep have "err = Full" by (auto simp: prepare_def make_room_def split: if_splits option.splits)
    with Inl body prep sim1 show ?thesis by (auto simp: refresh_body_prepare intro!: exI conjI refresh_full)
  next
    case (Inr a)
    with body prep have "consume x svc e (hash_token x token) ue s1 = Ret (r, s')" by (simp add: refresh_body_prepare)
    with sim1 new1 show ?thesis by (rule consume_sim)
  qed
qed

lemma revoke_body_sim:
  assumes sim: "sim (env_now e) s L" and body: "revoke_body x svc e token s = Ret (known, s')"
  shows "\<exists>L'. service_step x svc e L (AskRevoke token) (Ended known) L' \<and> sim (env_now e) s' L'"
proof (cases "known_family (hash_token x token) s")
  case None
  then have unknown: "hm_get (st_refresh s) (hash_token x token) = None" "hm_get (st_spent s) (hash_token x token) = None"
    by (simp_all add: known_family_def split: option.splits)
  have "service_step x svc e L (AskRevoke token) (Ended False) L"
    using sim_held(3) [OF sim unknown] by (blast intro: revoke_unknown)
  with None body sim show ?thesis by (auto simp: revoke_body_def)
next
  case (Some f)
  then obtain en where "ld_tokens L (hash_token x token) = Some en" "entry_family en = f"
    using sim_held(1,2) [OF sim] by (auto simp: known_family_def split: option.splits)
  with revoke_known [of L x token en] have
    "service_step x svc e L (AskRevoke token) (Ended True) (end_login f (env_now e + ts_access_ttl svc) L)" by auto
  moreover from Some body have "revoke_family (env_imax e) f (env_now e) (ts_access_ttl svc) s = Some s'" "known"
    by (auto simp: revoke_body_def split: option.splits)
  ultimately show ?thesis using sim_end [OF sim] by auto
qed

lemma perform_sim:
  assumes sim: "sim (env_now e) (ts_state svc) L" and new: "unused x e (ts_state svc)"
    and perform: "perform x e q svc = (Ret a, svc')"
  shows "\<exists>L'. service_step x svc e L q a L' \<and> sim (env_now e) (ts_state svc') L'"
proof (cases q)
  case (AskLogin u)
  with perform obtain r where login: "login x e u svc = (Ret r, svc')"
    and a: "a = (case r of Inl err \<Rightarrow> Denied err | Inr it \<Rightarrow> Tokens u it)"
    by (auto split: prod.splits outcome.splits sum.splits)
  show ?thesis
  proof (cases "random_family (env_family e)")
    case None
    with login have "r = Inl Random" "svc' = svc" by (simp_all add: login_def)
    with a sim AskLogin show ?thesis by (auto intro!: exI conjI login_random)
  next
    case (Some f)
    with login have "with_state svc (login_body x svc e f u) = (Ret r, svc')" by (simp add: login_def)
    then show ?thesis
      using login_body_sim [OF sim new] AskLogin a by (cases rule: with_state_cases) auto
  qed
next
  case (AskRefresh token ue)
  with perform obtain r where "with_state svc (refresh_body x svc e token ue) = (Ret r, svc')"
    and a: "a = (case r of Inl err \<Rightarrow> Denied err | Inr (u, it) \<Rightarrow> Tokens u it)"
    by (auto simp: refresh_def split: prod.splits outcome.splits sum.splits)
  then show ?thesis
    using refresh_body_sim [OF sim new] AskRefresh by (cases rule: with_state_cases) auto
next
  case (AskRevoke token)
  with perform obtain known where "with_state svc (revoke_body x svc e token) = (Ret known, svc')"
    and a: "a = Ended known"
    by (auto simp: revoke_def split: prod.splits outcome.splits)
  then show ?thesis
    using revoke_body_sim [OF sim] AskRevoke by (cases rule: with_state_cases) auto
qed

lemma perform_frame:
  "ts_access_ttl (snd (perform x e q svc)) = ts_access_ttl svc"
  "ts_refresh_ttl (snd (perform x e q svc)) = ts_refresh_ttl svc"
  by (cases q; auto split: prod.split outcome.split sum.split; metis ops_frame snd_conv)+

fun implements :: "duration \<Rightarrow> duration \<Rightarrow> token_service \<times> instant \<Rightarrow> ledger \<Rightarrow> bool" where
  "implements access_ttl refresh_ttl (svc, t) L \<longleftrightarrow>
     ts_access_ttl svc = access_ttl \<and> ts_refresh_ttl svc = refresh_ttl \<and> sim t (ts_state svc) L"

interpretation ledger: simulation "service_next x" "ledger_next x access_ttl refresh_ttl" "implements access_ttl refresh_ttl"
  for x access_ttl refresh_ttl
proof (unfold_locales, erule service_nextE)
  fix c L l c' t e svc q a svc'
  assume impl: "implements access_ttl refresh_ttl c L" and c: "c = (svc, t)" "l = (env_now e, q, a)" "c' = (svc', env_now e)"
    and step: "t \<le> env_now e" "unused x e (ts_state svc)" "perform x e q svc = (Ret a, svc')"
  from impl c step(1) have "sim (env_now e) (ts_state svc) L" by (auto intro: sim_later)
  with perform_sim [OF _ step(2,3)] obtain L' where
    "service_step x svc e L q a L'" "sim (env_now e) (ts_state svc') L'" by blast
  moreover have "ts_access_ttl svc' = ts_access_ttl svc" "ts_refresh_ttl svc' = ts_refresh_ttl svc"
    using perform_frame [of x e q svc] step(3) by simp_all
  ultimately show "\<exists>L'. ledger_next x access_ttl refresh_ttl L l L' \<and> implements access_ttl refresh_ttl c' L'"
    using impl c by auto
qed

section \<open>What the ledger leaves open\<close>

inductive_cases ask_loginE: "ledger_step x access_ttl refresh_ttl now L (AskLogin u) a L'"
inductive_cases ask_refreshE: "ledger_step x access_ttl refresh_ttl now L (AskRefresh token ue) a L'"
inductive_cases ask_revokeE: "ledger_step x access_ttl refresh_ttl now L (AskRevoke token) a L'"

text \<open>The same answer, but for the tokens that are freshly drawn: they go to the same user and last as long.\<close>

fun same_answer :: "token_answer \<Rightarrow> token_answer \<Rightarrow> bool" where
  "same_answer (Tokens u it) (Tokens v it') \<longleftrightarrow> u = v \<and> it_access_expires_in it = it_access_expires_in it' \<and>
     it_refresh_expires_in it = it_refresh_expires_in it'"
| "same_answer a b \<longleftrightarrow> a = b"

fun hands_out :: "token_answer \<Rightarrow> bool" where
  "hands_out (Tokens _ _) = True"
| "hands_out _ = False"

text \<open>A logout with a token that has expired already: a store that has swept since does not know it any more.\<close>

fun late_logout :: "ext \<Rightarrow> instant \<Rightarrow> ledger \<Rightarrow> token_request \<Rightarrow> bool" where
  "late_logout x now L (AskRevoke token) \<longleftrightarrow> (\<exists>en. ld_tokens L (hash_token x token) = Some en \<and> entry_expires en \<le> now)"
| "late_logout x now L _ \<longleftrightarrow> False"

text \<open>What the ledger says to a refresh, from the entry of the token.\<close>

lemma ask_refresh_decided:
  assumes "ledger_step x access_ttl refresh_ttl now L (AskRefresh token ue) a L'" and "a \<notin> {Denied Full, Denied Random}"
  shows "case ld_tokens L (hash_token x token) of
      None \<Rightarrow> a = Denied Invalid \<and> L' = L
    | Some en \<Rightarrow>
        if entry_expires en \<le> now then a = Denied Invalid \<and> L' = L
        else case en of
            Spent sp \<Rightarrow> a = Denied (Reused (sp_user sp)) \<and> L' = end_login (sp_family sp) (now + access_ttl) L
          | Live r \<Rightarrow>
              if ue (rr_user r)
              then \<exists>it. a = Tokens (rr_user r) it \<and> it_access_expires_in it = as_secs access_ttl \<and>
                it_refresh_expires_in it = as_secs (min (now + refresh_ttl) (rr_family_deadline r) - now)
              else a = Denied Invalid \<and> L' = strike (hash_token x token) L"
  using assms(1)
  by (rule ask_refreshE) (use assms(2) in \<open>auto simp: live_until_def split: option.split entry.split\<close>)

lemma ledger_decides:
  assumes "ledger_step x access_ttl refresh_ttl now L q a L'" and "ledger_step x access_ttl refresh_ttl now L q b L''"
    and "{a, b} \<inter> {Denied Full, Denied Random} = {}" and "\<not> late_logout x now L q"
  shows "same_answer a b \<and> (hands_out a \<or> L' = L'')"
proof (cases q)
  case (AskLogin u)
  note b = assms(2) [unfolded AskLogin]
  from assms(1) [unfolded AskLogin] show ?thesis
    by (cases rule: ask_loginE) (use b assms(3) in \<open>auto elim!: ask_loginE simp: live_until_def\<close>)
next
  case (AskRefresh token ue)
  have "a \<notin> {Denied Full, Denied Random}" "b \<notin> {Denied Full, Denied Random}" using assms(3) by auto
  from ask_refresh_decided [OF assms(1) [unfolded AskRefresh] this(1)] ask_refresh_decided [OF assms(2) [unfolded AskRefresh] this(2)]
  show ?thesis by (auto split: option.splits entry.splits if_splits)
next
  case (AskRevoke token)
  note b = assms(2) [unfolded AskRevoke]
  from assms(1) [unfolded AskRevoke] show ?thesis
    by (cases rule: ask_revokeE) (use b assms(4) AskRevoke in \<open>auto elim!: ask_revokeE\<close>)
qed

text \<open>
  (C13) The token service refines the ledger. Take any sequence of logins, refreshes and logouts on a new
  service, at non-decreasing times, that the service answers, where the generator never draws a token the
  store knows. Then the same requests with the same answers are a run of the ledger, which never forgets a
  token by itself. And the ledger leaves hardly anything open: two answers to the same request at the same time are
  the same, up to the tokens that are freshly drawn, and leave the same ledger where no token is handed out, unless
  one of them is the refusal for lack of room or of random bytes, or the request is a logout with a token that has
  expired already. So that the store sweeps and is bounded shows in the answers in these two ways only: in \<open>Full\<close>, and
  in whether a late logout still knows its token.
\<close>

theorem token_service_refines_ledger:
  assumes "TokenService_new secret access_ttl refresh_ttl imax t0 = Ret svc0"
    and "runs (service_next x) (svc0, t0) trace (svc, t)"
  shows "(\<exists>L. runs (ledger_next x access_ttl refresh_ttl) empty_ledger trace L \<and> sim t (ts_state svc) L) \<and>
    (\<forall>now L q a b L' L''.
       ledger_step x access_ttl refresh_ttl now L q a L' \<and> ledger_step x access_ttl refresh_ttl now L q b L'' \<and>
       {a, b} \<inter> {Denied Full, Denied Random} = {} \<and> \<not> late_logout x now L q \<longrightarrow>
       same_answer a b \<and> (hands_out a \<or> L' = L''))"
proof (rule conjI)
  have "implements access_ttl refresh_ttl (svc0, t0) empty_ledger"
    using assms(1)
    by (auto simp: TokenService_new_def sim_def maps_ok_def empty_ledger_def held_def hm_get_def forgets_def map_le_def
        split: option.splits)
  from ledger.traces [OF assms(2) this]
  show "\<exists>L. runs (ledger_next x access_ttl refresh_ttl) empty_ledger trace L \<and> sim t (ts_state svc) L" by auto
qed (intro allI impI, elim conjE, rule ledger_decides)

text \<open>
  A login at second one, its refresh token used at second ten and again at second twenty, which the ledger
  and the service both answer with \<open>Reused\<close>.
\<close>

lemma demo_unused:
  "unused demo_ext (demo_env 1 5) (ts_state demo_service)" "unused demo_ext (demo_env 10 6) (ts_state demo_login)"
  "unused demo_ext (demo_env 20 7) (ts_state demo_refreshed)"
  by (simp_all add: unused_def demo_simps demo_refreshed_def evals char_of_eq_iff)

lemma demo_reused:
  "demo_refresh 20 7 demo_refreshed = (Ret (Inl (Reused ''bob'')), snd (demo_refresh 20 7 demo_refreshed))"
  by (rule prod_eqI) (simp_all add: demo_simps demo_refreshed_def evals char_of_eq_iff)

theorem token_service_refines_ledger_witness:
  "\<exists>L. runs (ledger_next demo_ext (from_secs 600) (from_secs 3600)) empty_ledger
     [(from_secs 1, AskLogin ''bob'', Tokens ''bob'' demo_issued),
      (from_secs 10, AskRefresh ''af'' (\<lambda>_. True), Tokens ''bob'' demo_rotated),
      (from_secs 20, AskRefresh ''af'' (\<lambda>_. True), Denied (Reused ''bob''))] L"
proof -
  have now: "env_now (demo_env secs b) = from_secs secs" for secs b by (simp add: demo_env_def)
  have later: "0 \<le> from_secs 1" "from_secs 1 \<le> from_secs 10" "from_secs 10 \<le> from_secs 20"
    by (simp_all add: from_secs_def)
  obtain dead where dead: "demo_refresh 20 7 demo_refreshed = (Ret (Inl (Reused ''bob'')), dead)"
    using demo_reused by blast
  have "service_next demo_ext (demo_service, 0) (from_secs 1, AskLogin ''bob'', Tokens ''bob'' demo_issued) (demo_login, from_secs 1)"
    using service_next [OF _ demo_unused(1), of 0 "AskLogin ''bob''" "Tokens ''bob'' demo_issued" demo_login]
    by (simp add: now demo_login_result del: One_nat_def)
  moreover have "service_next demo_ext (demo_login, from_secs 1)
      (from_secs 10, AskRefresh ''af'' (\<lambda>_. True), Tokens ''bob'' demo_rotated) (demo_refreshed, from_secs 10)"
    using service_next [OF _ demo_unused(2), of "from_secs 1" "AskRefresh ''af'' (\<lambda>_. True)"
        "Tokens ''bob'' demo_rotated" demo_refreshed] later
    by (simp add: now demo_refresh_result)
  moreover have "service_next demo_ext (demo_refreshed, from_secs 10)
      (from_secs 20, AskRefresh ''af'' (\<lambda>_. True), Denied (Reused ''bob'')) (dead, from_secs 20)"
    using service_next [OF _ demo_unused(3), of "from_secs 10" "AskRefresh ''af'' (\<lambda>_. True)"
        "Denied (Reused ''bob'')" dead] later
    by (simp add: now dead)
  ultimately have "runs (service_next demo_ext) (demo_service, 0)
      ((([] @ [(from_secs 1, AskLogin ''bob'', Tokens ''bob'' demo_issued)]) @
       [(from_secs 10, AskRefresh ''af'' (\<lambda>_. True), Tokens ''bob'' demo_rotated)]) @
       [(from_secs 20, AskRefresh ''af'' (\<lambda>_. True), Denied (Reused ''bob''))]) (dead, from_secs 20)"
    by (intro runs_snoc) (rule runs_nil)
  from token_service_refines_ledger [OF demo_service_new this] show ?thesis by auto
qed

end
