(* ===== verification/UnitTests.thy ===== *)
theory UnitTests
  imports Args HttpProbe
begin

text \<open>
  The unit tests of \<open>src/target.rs\<close>, \<open>src/client_addr.rs\<close>, \<open>src/http_probe.rs\<close> and \<open>src/args.rs\<close> on the
  model: each test function is a \<open>bool\<close> under the test's name, each assertion a conjunct, and \<open>unwrap\<close> an equation
  with \<open>Inr\<close>, \<open>Some\<close> or \<open>Ret\<close>. What \<open>httparse\<close>, \<open>clap\<close> and \<open>toml\<close> read from a test's input is written out as
  the value they hand over. The lemmas say that the tests pass: evidence, beside the theorems, that the definitions
  are the functions of the sources.
\<close>

section \<open>src/target.rs\<close>

definition parse_target_from_path :: bool where
  "parse_target_from_path \<longleftrightarrow>
     parse_target ''/tcp:116.63.8.64:12345'' = Inr \<lparr>t_protocol = Tcp, t_host = ''116.63.8.64'', t_port = 12345\<rparr>"

definition parse_udp_target_from_path :: bool where
  "parse_udp_target_from_path \<longleftrightarrow>
     (case parse_target ''/udp:116.63.8.64:12345'' of
        Inl _ \<Rightarrow> False
      | Inr target \<Rightarrow> target = \<lparr>t_protocol = Udp, t_host = ''116.63.8.64'', t_port = 12345\<rparr> \<and>
          addr target = ''116.63.8.64:12345'')"

definition parse_target_from_addr :: bool where
  "parse_target_from_addr \<longleftrightarrow>
     (case parse_target_addr ''ocs.wangguofang.net:8443'' of
        Inl _ \<Rightarrow> False
      | Inr target \<Rightarrow> t_host target = ''ocs.wangguofang.net'' \<and> t_port target = 8443 \<and>
          addr target = ''ocs.wangguofang.net:8443'')"

definition parse_bracketed_ipv6_target_from_path :: bool where
  "parse_bracketed_ipv6_target_from_path \<longleftrightarrow>
     (case parse_target ''/tcp:[2001:db8::1]:443'' of
        Inl _ \<Rightarrow> False
      | Inr target \<Rightarrow> t_host target = ''[2001:db8::1]'' \<and> t_port target = 443 \<and> addr target = ''[2001:db8::1]:443'')"

definition parse_bracketed_ipv6_udp_target_from_path :: bool where
  "parse_bracketed_ipv6_udp_target_from_path \<longleftrightarrow>
     (case parse_target ''/udp:[2001:db8::1]:443'' of
        Inl _ \<Rightarrow> False
      | Inr target \<Rightarrow> t_protocol target = Udp \<and> addr target = ''[2001:db8::1]:443'')"

definition rejects_invalid_path :: bool where
  "rejects_invalid_path \<longleftrightarrow>
     list_all (\<lambda>path. isl (parse_target path))
       [''/http:116.63.8.64:12345'', ''/tcp:116.63.8.64'', ''/tcp::12345'', ''/tcp:2001:db8::1:443'', ''/tcp:[]:443'',
        ''/tcp:[2001:db8::1]443'', ''/tcp:116.63.8.64:not-a-port'', ''/udp:116.63.8.64'', ''/udp::12345'']"

lemma target_tests_pass:
  parse_target_from_path parse_udp_target_from_path parse_target_from_addr parse_bracketed_ipv6_target_from_path
  parse_bracketed_ipv6_udp_target_from_path rejects_invalid_path
  by code_simp+

section \<open>src/client_addr.rs\<close>

definition ip_range_of_test :: "string \<Rightarrow> ip_range option" where
  "ip_range_of_test input = (case IpRange_from_str input of Inl _ \<Rightarrow> None | Inr r \<Rightarrow> Some r)"

text \<open>\<open>range(input).contains(ip(address))\<close>; \<open>None\<close> when one of them does not parse.\<close>

definition in_range :: "string \<Rightarrow> string \<Rightarrow> bool option" where
  "in_range input address =
     (case (ip_range_of_test input, parse_ip_addr address) of
        (Some r, Some ip) \<Rightarrow> Some (IpRange_contains r ip)
      | _ \<Rightarrow> None)"

definition proxies_of_test :: "string list \<Rightarrow> trusted_proxies option" where
  "proxies_of_test inputs =
     (case collect_results (map IpRange_from_str inputs) of Inl _ \<Rightarrow> None | Inr rs \<Rightarrow> Some (TrustedProxies_new rs))"

text \<open>The head of a request with one host header and \<open>headers\<close>, as \<open>httparse\<close> reads it.\<close>

definition head_of_test :: "(string \<times> string) list \<Rightarrow> parsed_head option" where
  "head_of_test headers = Some \<lparr>ph_method = Some ''GET'', ph_path = Some ''/'',
     ph_headers = map (\<lambda>(name, v). (name, as_bytes v)) ((''Host'', ''x'') # headers)\<rparr>"

text \<open>\<open>trusted.client_addr(peer, head).to_string()\<close>.\<close>

definition reported :: "string list \<Rightarrow> string \<Rightarrow> parsed_head option \<Rightarrow> string option" where
  "reported trusted peer parsed =
     (case (proxies_of_test trusted, parse_socket_addr peer) of
        (Some tp, Some peer) \<Rightarrow> Some (ClientAddr_display (client_addr_of (\<lambda>_ _. parsed) tp peer []))
      | _ \<Rightarrow> None)"

definition parses_addresses_and_cidr_ranges :: bool where
  "parses_addresses_and_cidr_ranges \<longleftrightarrow>
     in_range ''10.0.0.0/8'' ''10.255.0.1'' = Some True \<and> in_range ''10.0.0.0/8'' ''11.0.0.1'' = Some False \<and>
     in_range ''192.0.2.7'' ''192.0.2.7'' = Some True \<and> in_range ''192.0.2.7'' ''192.0.2.8'' = Some False \<and>
     in_range ''10.1.2.3/8'' ''10.9.9.9'' = Some True \<and> in_range ''0.0.0.0/0'' ''203.0.113.9'' = Some True \<and>
     in_range ''2001:db8::/32'' ''2001:db8:1::1'' = Some True \<and> in_range ''2001:db8::/32'' ''2001:db9::1'' = Some False \<and>
     in_range ''::1/128'' ''::1'' = Some True \<and> in_range ''10.0.0.0/8'' ''2001:db8::1'' = Some False"

definition ipv4_peers_of_a_dual_stack_listener_match_ipv4_ranges :: bool where
  "ipv4_peers_of_a_dual_stack_listener_match_ipv4_ranges \<longleftrightarrow>
     in_range ''127.0.0.0/8'' ''::ffff:127.0.0.1'' = Some True \<and>
     in_range ''10.0.0.0/8'' ''::ffff:10.1.2.3'' = Some True \<and> in_range ''10.0.0.0/8'' ''::ffff:11.1.2.3'' = Some False"

definition rejects_bad_ranges :: bool where
  "rejects_bad_ranges \<longleftrightarrow>
     list_all (\<lambda>bad. isl (IpRange_from_str bad))
       ['''', ''nope'', ''10.0.0.0/33'', ''::1/129'', ''10.0.0.0/'', ''10.0.0.0/x'', ''::ffff:10.0.0.1'']"

definition displays_ranges_and_lists :: bool where
  "displays_ranges_and_lists \<longleftrightarrow>
     map_option IpRange_display (ip_range_of_test ''10.0.0.0/8'') = Some ''10.0.0.0/8'' \<and>
     map_option IpRange_display (ip_range_of_test ''2001:db8::1'') = Some ''2001:db8::1/128'' \<and>
     map_option TrustedProxies_display (proxies_of_test []) = Some ''none'' \<and>
     (case IpRange_loopback of
        Panic \<Rightarrow> False | Ret rs \<Rightarrow> TrustedProxies_display (TrustedProxies_new rs) = ''127.0.0.0/8, ::1/128'')"

definition reads_the_client_behind_a_trusted_proxy :: bool where
  "reads_the_client_behind_a_trusted_proxy \<longleftrightarrow>
     reported [''127.0.0.0/8''] ''127.0.0.1:5555'' (head_of_test [(''X-Forwarded-For'', ''203.0.113.7'')]) =
       Some ''203.0.113.7''"

definition ignores_the_header_from_anyone_else :: bool where
  "ignores_the_header_from_anyone_else \<longleftrightarrow>
     reported [''127.0.0.0/8''] ''198.51.100.4:5555'' (head_of_test [(''X-Forwarded-For'', ''203.0.113.7'')]) =
       Some ''198.51.100.4:5555'' \<and>
     reported [] ''127.0.0.1:5555'' (head_of_test [(''X-Forwarded-For'', ''203.0.113.7'')]) = Some ''127.0.0.1:5555''"

definition without_the_header_the_peer_is_reported :: bool where
  "without_the_header_the_peer_is_reported \<longleftrightarrow>
     reported [''127.0.0.0/8''] ''127.0.0.1:5555'' (head_of_test []) = Some ''127.0.0.1:5555'' \<and>
     reported [''127.0.0.0/8''] ''127.0.0.1:5555'' None = Some ''127.0.0.1:5555''"

definition a_client_cannot_forge_the_address_by_prepending_entries :: bool where
  "a_client_cannot_forge_the_address_by_prepending_entries \<longleftrightarrow>
     reported [''127.0.0.0/8''] ''127.0.0.1:5555'' (head_of_test [(''X-Forwarded-For'', ''10.0.0.1, 203.0.113.7'')]) =
       Some ''203.0.113.7''"

definition skips_the_trusted_proxies_in_a_chain :: bool where
  "skips_the_trusted_proxies_in_a_chain \<longleftrightarrow>
     reported [''127.0.0.0/8'', ''10.0.0.0/8''] ''127.0.0.1:5555''
       (head_of_test [(''X-Forwarded-For'', ''203.0.113.7, 10.0.0.5'')]) = Some ''203.0.113.7''"

definition uses_the_leftmost_entry_when_every_entry_is_a_trusted_proxy :: bool where
  "uses_the_leftmost_entry_when_every_entry_is_a_trusted_proxy \<longleftrightarrow>
     (case proxies_of_test [''127.0.0.0/8'', ''10.0.0.0/8''] of
        None \<Rightarrow> False
      | Some trusted \<Rightarrow> select_client trusted [''10.0.0.9'', ''10.0.0.5'', ''127.0.0.2''] = parse_ip_addr ''10.0.0.9'')"

definition several_header_lines_are_one_list :: bool where
  "several_header_lines_are_one_list \<longleftrightarrow>
     reported [''127.0.0.0/8''] ''127.0.0.1:5555''
       (head_of_test [(''x-forwarded-for'', ''10.0.0.1''), (''X-FORWARDED-FOR'', ''203.0.113.7'')]) = Some ''203.0.113.7''"

definition an_entry_that_is_not_an_address_makes_the_header_unusable :: bool where
  "an_entry_that_is_not_an_address_makes_the_header_unusable \<longleftrightarrow>
     (case proxies_of_test [''127.0.0.0/8''] of
        None \<Rightarrow> False
      | Some trusted \<Rightarrow>
          select_client trusted [''203.0.113.7'', ''unknown''] = None \<and> select_client trusted [''unknown''] = None \<and>
          select_client trusted [''garbage'', ''203.0.113.7''] = parse_ip_addr ''203.0.113.7'' \<and>
          select_client trusted [] = None)"

definition understands_ports_brackets_and_mapped_addresses :: bool where
  "understands_ports_brackets_and_mapped_addresses \<longleftrightarrow>
     parse_forwarded_address ''203.0.113.7'' = Some (V4 0xCB007107) \<and>
     parse_forwarded_address ''203.0.113.7:4711'' = Some (V4 0xCB007107) \<and>
     parse_forwarded_address ''2001:db8::1'' = Some (V6 0x20010DB8000000000000000000000001) \<and>
     parse_forwarded_address ''[2001:db8::1]'' = Some (V6 0x20010DB8000000000000000000000001) \<and>
     parse_forwarded_address ''[2001:db8::1]:443'' = Some (V6 0x20010DB8000000000000000000000001) \<and>
     parse_forwarded_address ''::ffff:203.0.113.7'' = Some (V4 0xCB007107) \<and>
     parse_forwarded_address ''_hidden'' = None \<and> parse_forwarded_address ''203.0.113.7, 1.1.1.1'' = None"

definition a_dual_stack_proxy_peer_is_recognised :: bool where
  "a_dual_stack_proxy_peer_is_recognised \<longleftrightarrow>
     reported [''127.0.0.0/8''] ''[::ffff:127.0.0.1]:5555'' (head_of_test [(''X-Forwarded-For'', ''203.0.113.7'')]) =
       Some ''203.0.113.7''"

definition a_direct_client_is_displayed_as_before :: bool where
  "a_direct_client_is_displayed_as_before \<longleftrightarrow>
     map_option ClientAddr_display (ClientAddr_from_str ''192.0.2.1:40000'') = Some ''192.0.2.1:40000''"


text \<open>An IPv6 range is decided on the leading bits, which evaluates faster than its mask.\<close>

lemma v6_range_of_test:
  assumes "ip_range_of_test input = Some \<lparr>r_addr = V6 network, r_prefix = p\<rparr>" and "unat p \<le> 128"
    and "map_option to_canonical (parse_ip_addr address) = Some (V6 ip)"
  shows "in_range input address = Some (drop_bit (128 - unat p) network = drop_bit (128 - unat p) ip)"
  using assms masked_range_eq [of p network ip] by (auto simp: in_range_def IpRange_contains_def Let_def)

lemma v6_tests:
  "in_range ''2001:db8::/32'' ''2001:db8:1::1'' = Some True" "in_range ''2001:db8::/32'' ''2001:db9::1'' = Some False"
proof -
  have r: "ip_range_of_test ''2001:db8::/32'' = Some \<lparr>r_addr = V6 0x20010DB8000000000000000000000000, r_prefix = 32\<rparr>"
    by code_simp
  have "map_option to_canonical (parse_ip_addr ''2001:db8:1::1'') = Some (V6 0x20010DB8000100000000000000000001)"
    "map_option to_canonical (parse_ip_addr ''2001:db9::1'') = Some (V6 0x20010DB9000000000000000000000001)"
    by code_simp+
  then show "in_range ''2001:db8::/32'' ''2001:db8:1::1'' = Some True" "in_range ''2001:db8::/32'' ''2001:db9::1'' = Some False"
    by (simp_all add: v6_range_of_test [OF r])
qed

lemma parses_addresses_and_cidr_ranges_passes: parses_addresses_and_cidr_ranges
  unfolding parses_addresses_and_cidr_ranges_def by (intro conjI v6_tests; code_simp)

lemma rejects_bad_ranges_passes: rejects_bad_ranges
  unfolding rejects_bad_ranges_def list.pred_inject by (intro conjI TrueI; code_simp)

lemma understands_ports_brackets_and_mapped_addresses_passes: understands_ports_brackets_and_mapped_addresses
  unfolding understands_ports_brackets_and_mapped_addresses_def by (intro conjI; code_simp)

lemma ipv4_peers_of_a_dual_stack_listener_match_ipv4_ranges_passes: ipv4_peers_of_a_dual_stack_listener_match_ipv4_ranges
  unfolding ipv4_peers_of_a_dual_stack_listener_match_ipv4_ranges_def by (intro conjI; code_simp)

lemma displays_ranges_and_lists_passes: displays_ranges_and_lists
  unfolding displays_ranges_and_lists_def by (intro conjI; code_simp)

lemma reads_the_client_behind_a_trusted_proxy_passes: reads_the_client_behind_a_trusted_proxy
  unfolding reads_the_client_behind_a_trusted_proxy_def by code_simp

lemma ignores_the_header_from_anyone_else_passes: ignores_the_header_from_anyone_else
  unfolding ignores_the_header_from_anyone_else_def by (intro conjI; code_simp)

lemma without_the_header_the_peer_is_reported_passes: without_the_header_the_peer_is_reported
  unfolding without_the_header_the_peer_is_reported_def by (intro conjI; code_simp)

lemma a_client_cannot_forge_the_address_by_prepending_entries_passes: a_client_cannot_forge_the_address_by_prepending_entries
  unfolding a_client_cannot_forge_the_address_by_prepending_entries_def by code_simp

lemma skips_the_trusted_proxies_in_a_chain_passes: skips_the_trusted_proxies_in_a_chain
  unfolding skips_the_trusted_proxies_in_a_chain_def by code_simp

lemma uses_the_leftmost_entry_when_every_entry_is_a_trusted_proxy_passes: uses_the_leftmost_entry_when_every_entry_is_a_trusted_proxy
  unfolding uses_the_leftmost_entry_when_every_entry_is_a_trusted_proxy_def by code_simp

lemma several_header_lines_are_one_list_passes: several_header_lines_are_one_list
  unfolding several_header_lines_are_one_list_def by code_simp

lemma an_entry_that_is_not_an_address_makes_the_header_unusable_passes: an_entry_that_is_not_an_address_makes_the_header_unusable
  unfolding an_entry_that_is_not_an_address_makes_the_header_unusable_def by code_simp

lemma a_dual_stack_proxy_peer_is_recognised_passes: a_dual_stack_proxy_peer_is_recognised
  unfolding a_dual_stack_proxy_peer_is_recognised_def by code_simp

lemma a_direct_client_is_displayed_as_before_passes: a_direct_client_is_displayed_as_before
  unfolding a_direct_client_is_displayed_as_before_def by code_simp

section \<open>src/http_probe.rs\<close>

text \<open>\<open>parse_plain_request\<close> on the head that \<open>httparse\<close> reads as this method, target and headers.\<close>

definition plain :: "string \<Rightarrow> string \<Rightarrow> (string \<times> string) list \<Rightarrow> request option" where
  "plain meth target headers = parse_plain_request demo_ext
     (\<lambda>_ _. Some \<lparr>ph_method = Some meth, ph_path = Some target,
        ph_headers = map (\<lambda>(name, v). (name, as_bytes v)) ((''Host'', ''x'') # headers)\<rparr>) demo_http []"

definition detects_plain_root_request :: bool where
  "detects_plain_root_request \<longleftrightarrow>
     (case plain ''GET'' ''/'' [(''User-Agent'', ''probe/1.0'')] of
        None \<Rightarrow> False
      | Some request \<Rightarrow> rq_method request = ''GET'' \<and> rq_header request ''user-agent'' = Some (as_bytes ''probe/1.0'')) \<and>
     plain ''HEAD'' ''/?x=1'' [] \<noteq> None"

definition detects_token_endpoint_requests_of_any_method :: bool where
  "detects_token_endpoint_requests_of_any_method \<longleftrightarrow>
     list_all (\<lambda>meth. case plain meth ''/auth/token'' [] of
        None \<Rightarrow> False | Some request \<Rightarrow> rq_method request = meth \<and> rq_path request = ''/auth/token'')
       [''POST'', ''GET'', ''DELETE''] \<and>
     plain ''GET'' ''/auth/x'' [(''Upgrade'', ''websocket''), (''Connection'', ''Upgrade'')] = None"

definition leaves_other_requests_to_the_websocket_handshake :: bool where
  "leaves_other_requests_to_the_websocket_handshake \<longleftrightarrow>
     plain ''GET'' ''/'' [(''Upgrade'', ''WebSocket''), (''Connection'', ''Upgrade'')] = None \<and>
     plain ''GET'' ''/tcp:h:1'' [] = None \<and> plain ''POST'' ''/'' [] = None \<and> plain ''POST'' ''/author'' [] = None \<and>
     parse_plain_request demo_ext (\<lambda>_ _. None) demo_http [] = None"

text \<open>\<open>read_to_string\<close> on the replaying stream: reads until one is empty.\<close>

definition replay_stream_yields_prefix_then_inner :: bool where
  "replay_stream_yields_prefix_then_inner \<longleftrightarrow>
     fst (read_seq (replay_read chunked_read) [32, 32, 32]
       (ReplayStream_new (as_bytes ''hello '') \<lparr>ch_chunks = [as_bytes ''world''], ch_fails = False\<rparr>)) =
     Inr (as_bytes ''hello world'')"

lemma http_probe_tests_pass:
  detects_plain_root_request detects_token_endpoint_requests_of_any_method
  leaves_other_requests_to_the_websocket_handshake replay_stream_yields_prefix_then_inner
  by code_simp+

end
