(* ===== verification/TokenTests.thy ===== *)
theory TokenTests
  imports TokenThms
begin

text \<open>
  The unit tests of \<open>src/token.rs\<close> on the model, in the same way as \<open>UnitTests\<close>. The libraries are an instance of
  their laws in which base64 is right on the two credentials of the tests and decodes only what it encodes; each call
  gets a random byte of its own. The test of the length of a token is left out, it is about base64.
\<close>

section \<open>The libraries\<close>

definition base64_pairs :: "(bytes \<times> string) list" where
  "base64_pairs = [(as_bytes ''alice:secret'', ''YWxpY2U6c2VjcmV0''), (as_bytes ''alice:wrong'', ''YWxpY2U6d3Jvbmc='')]"

definition lib_ext :: ext where
  "lib_ext = demo_ext\<lparr>
     b64_std_encode := \<lambda>bs. (case map_of base64_pairs bs of Some e \<Rightarrow> e | None \<Rightarrow> nibbles bs),
     b64_std_decode := \<lambda>e. (case map_of (map (\<lambda>(bs, e). (e, bs)) base64_pairs) e of Some bs \<Rightarrow> Some bs | None \<Rightarrow> un_nibbles e),
     b64_url_decode := \<lambda>e. Option.bind (un_nibbles e) (\<lambda>bs. if nibbles bs = e then Some bs else None)\<rparr>"

lemma nibbles_neq_base64: "nibbles bs \<noteq> CHR ''Y'' # e"
proof (cases bs)
  case (Cons b bs')
  have "unat b div 16 < 16" using unsigned_less [of b, where 'a = nat] by simp
  then have "of_char (char_of (97 + unat b div 16) :: char) = 97 + unat b div 16" by simp
  moreover have "of_char (CHR ''Y'') = (89 :: nat)" by simp
  ultimately have "char_of (97 + unat b div 16) \<noteq> CHR ''Y''" by fastforce
  with Cons show ?thesis by simp
qed simp

lemma lib_ext_ok: "ext_ok lib_ext"
proof -
  have "b64_std_decode lib_ext (b64_std_encode lib_ext bs) = Some bs" for bs
    by (simp add: lib_ext_def base64_pairs_def nibbles_neq_base64 un_nibbles_nibbles)
  moreover have "b64_url_decode lib_ext (b64_url_encode lib_ext bs) = Some bs" for bs
    by (simp add: lib_ext_def demo_ext_def un_nibbles_nibbles)
  ultimately show ?thesis using demo_ext_ok by (simp add: ext_ok_def lib_ext_def)
qed

section \<open>The tests\<close>

definition test_secret :: bytes where
  "test_secret = as_bytes ''0123456789abcdef0123456789abcdef''"

definition other_secret :: bytes where
  "other_secret = as_bytes ''another-secret-another-secret-00''"

definition service :: "nat \<Rightarrow> nat \<Rightarrow> token_service option" where
  "service access_ttl refresh_ttl =
     (case TokenService_new test_secret (from_secs access_ttl) (from_secs refresh_ttl)
             (from_secs 100000000) 0 of
        Ret tokens \<Rightarrow> Some tokens
      | Panic \<Rightarrow> None)"

definition everyone :: "string \<Rightarrow> bool" where
  "everyone user = True"

text \<open>A service after one login of \<open>user\<close>, and what the login issued.\<close>

definition logged_in :: "nat \<Rightarrow> nat \<Rightarrow> string \<Rightarrow> (issued_tokens \<times> token_service) option" where
  "logged_in access_ttl refresh_ttl user =
     (case map_option (login lib_ext (demo_env 0 1) user) (service access_ttl refresh_ttl) of
        Some (Ret (Inr issued), tokens) \<Rightarrow> Some (issued, tokens)
      | _ \<Rightarrow> None)"

definition verified :: "string \<Rightarrow> token_service \<Rightarrow> string option outcome" where
  "verified token tokens = verify_access lib_ext (env_unix (demo_env 0 0)) token tokens"

definition login_issues_a_verifiable_access_token :: bool where
  "login_issues_a_verifiable_access_token \<longleftrightarrow>
     (case logged_in 600 3600 ''alice'' of
        None \<Rightarrow> False
      | Some (issued, tokens) \<Rightarrow> it_access_expires_in issued = 600 \<and> it_refresh_expires_in issued = 3600 \<and>
          verified (it_access_token issued) tokens = Ret (Some ''alice''))"

definition round_trips :: "string \<Rightarrow> bool" where
  "round_trips user \<longleftrightarrow>
     (case logged_in 600 3600 user of
        None \<Rightarrow> False
      | Some (issued, tokens) \<Rightarrow> verified (it_access_token issued) tokens = Ret (Some user))"

text \<open>The bytes of the two Chinese characters of the test.\<close>

definition yonghu :: string where
  "yonghu = [CHR 0xE7, CHR 0x94, CHR 0xA8, CHR 0xE6, CHR 0x88, CHR 0xB7]"

definition user_names_with_dots_and_unicode_survive_the_round_trip :: bool where
  "user_names_with_dots_and_unicode_survive_the_round_trip \<longleftrightarrow>
     round_trips ''a.b.c'' \<and> round_trips yonghu \<and> round_trips ''with space''"

text \<open>A token with one character of its payload flipped; \<open>None\<close> when there is no such character.\<close>

definition tampered :: "string \<Rightarrow> string option" where
  "tampered token =
     (case split_once ''.'' token of
        None \<Rightarrow> None
      | Some (payload, tag) \<Rightarrow>
          if length payload \<le> 10 then None
          else Some (payload[10 := if payload ! 10 = CHR ''A'' then CHR ''B'' else CHR ''A''] @ ''.'' @ tag))"

definition rejects_tampered_foreign_and_malformed_access_tokens :: bool where
  "rejects_tampered_foreign_and_malformed_access_tokens \<longleftrightarrow>
     (case logged_in 600 3600 ''alice'' of
        None \<Rightarrow> False
      | Some (issued, tokens) \<Rightarrow>
          (case tampered (it_access_token issued) of
             None \<Rightarrow> False
           | Some forged \<Rightarrow> verified forged tokens = Ret None) \<and>
          (case TokenService_new other_secret (from_secs 600) (from_secs 3600)
                  (from_secs 100000000) 0 of
             Ret other \<Rightarrow> verified (it_access_token issued) other = Ret None
           | Panic \<Rightarrow> False) \<and>
          verified (it_refresh_token issued) tokens = Ret None \<and> verified [] tokens = Ret None \<and>
          verified ''.'' tokens = Ret None \<and> verified ''a.b'' tokens = Ret None \<and>
          verified ''not a token'' tokens = Ret None)"

definition expired_access_tokens_are_rejected :: bool where
  "expired_access_tokens_are_rejected \<longleftrightarrow>
     (case logged_in 0 3600 ''alice'' of
        None \<Rightarrow> False
      | Some (issued, tokens) \<Rightarrow> verified (it_access_token issued) tokens = Ret None)"

definition refresh_rotates_the_refresh_token :: bool where
  "refresh_rotates_the_refresh_token \<longleftrightarrow>
     (case logged_in 600 3600 ''alice'' of
        None \<Rightarrow> False
      | Some (first, tokens) \<Rightarrow>
          (case refresh lib_ext (demo_env 0 2) (it_refresh_token first) everyone tokens of
             (Ret (Inr (user, second)), tokens) \<Rightarrow>
               user = ''alice'' \<and> it_refresh_token second \<noteq> it_refresh_token first \<and>
               verified (it_access_token second) tokens = Ret (Some ''alice'') \<and>
               (case refresh lib_ext (demo_env 0 3) (it_refresh_token second) everyone tokens of
                  (Ret (Inr _), _) \<Rightarrow> True
                | _ \<Rightarrow> False)
           | _ \<Rightarrow> False))"

definition reusing_a_rotated_refresh_token_revokes_the_whole_family :: bool where
  "reusing_a_rotated_refresh_token_revokes_the_whole_family \<longleftrightarrow>
     (case logged_in 600 3600 ''alice'' of
        None \<Rightarrow> False
      | Some (first, tokens) \<Rightarrow>
          (case refresh lib_ext (demo_env 0 2) (it_refresh_token first) everyone tokens of
             (Ret (Inr (user, second)), tokens) \<Rightarrow>
               (case refresh lib_ext (demo_env 0 3) (it_refresh_token first) everyone tokens of
                  (Ret (Inl err), tokens) \<Rightarrow>
                    err = Reused ''alice'' \<and>
                    fst (refresh lib_ext (demo_env 0 4) (it_refresh_token second) everyone tokens) = Ret (Inl Invalid) \<and>
                    verified (it_access_token second) tokens = Ret None \<and>
                    verified (it_access_token first) tokens = Ret None
                | _ \<Rightarrow> False)
           | _ \<Rightarrow> False))"

definition families_are_independent :: bool where
  "families_are_independent \<longleftrightarrow>
     (case logged_in 600 3600 ''alice'' of
        None \<Rightarrow> False
      | Some (laptop, tokens) \<Rightarrow>
          (case login lib_ext (demo_env 0 2) ''alice'' tokens of
             (Ret (Inr phone), tokens) \<Rightarrow>
               (case revoke lib_ext (demo_env 0 3) (it_refresh_token laptop) tokens of
                  (Ret revoked, tokens) \<Rightarrow>
                    revoked \<and> verified (it_access_token laptop) tokens = Ret None \<and>
                    verified (it_access_token phone) tokens = Ret (Some ''alice'') \<and>
                    (case refresh lib_ext (demo_env 0 4) (it_refresh_token phone) everyone tokens of
                       (Ret (Inr _), _) \<Rightarrow> True
                     | _ \<Rightarrow> False)
                | _ \<Rightarrow> False)
           | _ \<Rightarrow> False))"

definition revoke_kills_refresh_and_access_tokens :: bool where
  "revoke_kills_refresh_and_access_tokens \<longleftrightarrow>
     (case logged_in 600 3600 ''alice'' of
        None \<Rightarrow> False
      | Some (issued, tokens) \<Rightarrow>
          (case revoke lib_ext (demo_env 0 2) (it_refresh_token issued) tokens of
             (Ret revoked, tokens) \<Rightarrow>
               revoked \<and>
               (case refresh lib_ext (demo_env 0 3) (it_refresh_token issued) everyone tokens of
                  (Ret (Inl err), tokens) \<Rightarrow>
                    err = Invalid \<and> verified (it_access_token issued) tokens = Ret None \<and>
                    fst (revoke lib_ext (demo_env 0 4) ''never-issued'' tokens) = Ret False
                | _ \<Rightarrow> False)
           | _ \<Rightarrow> False))"

definition expired_refresh_tokens_are_rejected :: bool where
  "expired_refresh_tokens_are_rejected \<longleftrightarrow>
     (case logged_in 600 0 ''alice'' of
        None \<Rightarrow> False
      | Some (issued, tokens) \<Rightarrow>
          fst (refresh lib_ext (demo_env 0 2) (it_refresh_token issued) everyone tokens) = Ret (Inl Invalid))"

definition refresh_fails_for_a_removed_user :: bool where
  "refresh_fails_for_a_removed_user \<longleftrightarrow>
     (case logged_in 600 3600 ''alice'' of
        None \<Rightarrow> False
      | Some (issued, tokens) \<Rightarrow>
          fst (refresh lib_ext (demo_env 0 2) (it_refresh_token issued) (\<lambda>user. user \<noteq> ''alice'') tokens) =
            Ret (Inl Invalid))"

definition refresh_rejects_unknown_tokens_and_access_tokens :: bool where
  "refresh_rejects_unknown_tokens_and_access_tokens \<longleftrightarrow>
     (case logged_in 600 3600 ''alice'' of
        None \<Rightarrow> False
      | Some (issued, tokens) \<Rightarrow>
          (case refresh lib_ext (demo_env 0 2) ''never-issued'' everyone tokens of
             (Ret (Inl err), tokens) \<Rightarrow>
               err = Invalid \<and>
               fst (refresh lib_ext (demo_env 0 3) (it_access_token issued) everyone tokens) = Ret (Inl Invalid)
           | _ \<Rightarrow> False))"

definition refresh_tokens_are_stored_hashed :: bool where
  "refresh_tokens_are_stored_hashed \<longleftrightarrow>
     (case logged_in 600 3600 ''alice'' of
        None \<Rightarrow> False
      | Some (issued, tokens) \<Rightarrow>
          hm_get (st_refresh (ts_state tokens)) (hash_token lib_ext ''x'') = None \<and>
          hm_get (st_refresh (ts_state tokens)) (hash_token lib_ext (it_refresh_token issued)) \<noteq> None)"

definition secret_file_must_be_long_enough :: bool where
  "secret_file_must_be_long_enough \<longleftrightarrow>
     isl (load_secret (Some (as_bytes (''short'' @ [CHR 0x0A])))) \<and>
     (case load_secret (Some (as_bytes (''0123456789abcdef0123456789abcdef'' @ [CHR 0x0A]))) of
        Inl _ \<Rightarrow> False
      | Inr secret \<Rightarrow> length secret = 32)"

section \<open>The tests pass\<close>

text \<open>Access tokens stay folded while a test is evaluated: what is verified is what was minted.\<close>

lemma verified_mint:
  assumes "utf8_ok (as_bytes user)" and "ts_key svc' = ts_key svc" and "\<not> ts_poisoned svc'"
  shows "verified (mint_access lib_ext svc unix f user) svc' =
    Ret (if unix + of_nat (as_secs (ts_access_ttl svc)) \<le> 1700000000 \<or> hm_get (st_revoked (ts_state svc')) f \<noteq> None
      then None else Some user)"
  using assms by (simp add: verified_def verify_access_def decode_mint [OF lib_ext_ok assms(2,1)] demo_env_def)

lemma verified_no_dot: "CHR ''.'' \<notin> set token \<Longrightarrow> verified token svc = Ret None"
  by (cases "split_once ''.'' token") (auto simp: verified_def verify_access_def decode_access_def dest: split_once_Some)

lemma secrets: "length other_secret = length test_secret" "other_secret \<noteq> test_secret" "test_secret \<noteq> []"
  by (simp_all add: other_secret_def test_secret_def as_bytes_def)

text \<open>A token does not verify under another key of the same length, and neither does an empty or a broken one.\<close>

lemma split_mint:
  fixes svc unix f user
  defines "p \<equiv> access_payload f (unix + of_nat (as_secs (ts_access_ttl svc))) user"
  shows "split_once ''.'' (mint_access lib_ext svc unix f user) =
      Some (b64_url_encode lib_ext p, b64_url_encode lib_ext (hmac_sign lib_ext (ts_key svc) p))"
  using lib_ext_ok by (simp add: mint_access_def Let_def split_once_char_notin p_def)

lemma verified_foreign:
  assumes "length (ts_key svc') = length (ts_key svc)" and "ts_key svc' \<noteq> ts_key svc"
  shows "verified (mint_access lib_ext svc unix f user) svc' = Ret None"
proof -
  define p where "p = access_payload f (unix + of_nat (as_secs (ts_access_ttl svc))) user"
  have "split_once ''.'' (mint_access lib_ext svc unix f user) =
      Some (b64_url_encode lib_ext p, b64_url_encode lib_ext (hmac_sign lib_ext (ts_key svc) p))"
    by (simp add: split_mint p_def)
  with assms show ?thesis
    using lib_ext_ok by (auto simp: verified_def verify_access_def decode_access_def ext_ok_def lib_ext_def demo_ext_def)
qed

lemma length_nibbles: "length (nibbles bs) = 2 * length bs"
  by (induction bs) auto

text \<open>Neither does a payload under the tag of another one.\<close>

lemma verified_other_payload:
  assumes "q \<noteq> b64_url_encode lib_ext p" and "CHR ''.'' \<notin> set q"
  shows "verified (q @ CHR ''.'' # b64_url_encode lib_ext (hmac_sign lib_ext (ts_key svc) p)) svc = Ret None"
  using assms
  by (auto simp: verified_def verify_access_def decode_access_def split_once_char_notin lib_ext_def demo_ext_def
      un_nibbles_nibbles split: option.splits bind_splits if_splits)

lemma verified_tampered:
  assumes "ts_key svc' = ts_key svc"
  shows "case tampered (mint_access lib_ext svc unix f user) of None \<Rightarrow> False | Some forged \<Rightarrow> verified forged svc' = Ret None"
proof -
  define p where "p = access_payload f (unix + of_nat (as_secs (ts_access_ttl svc))) user"
  define q where "q = b64_url_encode lib_ext p"
  define c where "c = (if q ! 10 = CHR ''A'' then CHR ''B'' else CHR ''A'')"
  have length: "\<not> length q \<le> 10"
    by (simp add: q_def p_def lib_ext_def demo_ext_def length_nibbles access_payload_def)
  then have "q[10 := c] ! 10 = c" and "c \<noteq> q ! 10" by (auto simp: c_def)
  then have "q[10 := c] \<noteq> q" by metis
  moreover have "set (q[10 := c]) \<subseteq> insert c (set q)" by (rule set_update_subset_insert)
  with lib_ext_ok have "CHR ''.'' \<notin> set (q[10 := c])" by (auto simp: c_def q_def split: if_splits)
  ultimately have "verified (q[10 := c] @ CHR ''.'' # b64_url_encode lib_ext (hmac_sign lib_ext (ts_key svc') p)) svc' = Ret None"
    unfolding q_def by (rule verified_other_payload)
  with length assms show ?thesis
    by (simp add: tampered_def split_mint p_def [symmetric] q_def [symmetric] c_def)
qed

lemma verified_broken: "ts_key svc \<noteq> [] \<Longrightarrow> verified ''.'' svc = Ret None" "verified ''a.b'' svc = Ret None"
  by (auto simp: verified_def verify_access_def decode_access_def split_once.simps lib_ext_def demo_ext_def)

lemma alice: "utf8_ok (as_bytes ''alice'')" "utf8_ok (as_bytes ''bob'')" "utf8_ok (as_bytes ''a.b.c'')" "utf8_ok (as_bytes ''with space'')"
  "utf8_ok (as_bytes yonghu)"
  by code_simp+

text \<open>So do the hashes of refresh tokens; the tokens issued here, of one byte each, are told apart by that byte.\<close>

abbreviation issued_token :: "u8 \<Rightarrow> string" where
  "issued_token b \<equiv> b64_url_encode lib_ext [b]"

lemma issued_token_eq: "issued_token b = issued_token c \<longleftrightarrow> b = c"
  using lib_ext_ok unfolding ext_ok_def by (metis option.inject list.inject)

lemma hash_demo: "hash_token lib_ext s = hash_token lib_ext t \<longleftrightarrow> s = t"
  by (simp add: hash_token_def lib_ext_def demo_ext_def as_bytes_inject)

lemma issued_no_dot: "CHR ''.'' \<notin> set (issued_token b)"
  using b64_url_notin [OF lib_ext_ok] by simp

lemma length_issued: "length (issued_token b) = 2"
  by (simp add: lib_ext_def demo_ext_def)

lemma mint_neq_issued: "mint_access lib_ext svc unix f user \<noteq> issued_token b"
proof -
  have "CHR ''.'' \<in> set (mint_access lib_ext svc unix f user)" by (simp add: mint_access_def Let_def)
  with issued_no_dot [of b] show ?thesis by metis
qed

lemma text_neq_issued: "length t \<noteq> 2 \<Longrightarrow> t \<noteq> issued_token b"
  using length_issued [of b] by auto

lemmas folded = mint_access_def decode_access_def verify_access_def hash_token_def

lemmas token_tests = round_trips_def yonghu_def demo_env_def service_def logged_in_def everyone_def verified_mint verified_no_dot verified_foreign verified_tampered verified_broken secrets alice
  hash_demo issued_token_eq issued_no_dot mint_neq_issued mint_neq_issued [symmetric] text_neq_issued
  text_neq_issued [symmetric]

lemma login_issues_a_verifiable_access_token_passes: login_issues_a_verifiable_access_token
  by (simp add: evals token_tests login_issues_a_verifiable_access_token_def del: folded)

lemma user_names_with_dots_and_unicode_survive_the_round_trip_passes: user_names_with_dots_and_unicode_survive_the_round_trip
  by (simp add: evals token_tests user_names_with_dots_and_unicode_survive_the_round_trip_def del: folded)

lemma rejects_tampered_foreign_and_malformed_access_tokens_passes: rejects_tampered_foreign_and_malformed_access_tokens
  by (simp add: evals token_tests rejects_tampered_foreign_and_malformed_access_tokens_def del: folded)

lemma expired_access_tokens_are_rejected_passes: expired_access_tokens_are_rejected
  by (simp add: evals token_tests expired_access_tokens_are_rejected_def del: folded)

lemma refresh_rotates_the_refresh_token_passes: refresh_rotates_the_refresh_token
  by (simp add: evals token_tests refresh_rotates_the_refresh_token_def del: folded)

lemma reusing_a_rotated_refresh_token_revokes_the_whole_family_passes: reusing_a_rotated_refresh_token_revokes_the_whole_family
  by (simp add: evals token_tests reusing_a_rotated_refresh_token_revokes_the_whole_family_def del: folded)

lemma families_are_independent_passes: families_are_independent
  by (simp add: evals token_tests families_are_independent_def del: folded)

lemma revoke_kills_refresh_and_access_tokens_passes: revoke_kills_refresh_and_access_tokens
  by (simp add: evals token_tests revoke_kills_refresh_and_access_tokens_def del: folded)

lemma expired_refresh_tokens_are_rejected_passes: expired_refresh_tokens_are_rejected
  by (simp add: evals token_tests expired_refresh_tokens_are_rejected_def del: folded)

lemma refresh_fails_for_a_removed_user_passes: refresh_fails_for_a_removed_user
  by (simp add: evals token_tests refresh_fails_for_a_removed_user_def del: folded)

lemma refresh_rejects_unknown_tokens_and_access_tokens_passes: refresh_rejects_unknown_tokens_and_access_tokens
  by (simp add: evals token_tests refresh_rejects_unknown_tokens_and_access_tokens_def del: folded)

lemma refresh_tokens_are_stored_hashed_passes: refresh_tokens_are_stored_hashed
  by (simp add: evals token_tests refresh_tokens_are_stored_hashed_def del: folded)

lemma secret_file_must_be_long_enough_passes: secret_file_must_be_long_enough
  by (simp add: evals token_tests secret_file_must_be_long_enough_def del: folded)

end
