(* ===== verification/ConfigTests.thy ===== *)
theory ConfigTests
  imports Auth
begin

text \<open>
  The unit tests of \<open>src/args.rs\<close> and those of \<open>src/auth.rs\<close> without token requests, on the model, in the same way as
  \<open>UnitTests\<close>. A command line is the \<open>cli_args\<close> that \<open>clap\<close> makes of it, a configuration file the
  \<open>config_args\<close> that \<open>toml\<close> makes of it; tests of \<open>clap\<close> itself (an unknown option, options that exclude each
  other, a value that is no range) are left out.
\<close>

section \<open>src/args.rs\<close>

definition no_options :: cli_args where
  "no_options = \<lparr>cl_config = None, cl_bind = None, cl_service_mode = None, cl_port = None, cl_tls_port = None,
     cl_ipv6_only = False, cl_no_ipv6_only = False, cl_buffer_size = None, cl_udp_idle_timeout = None,
     cl_basic_auth = [], cl_basic_auth_file = None, cl_anonymous_target = [], cl_anonymous_target_file = None,
     cl_trusted_proxy = [], cl_token_secret_file = None, cl_access_token_ttl = None, cl_refresh_token_ttl = None,
     cl_tls_cert = None, cl_tls_key = None, cl_auto_self_signed_cert = False, cl_no_auto_self_signed_cert = False,
     cl_log_file = None, cl_log_level = None\<rparr>"

text \<open>The outcome with a configuration file of these values, and without one; \<open>None\<close> when it is refused.\<close>

definition parse_with_config :: "config_args \<Rightarrow> cli_args \<Rightarrow> args option" where
  "parse_with_config config cli =
     (case from_cli (\<lambda>_. Some config) (\<lambda>_. Some []) (cli\<lparr>cl_config := Some ''config.toml''\<rparr>) of
        Ret (Inr a) \<Rightarrow> Some a
      | _ \<Rightarrow> None)"

definition try_parse :: "cli_args \<Rightarrow> args option" where
  "try_parse cli = (case from_cli (\<lambda>_. None) (\<lambda>_. None) cli of Ret (Inr a) \<Rightarrow> Some a | _ \<Rightarrow> None)"

definition uses_defaults_without_config_or_cli_values :: bool where
  "uses_defaults_without_config_or_cli_values \<longleftrightarrow>
     (case try_parse no_options of
        None \<Rightarrow> False
      | Some a \<Rightarrow> ar_bind a = DEFAULT_BIND \<and> ar_service_mode a = WsOnly \<and> ar_port a = DEFAULT_PORT \<and>
          ar_tls_port a = DEFAULT_TLS_PORT \<and> \<not> ar_ipv6_only a \<and> ar_buffer_size a = DEFAULT_BUFFER_SIZE \<and>
          ar_udp_idle_timeout a = DEFAULT_UDP_IDLE_TIMEOUT \<and> ar_basic_auth a = [] \<and> ar_anonymous_target a = [] \<and>
          ar_anonymous_target_file a = None \<and> ar_tls_cert a = None \<and> ar_tls_key a = None \<and>
          \<not> ar_auto_self_signed_cert a)"

definition reads_values_from_config_file :: bool where
  "reads_values_from_config_file \<longleftrightarrow>
     (case parse_with_config (ConfigArgs_default\<lparr>cf_bind := Some ''127.0.0.1'', cf_service_mode := Some WssOnly,
             cf_port := Some 8080, cf_tls_port := Some 8443, cf_ipv6_only := Some True, cf_buffer_size := Some 4096,
             cf_udp_idle_timeout := Some 30, cf_basic_auth := Some [''alice:secret''],
             cf_basic_auth_file := Some ''./users.txt'', cf_anonymous_target := Some [''ocs.wangguofang.net:8443''],
             cf_anonymous_target_file := Some ''./anonymous-targets.txt'', cf_tls_cert := Some ''./cert.pem'',
             cf_tls_key := Some ''./key.pem'', cf_auto_self_signed_cert := Some False,
             cf_log_file := Some ''./router.log'', cf_log_level := Some ''ws2tcp_router=debug''\<rparr>) no_options of
        None \<Rightarrow> False
      | Some a \<Rightarrow> ar_bind a = ''127.0.0.1'' \<and> ar_service_mode a = WssOnly \<and> ar_port a = 8080 \<and>
          ar_tls_port a = 8443 \<and> ar_ipv6_only a \<and> ar_buffer_size a = 4096 \<and> ar_udp_idle_timeout a = 30 \<and>
          ar_basic_auth a = [''alice:secret''] \<and> ar_basic_auth_file a = Some ''./users.txt'' \<and>
          ar_anonymous_target a = [''ocs.wangguofang.net:8443''] \<and>
          ar_anonymous_target_file a = Some ''./anonymous-targets.txt'' \<and> ar_tls_cert a = Some ''./cert.pem'' \<and>
          ar_tls_key a = Some ''./key.pem'' \<and> \<not> ar_auto_self_signed_cert a \<and>
          ar_log_file a = Some ''./router.log'' \<and> ar_log_level a = Some ''ws2tcp_router=debug'')"

definition cli_values_override_config_file_values :: bool where
  "cli_values_override_config_file_values \<longleftrightarrow>
     (case parse_with_config (ConfigArgs_default\<lparr>cf_bind := Some ''127.0.0.1'', cf_port := Some 8001,
             cf_service_mode := Some WsOnly, cf_ipv6_only := Some True, cf_buffer_size := Some 4096,
             cf_udp_idle_timeout := Some 30, cf_basic_auth := Some [''alice:secret''],
             cf_anonymous_target := Some [''config.example:443''],
             cf_anonymous_target_file := Some ''./config-anonymous-targets.txt'',
             cf_tls_cert := Some ''./config-cert.pem'', cf_tls_key := Some ''./config-key.pem''\<rparr>)
           (no_options\<lparr>cl_bind := Some ''0.0.0.0'', cl_service_mode := Some WssOnly, cl_port := Some 9000,
             cl_tls_port := Some 9443, cl_no_ipv6_only := True, cl_buffer_size := Some 8192,
             cl_udp_idle_timeout := Some 120, cl_basic_auth := [''bob:secret''],
             cl_anonymous_target := [''cli.example:443''],
             cl_anonymous_target_file := Some ''./cli-anonymous-targets.txt'',
             cl_tls_cert := Some ''./cli-cert.pem'', cl_tls_key := Some ''./cli-key.pem''\<rparr>) of
        None \<Rightarrow> False
      | Some a \<Rightarrow> ar_bind a = ''0.0.0.0'' \<and> ar_service_mode a = WssOnly \<and> ar_port a = 9000 \<and>
          ar_tls_port a = 9443 \<and> \<not> ar_ipv6_only a \<and> ar_buffer_size a = 8192 \<and> ar_udp_idle_timeout a = 120 \<and>
          ar_basic_auth a = [''bob:secret''] \<and> ar_anonymous_target a = [''cli.example:443''] \<and>
          ar_anonymous_target_file a = Some ''./cli-anonymous-targets.txt'' \<and>
          ar_tls_cert a = Some ''./cli-cert.pem'' \<and> ar_tls_key a = Some ''./cli-key.pem'')"

definition rejects_partial_tls_config_after_merge :: bool where
  "rejects_partial_tls_config_after_merge \<longleftrightarrow>
     parse_with_config (ConfigArgs_default\<lparr>cf_tls_cert := Some ''./cert.pem''\<rparr>) no_options = None"

definition enables_auto_self_signed_cert_from_cli :: bool where
  "enables_auto_self_signed_cert_from_cli \<longleftrightarrow>
     (case try_parse (no_options\<lparr>cl_auto_self_signed_cert := True\<rparr>) of
        None \<Rightarrow> False
      | Some a \<Rightarrow> ar_auto_self_signed_cert a \<and> ar_tls_cert a = None \<and> ar_tls_key a = None)"

definition cli_auto_self_signed_cert_overrides_config_file_tls :: bool where
  "cli_auto_self_signed_cert_overrides_config_file_tls \<longleftrightarrow>
     (case parse_with_config (ConfigArgs_default\<lparr>cf_tls_cert := Some ''./config-cert.pem'',
             cf_tls_key := Some ''./config-key.pem''\<rparr>) (no_options\<lparr>cl_auto_self_signed_cert := True\<rparr>) of
        None \<Rightarrow> False
      | Some a \<Rightarrow> ar_auto_self_signed_cert a \<and> ar_tls_cert a = None \<and> ar_tls_key a = None)"

definition cli_file_tls_overrides_config_auto_self_signed_cert :: bool where
  "cli_file_tls_overrides_config_auto_self_signed_cert \<longleftrightarrow>
     (case parse_with_config (ConfigArgs_default\<lparr>cf_auto_self_signed_cert := Some True\<rparr>)
           (no_options\<lparr>cl_tls_cert := Some ''./cli-cert.pem'', cl_tls_key := Some ''./cli-key.pem''\<rparr>) of
        None \<Rightarrow> False
      | Some a \<Rightarrow> \<not> ar_auto_self_signed_cert a \<and> ar_tls_cert a = Some ''./cli-cert.pem'' \<and>
          ar_tls_key a = Some ''./cli-key.pem'')"

definition cli_no_auto_self_signed_cert_overrides_config_auto_self_signed_cert :: bool where
  "cli_no_auto_self_signed_cert_overrides_config_auto_self_signed_cert \<longleftrightarrow>
     (case parse_with_config (ConfigArgs_default\<lparr>cf_auto_self_signed_cert := Some True\<rparr>)
           (no_options\<lparr>cl_no_auto_self_signed_cert := True\<rparr>) of
        None \<Rightarrow> False
      | Some a \<Rightarrow> \<not> ar_auto_self_signed_cert a \<and> ar_tls_cert a = None \<and> ar_tls_key a = None)"

definition port_sets_ws_port :: bool where
  "port_sets_ws_port \<longleftrightarrow>
     (case try_parse (no_options\<lparr>cl_port := Some 8080\<rparr>) of
        None \<Rightarrow> False
      | Some a \<Rightarrow> ar_port a = 8080 \<and> ar_tls_port a = DEFAULT_TLS_PORT)"

definition rejects_wss_mode_without_tls_config :: bool where
  "rejects_wss_mode_without_tls_config \<longleftrightarrow> try_parse (no_options\<lparr>cl_service_mode := Some WssOnly\<rparr>) = None"

definition accepts_both_mode_with_auto_self_signed_cert :: bool where
  "accepts_both_mode_with_auto_self_signed_cert \<longleftrightarrow>
     (case try_parse (no_options\<lparr>cl_service_mode := Some Both, cl_auto_self_signed_cert := True\<rparr>) of
        None \<Rightarrow> False
      | Some a \<Rightarrow> ar_service_mode a = Both \<and> ar_port a = DEFAULT_PORT \<and> ar_tls_port a = DEFAULT_TLS_PORT)"

definition rejects_both_mode_with_same_ports :: bool where
  "rejects_both_mode_with_same_ports \<longleftrightarrow>
     try_parse (no_options\<lparr>cl_service_mode := Some Both, cl_auto_self_signed_cert := True, cl_port := Some 8443,
       cl_tls_port := Some 8443\<rparr>) = None"

definition token_options_have_defaults :: bool where
  "token_options_have_defaults \<longleftrightarrow>
     (case try_parse no_options of
        None \<Rightarrow> False
      | Some a \<Rightarrow> ar_access_token_ttl a = DEFAULT_ACCESS_TOKEN_TTL \<and>
          ar_refresh_token_ttl a = DEFAULT_REFRESH_TOKEN_TTL \<and> ar_token_secret_file a = None)"

definition parses_token_options :: bool where
  "parses_token_options \<longleftrightarrow>
     (case try_parse (no_options\<lparr>cl_basic_auth := [''alice:secret''], cl_token_secret_file := Some ''./token.key'',
             cl_access_token_ttl := Some 60, cl_refresh_token_ttl := Some 3600\<rparr>) of
        None \<Rightarrow> False
      | Some a \<Rightarrow> ar_token_secret_file a = Some ''./token.key'' \<and> ar_access_token_ttl a = 60 \<and>
          ar_refresh_token_ttl a = 3600)"

definition rejects_zero_token_lifetimes :: bool where
  "rejects_zero_token_lifetimes \<longleftrightarrow>
     try_parse (no_options\<lparr>cl_access_token_ttl := Some 0\<rparr>) = None \<and>
     try_parse (no_options\<lparr>cl_refresh_token_ttl := Some 0\<rparr>) = None"

definition trusts_only_loopback_proxies_by_default :: bool where
  "trusts_only_loopback_proxies_by_default \<longleftrightarrow>
     (case try_parse no_options of None \<Rightarrow> False | Some a \<Rightarrow> IpRange_loopback = Ret (ar_trusted_proxy a))"

definition parses_trusted_proxies_from_the_command_line :: bool where
  "parses_trusted_proxies_from_the_command_line \<longleftrightarrow>
     (case collect_results (map IpRange_from_str [''10.0.0.0/8'', ''2001:db8::1'']) of
        Inl _ \<Rightarrow> False
      | Inr given \<Rightarrow> map_option ar_trusted_proxy (try_parse (no_options\<lparr>cl_trusted_proxy := given\<rparr>)) = Some given)"

definition trusted_proxies_come_from_the_config_file_unless_given_on_the_command_line :: bool where
  "trusted_proxies_come_from_the_config_file_unless_given_on_the_command_line \<longleftrightarrow>
     (case (IpRange_from_str ''172.16.0.0/12'', IpRange_from_str ''192.0.2.1'') of
        (Inr in_file, Inr given) \<Rightarrow>
          (let config = ConfigArgs_default\<lparr>cf_trusted_proxy := Some [in_file]\<rparr>
           in map_option ar_trusted_proxy (parse_with_config config no_options) = Some [in_file] \<and>
              map_option ar_trusted_proxy (parse_with_config config (no_options\<lparr>cl_trusted_proxy := [given]\<rparr>)) =
                Some [given]) \<and>
          map_option ar_trusted_proxy
            (parse_with_config (ConfigArgs_default\<lparr>cf_trusted_proxy := Some []\<rparr>) no_options) = Some [] \<and>
          isl (IpRange_try_from ''nope'') \<and>
          (case from_cli (\<lambda>_. None) (\<lambda>_. Some []) (no_options\<lparr>cl_config := Some ''config.toml''\<rparr>) of
             Ret (Inl _) \<Rightarrow> True
           | _ \<Rightarrow> False)
      | _ \<Rightarrow> False)"

text \<open>The default proxies are evaluated once.\<close>

declare loopback_eval [code]

lemma uses_defaults_without_config_or_cli_values_passes: uses_defaults_without_config_or_cli_values
  unfolding uses_defaults_without_config_or_cli_values_def by code_simp

lemma reads_values_from_config_file_passes: reads_values_from_config_file
  unfolding reads_values_from_config_file_def by code_simp

lemma cli_values_override_config_file_values_passes: cli_values_override_config_file_values
  unfolding cli_values_override_config_file_values_def by code_simp

lemma rejects_partial_tls_config_after_merge_passes: rejects_partial_tls_config_after_merge
  unfolding rejects_partial_tls_config_after_merge_def by code_simp

lemma enables_auto_self_signed_cert_from_cli_passes: enables_auto_self_signed_cert_from_cli
  unfolding enables_auto_self_signed_cert_from_cli_def by code_simp

lemma cli_auto_self_signed_cert_overrides_config_file_tls_passes: cli_auto_self_signed_cert_overrides_config_file_tls
  unfolding cli_auto_self_signed_cert_overrides_config_file_tls_def by code_simp

lemma cli_file_tls_overrides_config_auto_self_signed_cert_passes: cli_file_tls_overrides_config_auto_self_signed_cert
  unfolding cli_file_tls_overrides_config_auto_self_signed_cert_def by code_simp

lemma cli_no_auto_self_signed_cert_overrides_config_auto_self_signed_cert_passes: cli_no_auto_self_signed_cert_overrides_config_auto_self_signed_cert
  unfolding cli_no_auto_self_signed_cert_overrides_config_auto_self_signed_cert_def by code_simp

lemma port_sets_ws_port_passes: port_sets_ws_port
  unfolding port_sets_ws_port_def by code_simp

lemma rejects_wss_mode_without_tls_config_passes: rejects_wss_mode_without_tls_config
  unfolding rejects_wss_mode_without_tls_config_def by code_simp

lemma accepts_both_mode_with_auto_self_signed_cert_passes: accepts_both_mode_with_auto_self_signed_cert
  unfolding accepts_both_mode_with_auto_self_signed_cert_def by code_simp

lemma rejects_both_mode_with_same_ports_passes: rejects_both_mode_with_same_ports
  unfolding rejects_both_mode_with_same_ports_def by code_simp

lemma token_options_have_defaults_passes: token_options_have_defaults
  unfolding token_options_have_defaults_def by code_simp

lemma parses_token_options_passes: parses_token_options
  unfolding parses_token_options_def by code_simp

lemma rejects_zero_token_lifetimes_passes: rejects_zero_token_lifetimes
  unfolding rejects_zero_token_lifetimes_def by code_simp

lemma trusts_only_loopback_proxies_by_default_passes: trusts_only_loopback_proxies_by_default
  unfolding trusts_only_loopback_proxies_by_default_def by code_simp

lemma parses_trusted_proxies_from_the_command_line_passes: parses_trusted_proxies_from_the_command_line
  unfolding parses_trusted_proxies_from_the_command_line_def by code_simp

lemma trusted_proxies_come_from_the_config_file_unless_given_on_the_command_line_passes: trusted_proxies_come_from_the_config_file_unless_given_on_the_command_line
  unfolding trusted_proxies_come_from_the_config_file_unless_given_on_the_command_line_def by code_simp

section \<open>src/auth.rs\<close>

text \<open>The base64 of the texts that occur in the tests; every other text is refused.\<close>

definition base64_table :: "(string \<times> string) list" where
  "base64_table = [(''alice:secret'', ''YWxpY2U6c2VjcmV0''), (''bob:secret2'', ''Ym9iOnNlY3JldDI=''),
     (''bob:secret'', ''Ym9iOnNlY3JldA==''), ('':secret'', ''OnNlY3JldA=='')]"

definition test_ext :: ext where
  "test_ext = demo_ext\<lparr>
     b64_std_encode := \<lambda>bs. (case map_of base64_table (str_of_bytes bs) of None \<Rightarrow> [] | Some e \<Rightarrow> e),
     b64_std_decode := \<lambda>e. map_option as_bytes (map_of (map (\<lambda>(t, e). (e, t)) base64_table) e)\<rparr>"

definition request_with_authorization :: "string option \<Rightarrow> request" where
  "request_with_authorization authorization =
     \<lparr>rq_method = ''GET'', rq_path = ''/tcp:127.0.0.1:80'',
      rq_header = (\<lambda>name. if name = ''authorization'' then map_option as_bytes authorization else None)\<rparr>"

definition default_args :: args where
  "default_args = \<lparr>ar_bind = ''::'', ar_service_mode = WsOnly, ar_port = 80, ar_tls_port = 443,
     ar_ipv6_only = False, ar_buffer_size = 16 * 1024, ar_udp_idle_timeout = 60, ar_basic_auth = [],
     ar_basic_auth_file = None, ar_anonymous_target = [], ar_anonymous_target_file = None,
     ar_trusted_proxy = [], ar_token_secret_file = None, ar_access_token_ttl = 600, ar_refresh_token_ttl = 604800,
     ar_tls_cert = None, ar_tls_key = None, ar_auto_self_signed_cert = False, ar_log_file = None,
     ar_log_level = None\<rparr>"

text \<open>
  \<open>build_auth_config(&args)\<close> with the file system \<open>fs\<close>, random bytes at hand and a clock far from its end:
  \<open>None\<close> when it is an error.
\<close>

definition built :: "filesystem \<Rightarrow> args \<Rightarrow> auth_config option option" where
  "built fs a =
     (case build_auth_config test_ext fs (Some (replicate 32 0)) (10 ^ 30) 0 a of
        Ret (Inr auth) \<Rightarrow> Some auth
      | _ \<Rightarrow> None)"

text \<open>The expected authorizations and the anonymous targets of a test, and nothing else configured.\<close>

definition only_expects :: "string list \<Rightarrow> string list \<Rightarrow> auth_config" where
  "only_expects expected anonymous =
     \<lparr>ac_expected_authorizations = expected, ac_fixed_authorizations = [], ac_basic_auth_file = None,
      ac_anonymous_targets = anonymous, ac_fixed_anonymous_targets = [], ac_anonymous_target_file = None,
      ac_tokens = None\<rparr>"

definition validates_basic_auth_credentials :: bool where
  "validates_basic_auth_credentials \<longleftrightarrow>
     \<not> isl (validate_basic_auth_credential ''alice:secret'') \<and>
     \<not> isl (validate_basic_auth_credential ''alice:sec:ret'') \<and> isl (validate_basic_auth_credential ''alice'') \<and>
     isl (validate_basic_auth_credential '':secret'') \<and> isl (validate_basic_auth_credential ''alice:'')"

definition extracts_basic_auth_username :: bool where
  "extracts_basic_auth_username \<longleftrightarrow>
     basic_auth_username test_ext ''Basic YWxpY2U6c2VjcmV0'' = Some ''alice'' \<and>
     basic_auth_username test_ext ''Bearer token'' = None \<and> basic_auth_username test_ext ''Basic not-base64'' = None \<and>
     basic_auth_username test_ext ''Basic OnNlY3JldA=='' = None"

definition disables_basic_auth_when_no_auth_options_are_set :: bool where
  "disables_basic_auth_when_no_auth_options_are_set \<longleftrightarrow> built (\<lambda>_. None) default_args = Some None"

definition builds_basic_auth_config_from_repeated_credentials :: bool where
  "builds_basic_auth_config_from_repeated_credentials \<longleftrightarrow>
     (case built (\<lambda>_. None) (default_args\<lparr>ar_basic_auth := [''alice:secret'', ''bob:secret2'']\<rparr>) of
        Some (Some auth) \<Rightarrow>
          ac_expected_authorizations auth = [''Basic YWxpY2U6c2VjcmV0'', ''Basic Ym9iOnNlY3JldDI='']
      | _ \<Rightarrow> False)"

definition builds_basic_auth_config_with_anonymous_targets :: bool where
  "builds_basic_auth_config_with_anonymous_targets \<longleftrightarrow>
     (case built (\<lambda>_. None) (default_args\<lparr>ar_basic_auth := [''alice:secret''],
             ar_anonymous_target := [''ocs.wangguofang.net:8443'', ''[2001:db8::1]:443'']\<rparr>) of
        Some (Some auth) \<Rightarrow> ac_anonymous_targets auth = [''ocs.wangguofang.net:8443'', ''[2001:db8::1]:443'']
      | _ \<Rightarrow> False)"

text \<open>A file system that holds these lines under every path.\<close>

definition holding :: "string list \<Rightarrow> filesystem" where
  "holding ls = (\<lambda>_. Some (as_bytes (concat (map (\<lambda>l. l @ [CHR 0x0A]) ls))))"

definition loads_and_reloads_anonymous_target_file :: bool where
  "loads_and_reloads_anonymous_target_file \<longleftrightarrow>
     (case built (holding [''# public targets'', ''file.example:443'', [], ''[2001:db8::1]:8443''])
             (default_args\<lparr>ar_basic_auth := [''alice:secret''], ar_anonymous_target := [''fixed.example:80''],
                ar_anonymous_target_file := Some ''targets.txt''\<rparr>) of
        Some (Some auth) \<Rightarrow>
          ac_anonymous_targets auth = [''fixed.example:80'', ''file.example:443'', ''[2001:db8::1]:8443''] \<and>
          (case reload_anonymous_target_file (holding [''updated.example:9443'']) ''targets.txt'' auth of
             (Inr changed, auth) \<Rightarrow> changed \<and>
               ac_anonymous_targets auth = [''fixed.example:80'', ''updated.example:9443''] \<and>
               (case reload_anonymous_target_file (holding [''invalid'']) ''targets.txt'' auth of
                  (Inl _, auth) \<Rightarrow> ac_anonymous_targets auth = [''fixed.example:80'', ''updated.example:9443'']
                | _ \<Rightarrow> False)
           | _ \<Rightarrow> False)
      | _ \<Rightarrow> False)"

definition rejects_invalid_anonymous_target :: bool where
  "rejects_invalid_anonymous_target \<longleftrightarrow>
     built (\<lambda>_. None) (default_args\<lparr>ar_basic_auth := [''alice:secret''],
       ar_anonymous_target := [''2001:db8::1:443'']\<rparr>) = None"

definition rejects_empty_basic_auth_file_when_auth_is_enabled :: bool where
  "rejects_empty_basic_auth_file_when_auth_is_enabled \<longleftrightarrow>
     built (holding [[], ''# no credentials'']) (default_args\<lparr>ar_basic_auth_file := Some ''users.txt''\<rparr>) = None"

text \<open>\<open>authorize_request\<close> as an \<open>Ok\<close> user or \<open>None\<close>, at the epoch.\<close>

definition authorized :: "request \<Rightarrow> auth_config option \<Rightarrow> string option" where
  "authorized req auth = (case authorize_request test_ext 0 req auth of Ret (Inr user) \<Rightarrow> Some user | _ \<Rightarrow> None)"

definition reloads_basic_auth_file_and_retains_last_valid_credentials :: bool where
  "reloads_basic_auth_file_and_retains_last_valid_credentials \<longleftrightarrow>
     (let alice = request_with_authorization (Some ''Basic YWxpY2U6c2VjcmV0'');
          bob = request_with_authorization (Some ''Basic Ym9iOnNlY3JldDI='')
      in case built (holding [''alice:secret'']) (default_args\<lparr>ar_basic_auth_file := Some ''users.txt''\<rparr>) of
           Some (Some auth) \<Rightarrow>
             authorized alice (Some auth) \<noteq> None \<and>
             (case reload_auth_file test_ext (holding [''bob:secret2'']) ''users.txt'' auth of
                (Inr changed, auth) \<Rightarrow> changed \<and> authorized alice (Some auth) = None \<and>
                  authorized bob (Some auth) \<noteq> None \<and>
                  (case reload_auth_file test_ext (holding [''invalid'']) ''users.txt'' auth of
                     (Inl _, auth) \<Rightarrow> authorized bob (Some auth) \<noteq> None
                   | _ \<Rightarrow> False)
              | _ \<Rightarrow> False)
         | _ \<Rightarrow> False)"

definition allows_request_when_basic_auth_is_disabled :: bool where
  "allows_request_when_basic_auth_is_disabled \<longleftrightarrow>
     authorized (request_with_authorization None) None = Some ANONYMOUS_AUTH_USER"

definition rejects_request_without_basic_auth_header_when_enabled :: bool where
  "rejects_request_without_basic_auth_header_when_enabled \<longleftrightarrow>
     (case authorize_request test_ext 0 (request_with_authorization None)
             (Some (only_expects [''Basic YWxpY2U6c2VjcmV0''] [])) of
        Ret (Inl response) \<Rightarrow> rs_status response = 401 \<and>
          rs_headers response = [HdrAppend ''www-authenticate'' ''Basic realm=\"ws2tcp-router\", charset=\"UTF-8\"'']
      | _ \<Rightarrow> False)"

definition rejects_request_with_invalid_basic_auth_header :: bool where
  "rejects_request_with_invalid_basic_auth_header \<longleftrightarrow>
     authorized (request_with_authorization (Some ''Basic Ym9iOnNlY3JldA==''))
       (Some (only_expects [''Basic YWxpY2U6c2VjcmV0''] [])) = None"

definition allows_request_with_matching_basic_auth_header :: bool where
  "allows_request_with_matching_basic_auth_header \<longleftrightarrow>
     authorized (request_with_authorization (Some ''Basic Ym9iOnNlY3JldDI=''))
       (Some (only_expects [''Basic YWxpY2U6c2VjcmV0'', ''Basic Ym9iOnNlY3JldDI=''] [])) = Some ''bob''"

definition allows_request_without_basic_auth_header_for_anonymous_target :: bool where
  "allows_request_without_basic_auth_header_for_anonymous_target \<longleftrightarrow>
     authorized ((request_with_authorization None)\<lparr>rq_path := ''/tcp:ocs.wangguofang.net:8443''\<rparr>)
       (Some (only_expects [''Basic YWxpY2U6c2VjcmV0''] [''ocs.wangguofang.net:8443''])) = Some ANONYMOUS_AUTH_USER"

definition rejects_request_without_basic_auth_header_for_non_anonymous_target :: bool where
  "rejects_request_without_basic_auth_header_for_non_anonymous_target \<longleftrightarrow>
     authorized ((request_with_authorization None)\<lparr>rq_path := ''/tcp:other.example:8443''\<rparr>)
       (Some (only_expects [''Basic YWxpY2U6c2VjcmV0''] [''ocs.wangguofang.net:8443''])) = None"

definition bearer_scheme_is_case_insensitive_and_needs_a_token :: bool where
  "bearer_scheme_is_case_insensitive_and_needs_a_token \<longleftrightarrow>
     bearer_token ''Bearer abc'' = Some ''abc'' \<and> bearer_token ''bearer abc'' = Some ''abc'' \<and>
     bearer_token ''BEARER  abc '' = Some ''abc'' \<and> bearer_token ''Bearer '' = None \<and>
     bearer_token ''Bearer'' = None \<and> bearer_token ''Basic abc'' = None"

definition token_authentication_is_on_whenever_basic_auth_is_configured :: bool where
  "token_authentication_is_on_whenever_basic_auth_is_configured \<longleftrightarrow>
     (case built (\<lambda>_. None) (default_args\<lparr>ar_basic_auth := [''alice:secret'']\<rparr>) of
        Some (Some auth) \<Rightarrow> ac_tokens auth \<noteq> None
      | _ \<Rightarrow> False) \<and>
     built (\<lambda>_. None) default_args = Some None"

lemma validates_basic_auth_credentials_passes: validates_basic_auth_credentials
  unfolding validates_basic_auth_credentials_def by code_simp

lemma extracts_basic_auth_username_passes: extracts_basic_auth_username
  unfolding extracts_basic_auth_username_def by code_simp

lemma disables_basic_auth_when_no_auth_options_are_set_passes: disables_basic_auth_when_no_auth_options_are_set
  unfolding disables_basic_auth_when_no_auth_options_are_set_def by code_simp

lemma builds_basic_auth_config_from_repeated_credentials_passes: builds_basic_auth_config_from_repeated_credentials
  unfolding builds_basic_auth_config_from_repeated_credentials_def by code_simp

lemma builds_basic_auth_config_with_anonymous_targets_passes: builds_basic_auth_config_with_anonymous_targets
  unfolding builds_basic_auth_config_with_anonymous_targets_def by code_simp

lemma loads_and_reloads_anonymous_target_file_passes: loads_and_reloads_anonymous_target_file
  unfolding loads_and_reloads_anonymous_target_file_def by code_simp

lemma rejects_invalid_anonymous_target_passes: rejects_invalid_anonymous_target
  unfolding rejects_invalid_anonymous_target_def by code_simp

lemma rejects_empty_basic_auth_file_when_auth_is_enabled_passes: rejects_empty_basic_auth_file_when_auth_is_enabled
  unfolding rejects_empty_basic_auth_file_when_auth_is_enabled_def by code_simp

lemma reloads_basic_auth_file_and_retains_last_valid_credentials_passes: reloads_basic_auth_file_and_retains_last_valid_credentials
  unfolding reloads_basic_auth_file_and_retains_last_valid_credentials_def by code_simp

lemma allows_request_when_basic_auth_is_disabled_passes: allows_request_when_basic_auth_is_disabled
  unfolding allows_request_when_basic_auth_is_disabled_def by code_simp

lemma rejects_request_without_basic_auth_header_when_enabled_passes: rejects_request_without_basic_auth_header_when_enabled
  unfolding rejects_request_without_basic_auth_header_when_enabled_def by code_simp

lemma rejects_request_with_invalid_basic_auth_header_passes: rejects_request_with_invalid_basic_auth_header
  unfolding rejects_request_with_invalid_basic_auth_header_def by code_simp

lemma allows_request_with_matching_basic_auth_header_passes: allows_request_with_matching_basic_auth_header
  unfolding allows_request_with_matching_basic_auth_header_def by code_simp

lemma allows_request_without_basic_auth_header_for_anonymous_target_passes: allows_request_without_basic_auth_header_for_anonymous_target
  unfolding allows_request_without_basic_auth_header_for_anonymous_target_def by code_simp

lemma rejects_request_without_basic_auth_header_for_non_anonymous_target_passes: rejects_request_without_basic_auth_header_for_non_anonymous_target
  unfolding rejects_request_without_basic_auth_header_for_non_anonymous_target_def by code_simp

lemma bearer_scheme_is_case_insensitive_and_needs_a_token_passes: bearer_scheme_is_case_insensitive_and_needs_a_token
  unfolding bearer_scheme_is_case_insensitive_and_needs_a_token_def by code_simp

lemma token_authentication_is_on_whenever_basic_auth_is_configured_passes: token_authentication_is_on_whenever_basic_auth_is_configured
  unfolding token_authentication_is_on_whenever_basic_auth_is_configured_def by code_simp

end
