(* ===== verification/ExchangeTests.thy ===== *)
theory ExchangeTests
  imports TokenTests ConfigTests EventLog
begin

text \<open>
  The tests of \<open>src/proxy.rs\<close> that exchange requests with a connection, on the model, with the one test of \<open>src/auth.rs\<close>
  that needs tokens. A request is what the test writes, and \<open>httparse\<close> reads it back as its method, target and
  headers; \<open>http\<close> and the libraries of \<open>TokenTests\<close> are the other parameters. A connection arrives from 127.0.0.1. The
  tests that follow a login through refresh, reuse and logout evaluate the whole way from the bytes of the request
  to the bytes of the answer. A test of a websocket handshake gives the handler the request that its client sent, and
  reads the refusal, the messages of the health check or what the relay has passed on.
\<close>

section \<open>The set-up of the tests\<close>

record raw =
  rw_method :: string
  rw_target :: string
  rw_headers :: "(string \<times> string) list"
  rw_body :: string

definition wire :: "raw \<Rightarrow> bytes" where
  "wire r = as_bytes (rw_method r @ '' '' @ rw_target r @ '' HTTP/1.1'' @ crlf @
     concat (map (\<lambda>(name, v). name @ '': '' @ v @ crlf) (rw_headers r))) @ [13, 10] @ as_bytes (rw_body r)"

definition parser_of :: "raw \<Rightarrow> head_parser" where
  "parser_of r slots head =
     (if head = wire r then Some \<lparr>ph_method = Some (rw_method r), ph_path = Some (rw_target r),
        ph_headers = map (\<lambda>(name, v). (name, as_bytes v)) (rw_headers r)\<rparr> else None)"

definition lib_http :: http_lib where
  "lib_http = demo_http\<lparr>hx_reason := map_of [(200, ''OK''), (204, ''No Content''), (400, ''Bad Request''),
     (401, ''Unauthorized''), (404, ''Not Found''), (405, ''Method Not Allowed''), (503, ''Service Unavailable'')]\<rparr>"

definition loopback_proxies :: trusted_proxies where
  "loopback_proxies = (case IpRange_loopback of Ret rs \<Rightarrow> TrustedProxies_new rs | Panic \<Rightarrow> TrustedProxies_new [])"

definition local_peer :: socket_addr where
  "local_peer = \<lparr>sa_ip = V4 0x7F000001, sa_port = 1, sa_scope = 0\<rparr>"

definition spawn_server_behind ::
  "env \<Rightarrow> raw \<Rightarrow> (chunked replay_stream \<Rightarrow> handshake_result) \<Rightarrow> net \<Rightarrow> auth_config option \<Rightarrow> trusted_proxies
     \<Rightarrow> conn_result outcome \<times> auth_config option" where
  "spawn_server_behind e r handshake nt auth trusted_proxies =
     handle_connection lib_ext e (parser_of r) lib_http handshake nt ''0.2.2''
       \<lparr>lm_buffer_size = 1024, lm_udp_idle_timeout = from_secs 1\<rparr> trusted_proxies chunked_read
       \<lparr>ch_chunks = [wire r], ch_fails = False\<rparr> local_peer auth"

definition spawn_server_with_auth ::
  "env \<Rightarrow> raw \<Rightarrow> (chunked replay_stream \<Rightarrow> handshake_result) \<Rightarrow> net \<Rightarrow> auth_config option
     \<Rightarrow> conn_result outcome \<times> auth_config option" where
  "spawn_server_with_auth e r handshake nt auth = spawn_server_behind e r handshake nt auth loopback_proxies"

text \<open>What the server writes until it closes, when it ends without an error; and the state it leaves.\<close>

definition raw_exchange :: "env \<Rightarrow> raw \<Rightarrow> auth_config option \<Rightarrow> (string \<times> auth_config option) option" where
  "raw_exchange e r auth =
     (case spawn_server_with_auth e r (\<lambda>_. HandshakeBroken) demo_net auth of
        (Ret (Answered response), auth) \<Rightarrow> Some (response, auth)
      | _ \<Rightarrow> None)"

definition contains :: "string \<Rightarrow> string \<Rightarrow> bool" where
  "contains text part \<longleftrightarrow> split_once part text \<noteq> None"

definition line :: "string \<Rightarrow> string" where
  "line text = text @ crlf"

definition starts_with :: "string \<Rightarrow> string \<Rightarrow> bool" where
  "starts_with text status \<longleftrightarrow> prefix (''HTTP/1.1 '' @ status @ crlf) text"

definition ALICE :: string where "ALICE = ''Basic YWxpY2U6c2VjcmV0''"
definition WRONG :: string where "WRONG = ''Basic YWxpY2U6d3Jvbmc=''"

definition with_basic_auth_for_test :: "ext \<Rightarrow> string \<Rightarrow> auth_config" where
  "with_basic_auth_for_test x credential =
     \<lparr>ac_expected_authorizations = [''Basic '' @ b64_std_encode x (as_bytes credential)],
      ac_fixed_authorizations = [], ac_basic_auth_file = None, ac_anonymous_targets = [],
      ac_fixed_anonymous_targets = [], ac_anonymous_target_file = None, ac_tokens = None\<rparr>"

definition with_tokens_for_test :: "ext \<Rightarrow> string \<Rightarrow> token_service \<Rightarrow> auth_config" where
  "with_tokens_for_test x credential tokens = (with_basic_auth_for_test x credential)\<lparr>ac_tokens := Some tokens\<rparr>"

abbreviation alice_with :: "token_service \<Rightarrow> auth_config" where
  "alice_with tokens \<equiv> with_tokens_for_test lib_ext ''alice:secret'' tokens"

definition token_auth :: "auth_config option" where
  "token_auth = map_option (with_tokens_for_test lib_ext ''alice:secret'') (service 600 3600)"

definition post :: "string \<Rightarrow> string option \<Rightarrow> raw" where
  "post path authorization =
     \<lparr>rw_method = ''POST'', rw_target = path,
      rw_headers = (''Host'', ''x'') # (case authorization of None \<Rightarrow> [] | Some v \<Rightarrow> [(''Authorization'', v)]) @
        [(''Content-Length'', ''0'')], rw_body = []\<rparr>"

definition json_field :: "string \<Rightarrow> string \<Rightarrow> string" where
  "json_field response name =
     (case split_once (''\"'' @ name @ ''\":\"'') response of
        None \<Rightarrow> []
      | Some (_, rest) \<Rightarrow> takeWhile (\<lambda>c. c \<noteq> CHR 0x22) rest)"

definition login_exchange :: "env \<Rightarrow> auth_config option \<Rightarrow> (string \<times> string \<times> auth_config option) option" where
  "login_exchange e auth =
     (case raw_exchange e (post ''/auth/token'' (Some ALICE)) auth of
        None \<Rightarrow> None
      | Some (response, auth) \<Rightarrow>
          if starts_with response ''200 OK''
          then Some (json_field response ''access_token'', json_field response ''refresh_token'', auth) else None)"

section \<open>Evaluating an exchange\<close>

lemma wire_complete: "head_complete (wire r)"
proof -
  define bs where "bs = as_bytes (rw_method r @ '' '' @ rw_target r @ '' HTTP/1.1'' @ crlf @
     concat (map (\<lambda>(name, v). name @ '': '' @ v @ crlf) (rw_headers r)))"
  have "\<exists>cs. bs = cs @ [13, 10]"
  proof (cases "rw_headers r" rule: rev_cases)
    case Nil
    then show ?thesis by (simp add: bs_def as_bytes_def)
  next
    case (snoc hs h)
    then show ?thesis by (cases h) (simp add: bs_def as_bytes_def)
  qed
  then obtain cs where "wire r = cs @ [13, 10, 13, 10] @ as_bytes (rw_body r)" by (auto simp: wire_def bs_def)
  then have "take 4 (drop (length cs) (wire r)) = [13, 10, 13, 10]" and "length cs < Suc (length (wire r)) - 4" by simp_all
  then show ?thesis unfolding head_complete_def windows_def list_ex_iff by (auto intro!: image_eqI [of _ _ "length cs"])
qed

lemma wire_nonempty: "wire r \<noteq> []"
  by (simp add: wire_def)

lemma reads_wire:
  assumes "length (wire r) \<le> 2048"
  shows "read_request_head chunked_read \<lparr>ch_chunks = [wire r], ch_fails = False\<rparr> =
    (Inr (wire r), \<lparr>ch_chunks = [[]], ch_fails = False\<rparr>)"
proof -
  have "\<not> head_complete []" by (simp add: head_complete_def windows_def)
  moreover have "chunked_read 2048 \<lparr>ch_chunks = [wire r], ch_fails = False\<rparr> = (Inr (wire r), \<lparr>ch_chunks = [[]], ch_fails = False\<rparr>)"
    using assms wire_nonempty [of r] by (simp add: chunked_read_def)
  ultimately show ?thesis
    using wire_complete [of r] wire_nonempty [of r]
    by (simp add: read_request_head_def read_head_loop.simps [of _ "[]"] read_head_loop.simps [of _ "wire r"]
        MAX_REQUEST_HEAD_def)
qed

text \<open>The request that \<open>http\<close> builds of it.\<close>

definition request_of :: "raw \<Rightarrow> request" where
  "request_of r = \<lparr>rq_method = rw_method r, rq_path = target_path (rw_target r),
     rq_header = (\<lambda>name. map_option as_bytes (map_option snd
       (List.find (\<lambda>(n, v). eq_ignore_ascii_case n name) (rw_headers r))))\<rparr>"

lemma find_as_bytes:
  "List.find (\<lambda>(n, v). P n) (map (\<lambda>(n, v). (n, as_bytes v)) hs) =
     map_option (\<lambda>(n, v). (n, as_bytes v)) (List.find (\<lambda>(n, v). P n) hs)"
  by (induction hs) auto

lemma lib_header [simp]: "header_to_str lib_ext (as_bytes v) = Some v"
  by (simp add: lib_ext_def demo_ext_def)

lemma header_request_of:
  "header_str lib_ext (request_of r) name =
     map_option snd (List.find (\<lambda>(n, v). eq_ignore_ascii_case n name) (rw_headers r))"
  by (auto simp: header_str_def request_of_def split: option.splits)

definition plain_target :: "raw \<Rightarrow> bool" where
  "plain_target r \<longleftrightarrow>
     (let path = target_path (rw_target r)
      in path = ''/'' \<and> (rw_method r = ''GET'' \<or> rw_method r = ''HEAD'') \<or> prefix ''/auth/'' path)"

lemma parse_plain_wire:
  "parse_plain_request lib_ext (parser_of r) lib_http (wire r) =
     (if plain_target r \<and> \<not> is_upgrade lib_ext (request_of r) then Some (request_of r) else None)"
proof -
  have "hx_build lib_http m t (map (\<lambda>(n, v). (n, as_bytes v)) hs) = Some \<lparr>rq_method = m, rq_path = target_path t,
     rq_header = (\<lambda>name. map_option as_bytes (map_option snd
       (List.find (\<lambda>(n, v). eq_ignore_ascii_case n name) hs)))\<rparr>" for m t hs
    by (auto simp: lib_http_def demo_http_def find_as_bytes option.map_comp comp_def split_beta
        intro!: option.map_cong ext)
  then show ?thesis
    by (auto simp: parse_plain_request_def parser_of_def plain_target_def request_of_def strip_prefix_def Let_def
        lib_http_def demo_http_def list_all_iff)
qed

lemma exchange:
  assumes "length (wire r) \<le> 2048" and "plain_target r" and "\<not> is_upgrade lib_ext (request_of r)"
  shows "raw_exchange e r auth =
    (case plain_response lib_ext e ''0.2.2'' (request_of r) auth of
       (Ret response, auth) \<Rightarrow> Some (write_response lib_http response (rw_method r \<noteq> ''HEAD''), auth)
     | (Panic, auth) \<Rightarrow> None)"
  using assms
  by (auto simp: raw_exchange_def spawn_server_with_auth_def spawn_server_behind_def handle_connection_def reads_wire
      parse_plain_wire request_of_def Let_def split: prod.splits outcome.splits)

section \<open>Requests to the token endpoints\<close>

lemma length_wire:
  "length (wire r) = length (rw_method r) + length (rw_target r) + length (rw_body r) + 14 +
     sum_list (map (\<lambda>(name, v). length name + length v + 4) (rw_headers r))"
  by (simp add: wire_def as_bytes_def length_concat comp_def case_prod_unfold eval_nat_numeral)

lemma header_names:
  "\<not> eq_ignore_ascii_case ''Host'' ''authorization''" "eq_ignore_ascii_case ''Authorization'' ''authorization''"
  "\<not> eq_ignore_ascii_case ''Content-Length'' ''authorization''" "\<not> eq_ignore_ascii_case ''Host'' ''upgrade''"
  "\<not> eq_ignore_ascii_case ''Authorization'' ''upgrade''" "\<not> eq_ignore_ascii_case ''Content-Length'' ''upgrade''"
  "\<not> eq_ignore_ascii_case ''Host'' ''content-length''" "\<not> eq_ignore_ascii_case ''Authorization'' ''content-length''"
  "eq_ignore_ascii_case ''Content-Length'' ''content-length''" "\<not> eq_ignore_ascii_case ''Host'' ''transfer-encoding''"
  "\<not> eq_ignore_ascii_case ''Authorization'' ''transfer-encoding''"
  "\<not> eq_ignore_ascii_case ''Content-Length'' ''transfer-encoding''"
  by code_simp+

lemma post_request:
  "header_str lib_ext (request_of (post path h)) ''authorization'' = h"
  "\<not> has_body (request_of (post path h))" "\<not> is_upgrade lib_ext (request_of (post path h))"
  "rq_method (request_of (post path h)) = ''POST''" "rq_path (request_of (post path h)) = target_path path"
  unfolding is_upgrade_def header_request_of has_body_def
  by (auto simp: request_of_def post_def header_names split: option.splits)

lemma post_exchange:
  assumes "path \<in> {''/auth/token'', ''/auth/refresh'', ''/auth/revoke'', ''/auth/nope''}" and "length (case h of None \<Rightarrow> [] | Some v \<Rightarrow> v) \<le> 1000"
  shows "raw_exchange e (post path h) auth =
    (case handle_auth_request lib_ext e (request_of (post path h)) auth of
       (Ret response, auth) \<Rightarrow> Some (write_response lib_http response True, auth)
     | (Panic, auth) \<Rightarrow> None)"
proof -
  have "target_path path = path" using assms(1) by (auto simp: target_path_def)
  moreover have "length (wire (post path h)) \<le> 2048"
    using assms by (auto simp: length_wire post_def split: option.splits)
  moreover have "plain_target (post path h)" "path \<noteq> ''/''"
    using assms(1) by (auto simp: plain_target_def post_def target_path_def)
  moreover have "rw_method (post path h) \<noteq> ''HEAD''" by (simp add: post_def)
  ultimately show ?thesis
    by (auto simp: exchange post_request plain_response_def HEALTH_CHECK_PATH_def split: prod.splits outcome.splits)
qed

lemma post_endpoint:
  assumes "length (case h of None \<Rightarrow> [] | Some v \<Rightarrow> v) \<le> 1000" and "endpoint_for path = Some ep"
  shows "raw_exchange e (post path h) (Some (alice_with tokens)) =
    (case endpoint_of lib_ext e (alice_with tokens) tokens h ep of
       (Ret response, tokens) \<Rightarrow> Some (write_response lib_http response True, Some (alice_with tokens))
     | (Panic, tokens) \<Rightarrow> None)"
proof -
  have path: "path \<in> {''/auth/token'', ''/auth/refresh'', ''/auth/revoke''}" "target_path path = path"
    using assms(2) by (auto simp: endpoint_for_def target_path_def split: if_splits)
  then have "served (request_of (post path h))" using assms(2) by (simp add: served_def post_request)
  then show ?thesis
    using path assms
    by (auto simp: post_exchange handle_served [where svc = tokens] with_tokens_for_test_def post_request split: prod.splits outcome.splits)
qed

section \<open>Logging in, refreshing and logging out\<close>

text \<open>The credential of the tests is \<open>alice\<close>'s, and a bearer token is read as it was written.\<close>

lemma alice_user:
  "basic_user lib_ext (alice_with tokens) ALICE = Some ''alice''" "basic_user lib_ext (alice_with tokens) WRONG = None"
  "basic_user lib_ext (alice_with tokens) (''Bearer '' @ t) = None"
  "has_user lib_ext (alice_with tokens) ''alice''" "\<not> has_user lib_ext (alice_with tokens) ''bob''"
proof -
  have expected: "ac_expected_authorizations (alice_with tokens) = [ALICE]"
    by (simp add: with_tokens_for_test_def with_basic_auth_for_test_def lib_ext_def base64_pairs_def ALICE_def)
  have "basic_auth_username lib_ext ALICE = Some ''alice''" by code_simp
  moreover have "ct_eq lib_ext a b \<longleftrightarrow> a = b" for a b by (simp add: lib_ext_def demo_ext_def)
  moreover have "WRONG \<noteq> ALICE" "''Bearer '' @ t \<noteq> ALICE" by (simp_all add: WRONG_def ALICE_def)
  ultimately show "basic_user lib_ext (alice_with tokens) ALICE = Some ''alice''"
    "basic_user lib_ext (alice_with tokens) WRONG = None"
    "basic_user lib_ext (alice_with tokens) (''Bearer '' @ t) = None"
    "has_user lib_ext (alice_with tokens) ''alice''" "\<not> has_user lib_ext (alice_with tokens) ''bob''"
    by (simp_all add: basic_user_def has_user_def expected)
qed

lemma bearer_issued: "bearer_token (''Bearer '' @ issued_token b) = Some (issued_token b)"
proof -
  have "trim (issued_token b) = issued_token b" by (simp add: trim_printable b64_url_printable [OF lib_ext_ok])
  moreover have "split_once '' '' (''Bearer'' @ CHR '' '' # issued_token b) = Some (''Bearer'', issued_token b)"
    by (rule split_once_char_notin) simp
  moreover have "eq_ignore_ascii_case ''Bearer'' ''bearer''" by code_simp
  moreover have "issued_token b \<noteq> []" using length_issued [of b] by auto
  ultimately show ?thesis by (simp add: bearer_token_def)
qed

lemma basic_is_no_bearer: "bearer_token ALICE = None" "bearer_token WRONG = None"
  by code_simp+

lemma length_credentials: "length ALICE = 22" "length WRONG = 22"
  by (simp_all add: ALICE_def WRONG_def)

text \<open>What is read from the body of an answer with tokens: neither token holds a quote.\<close>

lemma split_once_skips:
  "c \<notin> set a \<Longrightarrow> split_once (c # m) (a @ s) = map_option (\<lambda>(u, v). (a @ u, v)) (split_once (c # m) s)"
  by (induction a) (auto simp: option.map_comp comp_def case_prod_unfold prefix_def option.map_ident)

lemma no_quote: "CHR 0x22 \<notin> set (issued_token b)" "CHR 0x22 \<notin> set (mint_access lib_ext svc unix f user)"
  using lib_ext_ok by (simp_all add: mint_access_def Let_def)

lemma no_quote_nat: "CHR 0x22 \<notin> set (show_nat n)"
  using show_nat_chars [of _ n] by fastforce

lemma takeWhile_quote: "CHR 0x22 \<notin> set t \<Longrightarrow> takeWhile (\<lambda>c. c \<noteq> CHR 0x22) (t @ CHR 0x22 # s) = t"
  by (induction t) auto

lemma tokens_headers:
  "header_lines (hx_entries lib_http [HdrInsert ''content-type'' ''application/json'',
     HdrInsert ''cache-control'' ''no-store'', HdrInsert ''pragma'' ''no-cache'']) =
   ''content-type: application/json'' @ crlf @ ''cache-control: no-store'' @ crlf @ ''pragma: no-cache'' @ crlf"
  "hx_reason lib_http 200 = Some ''OK''" "show_nat 200 = ''200''"
  by code_simp+

text \<open>An answer with tokens up to its body, which holds the first quote.\<close>

definition before_tokens :: "issued_tokens \<Rightarrow> string" where
  "before_tokens it = ''HTTP/1.1 200 OK'' @ crlf @ ''content-type: application/json'' @ crlf @
     ''cache-control: no-store'' @ crlf @ ''pragma: no-cache'' @ crlf @ ''content-length: '' @
     show_nat (length (tokens_body it)) @ crlf @ ''connection: close'' @ crlf @ crlf"

lemma tokens_written:
  "write_response lib_http (tokens_response it) True = before_tokens it @ tokens_body it"
  "CHR 0x22 \<notin> set (before_tokens it)"
proof -
  have "rs_headers (tokens_response it) = [HdrInsert ''content-type'' ''application/json'',
      HdrInsert ''cache-control'' ''no-store'', HdrInsert ''pragma'' ''no-cache'']"
    "rs_status (tokens_response it) = 200" "rs_body (tokens_response it) = Some (tokens_body it)"
    by (simp_all add: tokens_response_def no_store_def)
  then show "write_response lib_http (tokens_response it) True = before_tokens it @ tokens_body it"
    unfolding write_response_def before_tokens_def Let_def by (simp only: tokens_headers option.case append_assoc) simp
  show "CHR 0x22 \<notin> set (before_tokens it)" by (simp add: before_tokens_def no_quote_nat)
qed

text \<open>A token that reads like the name of the next field is still no such field: a comma follows its quote.\<close>

lemma no_field_in_token:
  assumes "c \<notin> set p" and "c \<notin> set t" and "d \<noteq> e"
  shows "\<not> prefix (p @ c # d # q) (t @ c # e # s)"
  using assms
proof (induction p arbitrary: t)
  case Nil
  then show ?case by (cases t) auto
next
  case (Cons a p)
  then show ?case by (cases t) auto
qed

lemmas not_refresh_field =
  no_field_in_token [of "CHR 0x22" "''refresh_token''" _ "CHR '':''" "CHR '',''" "[CHR 0x22]", simplified]

lemma tokens_fields:
  assumes "CHR 0x22 \<notin> set (it_access_token it)" and "CHR 0x22 \<notin> set (it_refresh_token it)"
  shows "json_field (write_response lib_http (tokens_response it) True) ''access_token'' = it_access_token it"
    and "json_field (write_response lib_http (tokens_response it) True) ''refresh_token'' = it_refresh_token it"
  using assms tokens_written [of it]
  by (simp_all add: json_field_def tokens_body_def split_once_skips takeWhile_quote no_quote_nat
      not_refresh_field)

lemma contains_append: "part \<noteq> [] \<Longrightarrow> contains (u @ part @ v) part"
  unfolding contains_def using split_once_None by blast

text \<open>The status line decides how an answer starts.\<close>

lemma status_line:
  assumes "rs_status r = n" and "hx_reason lib_http n = Some reason" and "show_nat n = digits"
  shows "starts_with (write_response lib_http r b) (digits @ '' '' @ reason)"
  unfolding starts_with_def write_response_def Let_def assms option.case append_assoc same_prefix_prefix by simp

lemma starts:
  "rs_status r = 200 \<Longrightarrow> starts_with (write_response lib_http r b) ''200 OK''"
  "rs_status r = 204 \<Longrightarrow> starts_with (write_response lib_http r b) ''204 No Content''"
  "rs_status r = 400 \<Longrightarrow> starts_with (write_response lib_http r b) ''400 Bad Request''"
  "rs_status r = 401 \<Longrightarrow> starts_with (write_response lib_http r b) ''401 Unauthorized''"
  "rs_status r = 404 \<Longrightarrow> starts_with (write_response lib_http r b) ''404 Not Found''"
  "rs_status r = 405 \<Longrightarrow> starts_with (write_response lib_http r b) ''405 Method Not Allowed''"
proof -
  have reasons: "hx_reason lib_http 200 = Some ''OK''" "hx_reason lib_http 204 = Some ''No Content''"
    "hx_reason lib_http 400 = Some ''Bad Request''" "hx_reason lib_http 401 = Some ''Unauthorized''"
    "hx_reason lib_http 404 = Some ''Not Found''" "hx_reason lib_http 405 = Some ''Method Not Allowed''"
    by (simp_all add: lib_http_def)
  have digits: "show_nat 200 = ''200''" "show_nat 204 = ''204''" "show_nat 400 = ''400''" "show_nat 401 = ''401''"
    "show_nat 404 = ''404''" "show_nat 405 = ''405''" by code_simp+
  show "rs_status r = 200 \<Longrightarrow> starts_with (write_response lib_http r b) ''200 OK''"
    using status_line [OF _ reasons(1) digits(1)] by simp
  show "rs_status r = 204 \<Longrightarrow> starts_with (write_response lib_http r b) ''204 No Content''"
    using status_line [OF _ reasons(2) digits(2)] by simp
  show "rs_status r = 400 \<Longrightarrow> starts_with (write_response lib_http r b) ''400 Bad Request''"
    using status_line [OF _ reasons(3) digits(3)] by simp
  show "rs_status r = 401 \<Longrightarrow> starts_with (write_response lib_http r b) ''401 Unauthorized''"
    using status_line [OF _ reasons(4) digits(4)] by simp
  show "rs_status r = 404 \<Longrightarrow> starts_with (write_response lib_http r b) ''404 Not Found''"
    using status_line [OF _ reasons(5) digits(5)] by simp
  show "rs_status r = 405 \<Longrightarrow> starts_with (write_response lib_http r b) ''405 Method Not Allowed''"
    using status_line [OF _ reasons(6) digits(6)] by simp
qed

lemma contains_in: "text = u @ part @ v \<Longrightarrow> part \<noteq> [] \<Longrightarrow> contains text part"
  using contains_append by simp

lemma tokens_contain:
  "contains (write_response lib_http (tokens_response it) True) (line ''content-type: application/json'')"
  "contains (write_response lib_http (tokens_response it) True) (line ''cache-control: no-store'')"
  "contains (write_response lib_http (tokens_response it) True) ''\"token_type\":\"Bearer\"''"
  "it_access_expires_in it = 600 \<Longrightarrow> contains (write_response lib_http (tokens_response it) True) ''\"expires_in\":600''"
  "it_refresh_expires_in it = 3600 \<Longrightarrow>
     contains (write_response lib_http (tokens_response it) True) ''\"refresh_expires_in\":3600''"
proof -
  have digits: "show_nat 600 = ''600''" "show_nat 3600 = ''3600''" by code_simp+
  have written: "write_response lib_http (tokens_response it) True = ''HTTP/1.1 200 OK'' @ crlf @ line ''content-type: application/json'' @
      line ''cache-control: no-store'' @ ''pragma: no-cache'' @ crlf @ ''content-length: '' @
      show_nat (length (tokens_body it)) @ crlf @ ''connection: close'' @ crlf @ crlf @ tokens_body it"
    unfolding tokens_written before_tokens_def line_def by (simp only: append_assoc)
  show "contains (write_response lib_http (tokens_response it) True) (line ''content-type: application/json'')"
    by (rule contains_in [of _ "''HTTP/1.1 200 OK'' @ crlf"]) (simp_all only: written append_assoc, simp add: line_def)
  show "contains (write_response lib_http (tokens_response it) True) (line ''cache-control: no-store'')"
    by (rule contains_in [of _ "''HTTP/1.1 200 OK'' @ crlf @ line ''content-type: application/json''"])
      (simp_all only: written append_assoc, simp add: line_def)
  show "contains (write_response lib_http (tokens_response it) True) ''\"token_type\":\"Bearer\"''"
    by (rule contains_in [of _ "before_tokens it @ ''{''" _ "drop 22 (tokens_body it)"])
      (simp_all add: tokens_written tokens_body_def)
  show "it_access_expires_in it = 600 \<Longrightarrow> contains (write_response lib_http (tokens_response it) True) ''\"expires_in\":600''"
    by (rule contains_in [of _ "before_tokens it @ ''{\"token_type\":\"Bearer\",\"access_token\":\"'' @ it_access_token it @ ''\",''" _
        "'',\"refresh_token\":\"'' @ it_refresh_token it @ ''\",\"refresh_expires_in\":'' @ show_nat (it_refresh_expires_in it) @ ''}''"])
      (simp_all add: tokens_written tokens_body_def digits)
  show "it_refresh_expires_in it = 3600 \<Longrightarrow>
     contains (write_response lib_http (tokens_response it) True) ''\"refresh_expires_in\":3600''"
    by (rule contains_in [of _ "before_tokens it @ ''{\"token_type\":\"Bearer\",\"access_token\":\"'' @ it_access_token it @
        ''\",\"expires_in\":'' @ show_nat (it_access_expires_in it) @ '',\"refresh_token\":\"'' @ it_refresh_token it @ ''\",''" _ "''}''"])
      (simp_all add: tokens_written tokens_body_def digits)
qed

text \<open>The refusals and the answer to a logout are closed texts.\<close>

definition refusal :: "string list \<Rightarrow> response" where
  "refusal challenges = \<lparr>rs_status = 401, rs_headers = map (HdrAppend ''www-authenticate'') challenges,
     rs_body = Some ''authentication required''\<rparr>"

lemma refusal_status: "rs_status (refusal cs) = 401"
  by (simp add: refusal_def)

lemma unauthorized_refusal:
  "unauthorized_response lib_ext True None = Ret (refusal [BASIC_CHALLENGE])"
  "unauthorized_response lib_ext False (Some BEARER_CHALLENGE) = Ret (refusal [BEARER_CHALLENGE])"
  "unauthorized_response lib_ext False (Some BEARER_INVALID_CHALLENGE) = Ret (refusal [BEARER_INVALID_CHALLENGE])"
  "unauthorized_response lib_ext True (Some BEARER_CHALLENGE) = Ret (refusal [BASIC_CHALLENGE, BEARER_CHALLENGE])"
  "unauthorized_response lib_ext True (Some BEARER_INVALID_CHALLENGE) = Ret (refusal [BASIC_CHALLENGE, BEARER_INVALID_CHALLENGE])"
  by (simp_all add: unauthorized_response_eq [OF lib_ext_ok] refusal_def)

lemma closed_answers:
  "contains (write_response lib_http (refusal [BASIC_CHALLENGE]) True) ''www-authenticate: Basic realm=\"ws2tcp-router\"''"
  "\<not> contains (write_response lib_http (refusal [BASIC_CHALLENGE]) True) ''access_token''"
  "suffix ''authentication required'' (write_response lib_http (refusal [BASIC_CHALLENGE]) True)"
  "contains (write_response lib_http (refusal [BEARER_INVALID_CHALLENGE]) True) ''error=\"invalid_token\"''"
  "\<not> contains (write_response lib_http (no_store (text_response 204 [])) True) ''content-length''"
  by code_simp+

section \<open>The tests of plain requests\<close>

definition plain_http_get_root_returns_health_check_message :: bool where
  "plain_http_get_root_returns_health_check_message \<longleftrightarrow>
     (case raw_exchange (demo_env 0 1) \<lparr>rw_method = ''GET'', rw_target = ''/'',
             rw_headers = [(''Host'', ''x''), (''User-Agent'', ''probe/1.0'')], rw_body = []\<rparr> None of
        None \<Rightarrow> False
      | Some (response, _) \<Rightarrow>
          starts_with response ''200 OK'' \<and>
          contains response (line ''content-type: text/plain; charset=utf-8'') \<and>
          contains response (line (''content-length: '' @ show_nat (length (HEALTH_CHECK_MESSAGE ''0.2.2'')))) \<and>
          suffix (HEALTH_CHECK_MESSAGE ''0.2.2'') response \<and> \<not> contains response ''x-ws2tcp-token'')"

definition plain_http_head_root_omits_body :: bool where
  "plain_http_head_root_omits_body \<longleftrightarrow>
     (case raw_exchange (demo_env 0 1) \<lparr>rw_method = ''HEAD'', rw_target = ''/'', rw_headers = [(''Host'', ''x'')],
             rw_body = []\<rparr> None of
        None \<Rightarrow> False
      | Some (response, _) \<Rightarrow> starts_with response ''200 OK'' \<and> suffix (crlf @ crlf) response)"

definition plain_http_health_check_requires_auth_when_enabled :: bool where
  "plain_http_health_check_requires_auth_when_enabled \<longleftrightarrow>
     (let auth = Some (with_basic_auth_for_test lib_ext ''alice:secret'')
      in (case raw_exchange (demo_env 0 1) \<lparr>rw_method = ''GET'', rw_target = ''/'', rw_headers = [(''Host'', ''x'')],
                 rw_body = []\<rparr> auth of
            None \<Rightarrow> False
          | Some (response, _) \<Rightarrow> starts_with response ''401 Unauthorized'' \<and>
              contains response ''www-authenticate: Basic realm=\"ws2tcp-router\"'' \<and>
              suffix ''authentication required'' response) \<and>
         (case raw_exchange (demo_env 0 1) \<lparr>rw_method = ''GET'', rw_target = ''/'',
                 rw_headers = [(''Host'', ''x''), (''Authorization'', ALICE)], rw_body = []\<rparr> auth of
            None \<Rightarrow> False
          | Some (response, _) \<Rightarrow> starts_with response ''200 OK''))"

definition token_endpoints_do_not_exist_without_a_token_service :: bool where
  "token_endpoints_do_not_exist_without_a_token_service \<longleftrightarrow>
     list_all (\<lambda>auth. case raw_exchange (demo_env 0 1) (post ''/auth/token'' (Some ALICE)) auth of
         None \<Rightarrow> False
       | Some (response, _) \<Rightarrow> starts_with response ''404 Not Found'')
       [None, Some (with_basic_auth_for_test lib_ext ''alice:secret'')]"

definition login_needs_valid_basic_credentials :: bool where
  "login_needs_valid_basic_credentials \<longleftrightarrow>
     list_all (\<lambda>authorization. case raw_exchange (demo_env 0 1) (post ''/auth/token'' authorization) token_auth of
         None \<Rightarrow> False
       | Some (response, _) \<Rightarrow> starts_with response ''401 Unauthorized'' \<and>
           contains response ''www-authenticate: Basic realm=\"ws2tcp-router\"'' \<and>
           \<not> contains response ''access_token'')
       [None, Some WRONG] \<and>
     (case raw_exchange (demo_env 0 1) (post ''/auth/token'' (Some ALICE)) token_auth of
        None \<Rightarrow> False
      | Some (response, _) \<Rightarrow> starts_with response ''200 OK'' \<and>
          contains response (line ''content-type: application/json'') \<and>
          contains response (line ''cache-control: no-store'') \<and>
          contains response ''\"token_type\":\"Bearer\"'' \<and> contains response ''\"expires_in\":600'' \<and>
          contains response ''\"refresh_expires_in\":3600'')"

definition token_endpoints_accept_only_post_without_a_body :: bool where
  "token_endpoints_accept_only_post_without_a_body \<longleftrightarrow>
     (case raw_exchange (demo_env 0 1) \<lparr>rw_method = ''GET'', rw_target = ''/auth/token'',
             rw_headers = [(''Host'', ''x''), (''Authorization'', ALICE)], rw_body = []\<rparr> token_auth of
        None \<Rightarrow> False
      | Some (response, _) \<Rightarrow>
          starts_with response ''405 Method Not Allowed'' \<and> contains response (line ''allow: POST'')) \<and>
     (case raw_exchange (demo_env 0 1) \<lparr>rw_method = ''POST'', rw_target = ''/auth/token'',
             rw_headers = [(''Host'', ''x''), (''Authorization'', ALICE), (''Content-Length'', ''5'')],
             rw_body = ''hello''\<rparr> token_auth of
        None \<Rightarrow> False
      | Some (response, _) \<Rightarrow> starts_with response ''400 Bad Request'') \<and>
     (case raw_exchange (demo_env 0 1) (post ''/auth/nope'' (Some ALICE)) token_auth of
        None \<Rightarrow> False
      | Some (response, _) \<Rightarrow> starts_with response ''404 Not Found'')"

section \<open>The tests that follow a login\<close>

definition refresh_exchange ::
  "env \<Rightarrow> string \<Rightarrow> auth_config option \<Rightarrow> (string \<times> auth_config option) option" where
  "refresh_exchange e token auth = raw_exchange e (post ''/auth/refresh'' (Some (''Bearer '' @ token))) auth"

text \<open>
  \<open>ws_handshake\<close>: the client's upgrade request, and what the callback answers. \<open>None\<close> when the handshake
  completes, or the status of the refusal.
\<close>

definition upgrade :: "string \<Rightarrow> string option \<Rightarrow> raw" where
  "upgrade target authorization =
     \<lparr>rw_method = ''GET'', rw_target = target,
      rw_headers = [(''Host'', ''localhost''), (''Connection'', ''Upgrade''), (''Upgrade'', ''websocket'')] @
        (case authorization of None \<Rightarrow> [] | Some v \<Rightarrow> [(''Authorization'', v)]), rw_body = []\<rparr>"

definition client_async :: "env \<Rightarrow> string \<Rightarrow> string option \<Rightarrow> net \<Rightarrow> auth_config option \<Rightarrow> conn_result outcome" where
  "client_async e target authorization nt auth =
     fst (spawn_server_with_auth e (upgrade target authorization)
       (\<lambda>_. Handshake (request_of (upgrade target authorization)) True) nt auth)"

definition ws_handshake :: "env \<Rightarrow> auth_config option \<Rightarrow> string \<Rightarrow> string option \<Rightarrow> nat option" where
  "ws_handshake e auth target authorization =
     (case client_async e target authorization demo_net auth of
        Ret (HandshakeRefused response) \<Rightarrow> Some (rs_status response)
      | _ \<Rightarrow> None)"

definition refresh_rotates_tokens_and_detects_reuse :: bool where
  "refresh_rotates_tokens_and_detects_reuse \<longleftrightarrow>
     (case login_exchange (demo_env 0 1) token_auth of
        None \<Rightarrow> False
      | Some (access1, refresh1, auth) \<Rightarrow>
     (case refresh_exchange (demo_env 0 2) refresh1 auth of
        None \<Rightarrow> False
      | Some (response, auth) \<Rightarrow>
          (let access2 = json_field response ''access_token''; refresh2 = json_field response ''refresh_token''
           in starts_with response ''200 OK'' \<and> refresh1 \<noteq> refresh2 \<and>
              ws_handshake (demo_env 0 3) auth ''/'' (Some (''Bearer '' @ access2)) = None \<and>
     (case refresh_exchange (demo_env 0 4) refresh1 auth of
        None \<Rightarrow> False
      | Some (response, auth) \<Rightarrow>
          starts_with response ''401 Unauthorized'' \<and> contains response ''error=\"invalid_token\"'' \<and>
     (case refresh_exchange (demo_env 0 5) refresh2 auth of
        None \<Rightarrow> False
      | Some (response, auth) \<Rightarrow>
          starts_with response ''401 Unauthorized'' \<and>
          ws_handshake (demo_env 0 6) auth ''/'' (Some (''Bearer '' @ access1)) = Some 401 \<and>
          ws_handshake (demo_env 0 7) auth ''/'' (Some (''Bearer '' @ access2)) = Some 401)))))"

definition refresh_and_revoke_need_a_bearer_credential :: bool where
  "refresh_and_revoke_need_a_bearer_credential \<longleftrightarrow>
     (case login_exchange (demo_env 0 1) token_auth of
        None \<Rightarrow> False
      | Some (access, _, auth) \<Rightarrow>
          list_all (\<lambda>(path, authorization). case raw_exchange (demo_env 0 2) (post path authorization) auth of
              None \<Rightarrow> False
            | Some (response, _) \<Rightarrow> starts_with response ''401 Unauthorized'')
            [(''/auth/refresh'', None), (''/auth/refresh'', Some ALICE), (''/auth/refresh'', Some (''Bearer '' @ access)),
             (''/auth/revoke'', None), (''/auth/revoke'', Some ALICE)] \<and>
          (case raw_exchange (demo_env 0 2) (post ''/auth/revoke'' (Some (''Bearer '' @ access))) auth of
             None \<Rightarrow> False
           | Some (response, _) \<Rightarrow>
               starts_with response ''204 No Content'' \<and> \<not> contains response ''content-length''))"

definition revoke_logs_the_client_out :: bool where
  "revoke_logs_the_client_out \<longleftrightarrow>
     (case login_exchange (demo_env 0 1) token_auth of
        None \<Rightarrow> False
      | Some (access, refresh_token, auth) \<Rightarrow>
          ws_handshake (demo_env 0 2) auth ''/'' (Some (''Bearer '' @ access)) = None \<and>
     (case raw_exchange (demo_env 0 3) (post ''/auth/revoke'' (Some (''Bearer '' @ refresh_token))) auth of
        None \<Rightarrow> False
      | Some (response, auth) \<Rightarrow>
          starts_with response ''204 No Content'' \<and>
          ws_handshake (demo_env 0 4) auth ''/'' (Some (''Bearer '' @ access)) = Some 401 \<and>
     (case refresh_exchange (demo_env 0 5) refresh_token auth of
        None \<Rightarrow> False
      | Some (response, _) \<Rightarrow> starts_with response ''401 Unauthorized'')))"

definition basic_auth_is_still_accepted_next_to_tokens :: bool where
  "basic_auth_is_still_accepted_next_to_tokens \<longleftrightarrow>
     ws_handshake (demo_env 0 1) token_auth ''/tcp:127.0.0.1:9'' (Some ALICE) = None \<and>
     ws_handshake (demo_env 0 2) token_auth ''/tcp:127.0.0.1:9'' (Some WRONG) = Some 401"

text \<open>The request that is refused, and its challenges.\<close>

definition invalid_access_tokens_are_rejected_with_a_bearer_challenge :: bool where
  "invalid_access_tokens_are_rejected_with_a_bearer_challenge \<longleftrightarrow>
     (case login_exchange (demo_env 0 1) token_auth of
        None \<Rightarrow> False
      | Some (_, refresh_token, auth) \<Rightarrow>
          list_all (\<lambda>authorization. case client_async (demo_env 0 2) ''/tcp:127.0.0.1:9'' (Some authorization) demo_net auth of
              Ret (HandshakeRefused response) \<Rightarrow> rs_status response = 401 \<and>
                list_ex (\<lambda>h. case h of HdrAppend _ c \<Rightarrow> prefix ''Basic '' c | _ \<Rightarrow> False) (rs_headers response) \<and>
                list_ex (\<lambda>h. case h of HdrAppend _ c \<Rightarrow> prefix ''Bearer '' c | _ \<Rightarrow> False) (rs_headers response)
            | _ \<Rightarrow> False)
            [''Bearer '' @ refresh_token, ''Bearer garbage'', ''Bearer ''])"

text \<open>The upstream answers what it reads: the bytes of the one message that the client sends.\<close>

definition echo :: net where
  "echo = demo_net\<lparr>nt_inbox := [WsMessage (Binary (as_bytes ''ping''))],
     nt_bytes := \<lparr>ch_chunks = [as_bytes ''ping''], ch_fails = False\<rparr>,
     nt_tcp_schedule := [FromWs Written, FromTcp Written]\<rparr>"

definition access_token_authorizes_a_proxy_request :: bool where
  "access_token_authorizes_a_proxy_request \<longleftrightarrow>
     (case login_exchange (demo_env 0 1) token_auth of
        None \<Rightarrow> False
      | Some (access, _, auth) \<Rightarrow>
          (case client_async (demo_env 0 2) ''/tcp:127.0.0.1:9'' (Some (''Bearer '' @ access)) echo auth of
             Ret (TcpRelayed _ _ _ _ st) \<Rightarrow>
               tr_to_tcp st = as_bytes ''ping'' \<and> tr_to_ws st = [Binary (as_bytes ''ping'')]
           | _ \<Rightarrow> False))"

section \<open>The tests of websocket requests without a login\<close>

definition root_path_health_check_completes_handshake_and_closes :: bool where
  "root_path_health_check_completes_handshake_and_closes \<longleftrightarrow>
     (case client_async (demo_env 0 1) ''/'' None demo_net None of
        Ret (HealthChecked messages) \<Rightarrow>
          messages = [Text (HEALTH_CHECK_MESSAGE ''0.2.2''), Close (Some (1000, HEALTH_CHECK_CLOSE_REASON))] \<and>
          \<not> conn_failed (HealthChecked messages)
      | _ \<Rightarrow> False)"

definition invalid_path_is_rejected_with_bad_request :: bool where
  "invalid_path_is_rejected_with_bad_request \<longleftrightarrow>
     (case client_async (demo_env 0 1) ''/other'' None demo_net None of
        Ret (HandshakeRefused response) \<Rightarrow> rs_status response = 400 \<and>
          (case rs_body response of None \<Rightarrow> False | Some body \<Rightarrow> contains body ''path must be /tcp:<host>:<port>'') \<and>
          conn_failed (HandshakeRefused response)
      | _ \<Rightarrow> False)"

text \<open>A user that was removed after the login (a test of \<open>src/auth.rs\<close>).\<close>

definition access_tokens_of_a_removed_user_are_rejected :: bool where
  "access_tokens_of_a_removed_user_are_rejected \<longleftrightarrow>
     (case logged_in 600 3600 ''alice'' of
        None \<Rightarrow> False
      | Some (alice, tokens) \<Rightarrow>
          (case login lib_ext (demo_env 0 2) ''bob'' tokens of
             (Ret (Inr bob), tokens) \<Rightarrow>
               (let auth = Some (alice_with tokens); unix_now = env_unix (demo_env 0 0);
                    bearing = (\<lambda>token. request_with_authorization (Some (''Bearer '' @ token)))
                in authorize_request lib_ext unix_now (bearing (it_access_token alice)) auth = Ret (Inr ''alice'') \<and>
                   (case authorize_request lib_ext unix_now (bearing (it_access_token bob)) auth of
                      Ret (Inl _) \<Rightarrow> True
                    | _ \<Rightarrow> False))
           | _ \<Rightarrow> False))"

section \<open>Websocket requests\<close>

lemma header_names_upgrade:
  "\<not> eq_ignore_ascii_case ''Connection'' ''authorization''" "\<not> eq_ignore_ascii_case ''Upgrade'' ''authorization''"
  "\<not> eq_ignore_ascii_case ''Connection'' ''upgrade''" "eq_ignore_ascii_case ''Upgrade'' ''upgrade''"
  "eq_ignore_ascii_case ''websocket'' ''websocket''"
  by code_simp+

lemma upgrade_request:
  "header_str lib_ext (request_of (upgrade target h)) ''authorization'' = h"
  "is_upgrade lib_ext (request_of (upgrade target h))" "rq_path (request_of (upgrade target h)) = target_path target"
  unfolding is_upgrade_def header_request_of
  by (auto simp: request_of_def upgrade_def header_names header_names_upgrade split: option.splits)

lemma client_async_callback:
  assumes "length target \<le> 500" and "length (case h of None \<Rightarrow> [] | Some v \<Rightarrow> v) \<le> 1000"
  shows "\<exists>client. client_async e target h nt auth =
    (case accept_callback lib_ext (env_unix e) (request_of (upgrade target h)) auth
            \<lparr>sl_target = None, sl_user = None, sl_user_agent = None\<rparr> of
       Panic \<Rightarrow> Panic
     | Ret (Inl response, sl) \<Rightarrow> Ret (HandshakeRefused response)
     | Ret (Inr _, sl) \<Rightarrow> Ret (after_handshake ''0.2.2'' \<lparr>lm_buffer_size = 1024, lm_udp_idle_timeout = from_secs 1\<rparr> nt client sl))"
proof -
  have "length (wire (upgrade target h)) \<le> 2048"
    using assms by (auto simp: length_wire upgrade_def split: option.splits)
  then show ?thesis
    by (auto simp: client_async_def spawn_server_with_auth_def spawn_server_behind_def handle_connection_def reads_wire
        parse_plain_wire upgrade_request Let_def split: prod.splits outcome.splits sum.splits)
qed

lemma authorize_alice:
  "authorize_request lib_ext now req (Some (alice_with tokens)) =
    (case header_str lib_ext req ''authorization'' of
       None \<Rightarrow> Ret (Inl (refusal [BASIC_CHALLENGE, BEARER_CHALLENGE]))
     | Some h \<Rightarrow>
         (case bearer_token h of
            None \<Rightarrow> (case basic_user lib_ext (alice_with tokens) h of
                None \<Rightarrow> Ret (Inl (refusal [BASIC_CHALLENGE, BEARER_CHALLENGE])) | Some user \<Rightarrow> Ret (Inr user))
          | Some token \<Rightarrow>
              (case verify_access lib_ext now token tokens of
                 Panic \<Rightarrow> Panic
               | Ret None \<Rightarrow> Ret (Inl (refusal [BASIC_CHALLENGE, BEARER_INVALID_CHALLENGE]))
               | Ret (Some user) \<Rightarrow>
                   if has_user lib_ext (alice_with tokens) user then Ret (Inr user)
                   else Ret (Inl (refusal [BASIC_CHALLENGE, BEARER_INVALID_CHALLENGE])))))"
proof -
  have "\<not> allows_anonymous_target (alice_with tokens) path" for path
    by (simp add: allows_anonymous_target_def with_tokens_for_test_def with_basic_auth_for_test_def split: sum.splits)
  moreover have "ac_tokens (alice_with tokens) = Some tokens" by (simp add: with_tokens_for_test_def)
  ultimately show ?thesis
    by (auto simp: authorize_request_def verify_access_token_def unauthorized_refusal split: option.splits outcome.splits)
qed

lemma after_handshake_not_refused: "after_handshake version lm nt client sl \<noteq> HandshakeRefused r"
  by (auto simp: after_handshake_def connect_upstream_def split: option.splits route.splits protocol.splits sum.splits)

lemma local_target:
  "parse_target ''/tcp:127.0.0.1:9'' = Inr \<lparr>t_protocol = Tcp, t_host = ''127.0.0.1'', t_port = 9\<rparr>"
  by code_simp

lemma ws_handshake_authorize:
  assumes "target \<in> {''/'', ''/tcp:127.0.0.1:9''}" and "length (case h of None \<Rightarrow> [] | Some v \<Rightarrow> v) \<le> 1000"
  shows "ws_handshake e auth target h =
    (case authorize_request lib_ext (env_unix e) (request_of (upgrade target h)) auth of
       Ret (Inl response) \<Rightarrow> Some (rs_status response)
     | _ \<Rightarrow> None)"
proof -
  have "length target \<le> 500" "target_path target = target" using assms(1) by (auto simp: target_path_def)
  with client_async_callback [of target h e demo_net auth] assms obtain client where
    "client_async e target h demo_net auth = (case accept_callback lib_ext (env_unix e) (request_of (upgrade target h)) auth
            \<lparr>sl_target = None, sl_user = None, sl_user_agent = None\<rparr> of
       Panic \<Rightarrow> Panic
     | Ret (Inl response, sl) \<Rightarrow> Ret (HandshakeRefused response)
     | Ret (Inr _, sl) \<Rightarrow> Ret (after_handshake ''0.2.2'' \<lparr>lm_buffer_size = 1024, lm_udp_idle_timeout = from_secs 1\<rparr> demo_net client sl))"
    by blast
  then show ?thesis
    using assms(1) \<open>target_path target = target\<close> after_handshake_not_refused
    by (auto simp: ws_handshake_def accept_callback_def capture_requested_target_def upgrade_request HEALTH_CHECK_PATH_def
        local_target Let_def split: outcome.splits sum.splits prod.splits conn_result.splits)
qed

lemma length_mint:
  "length (mint_access lib_ext svc unix f user) = 69 + 4 * length user + 2 * length (ts_key svc)"
  by (simp add: mint_access_def Let_def access_payload_def lib_ext_def demo_ext_def length_nibbles)

lemma length_test_secret: "length test_secret = 32"
  by (simp add: test_secret_def as_bytes_def)

text \<open>
  What a test evaluates: the operations of the token service are computed, while tokens, hashes and answers
  stay as they are and are compared by the lemmas above.
\<close>

lemmas exchange_folded = folded basic_user_def has_user_def bearer_token_def basic_auth_username_def
  write_response_def tokens_response_def tokens_body_def unauthorized_response_def show_nat.simps
  BASIC_CHALLENGE_def BEARER_CHALLENGE_def BEARER_INVALID_CHALLENGE_def no_store_def text_response_def
  authorize_request_def lib_ext_def

lemmas exchange_tests = token_tests post_endpoint endpoint_of_def endpoint_for_def alice_user bearer_issued
  bearer_issued [simplified] bearer_of_token [OF lib_ext_ok] bearer_of_token [OF lib_ext_ok, simplified] basic_is_no_bearer length_credentials no_quote tokens_fields starts
  tokens_contain unauthorized_refusal refusal_status closed_answers login_exchange_def refresh_exchange_def token_auth_def
  ws_handshake_authorize authorize_alice upgrade_request verified_mint [unfolded verified_def demo_env_def, simplified]
  verified_no_dot [unfolded verified_def demo_env_def, simplified] length_mint length_test_secret length_issued

lemma login_needs_valid_basic_credentials_passes: login_needs_valid_basic_credentials
  by (simp add: evals exchange_tests login_needs_valid_basic_credentials_def del: exchange_folded)

lemma refresh_rotates_tokens_and_detects_reuse_passes: refresh_rotates_tokens_and_detects_reuse
  by (simp add: evals exchange_tests Let_def refresh_rotates_tokens_and_detects_reuse_def del: exchange_folded)

lemma refresh_and_revoke_need_a_bearer_credential_passes: refresh_and_revoke_need_a_bearer_credential
  by (simp add: evals exchange_tests refresh_and_revoke_need_a_bearer_credential_def del: exchange_folded)

lemma revoke_logs_the_client_out_passes: revoke_logs_the_client_out
  by (simp add: evals exchange_tests Let_def revoke_logs_the_client_out_def del: exchange_folded)

lemma basic_auth_is_still_accepted_next_to_tokens_passes: basic_auth_is_still_accepted_next_to_tokens
  by (simp add: evals exchange_tests basic_auth_is_still_accepted_next_to_tokens_def del: exchange_folded)

section \<open>The tests of plain requests pass\<close>

text \<open>Requests for the health check.\<close>

lemma health_exchange:
  assumes "m = ''GET'' \<or> m = ''HEAD''"
    and "hs = [(''Host'', ''x'')] \<or> hs = [(''Host'', ''x''), (''User-Agent'', ''probe/1.0'')] \<or> hs = [(''Host'', ''x''), (''Authorization'', ALICE)]"
  shows "raw_exchange e \<lparr>rw_method = m, rw_target = ''/'', rw_headers = hs, rw_body = []\<rparr> auth =
    (case authorize_request lib_ext (env_unix e) (request_of \<lparr>rw_method = m, rw_target = ''/'', rw_headers = hs, rw_body = []\<rparr>) auth of
       Panic \<Rightarrow> None
     | Ret (Inr _) \<Rightarrow> Some (write_response lib_http (health_check_response (HEALTH_CHECK_MESSAGE ''0.2.2'')) (m \<noteq> ''HEAD''), auth)
     | Ret (Inl response) \<Rightarrow> Some (write_response lib_http response (m \<noteq> ''HEAD''), auth))"
proof -
  let ?r = "\<lparr>rw_method = m, rw_target = ''/'', rw_headers = hs, rw_body = []\<rparr>"
  have path: "target_path ''/'' = ''/''" by (simp add: target_path_def)
  have "length (wire ?r) \<le> 2048" using assms by (auto simp: length_wire length_credentials)
  moreover have "plain_target ?r" using assms(1) by (simp add: plain_target_def path)
  moreover have "\<not> eq_ignore_ascii_case ''User-Agent'' ''upgrade''" by code_simp
  then have "\<not> is_upgrade lib_ext (request_of ?r)"
    using assms(2) by (auto simp: is_upgrade_def header_request_of header_names)
  moreover have "rq_path (request_of ?r) = ''/''" by (simp add: request_of_def path)
  ultimately show ?thesis
    by (simp add: exchange plain_response_def HEALTH_CHECK_PATH_def split: outcome.splits sum.splits)
qed

lemma basic_user_alice:
  "basic_user lib_ext (with_basic_auth_for_test lib_ext ''alice:secret'') h = basic_user lib_ext (alice_with tokens) h"
  by (simp add: basic_user_def with_tokens_for_test_def)

lemma authorize_probe:
  "authorize_request lib_ext now (request_of \<lparr>rw_method = m, rw_target = ''/'', rw_headers = [(''Host'', ''x'')], rw_body = []\<rparr>)
     (Some (with_basic_auth_for_test lib_ext ''alice:secret'')) = Ret (Inl (refusal [BASIC_CHALLENGE]))"
  "authorize_request lib_ext now (request_of \<lparr>rw_method = m, rw_target = ''/'', rw_headers = [(''Host'', ''x''), (''Authorization'', ALICE)], rw_body = []\<rparr>)
     (Some (with_basic_auth_for_test lib_ext ''alice:secret'')) = Ret (Inr ''alice'')"
proof -
  let ?ac = "with_basic_auth_for_test lib_ext ''alice:secret''"
  have "\<not> allows_anonymous_target ?ac path" for path
    by (simp add: allows_anonymous_target_def with_basic_auth_for_test_def split: sum.splits)
  moreover have "ac_tokens ?ac = None" by (simp add: with_basic_auth_for_test_def)
  ultimately show "authorize_request lib_ext now (request_of \<lparr>rw_method = m, rw_target = ''/'', rw_headers = [(''Host'', ''x'')], rw_body = []\<rparr>)
     (Some ?ac) = Ret (Inl (refusal [BASIC_CHALLENGE]))"
   "authorize_request lib_ext now (request_of \<lparr>rw_method = m, rw_target = ''/'', rw_headers = [(''Host'', ''x''), (''Authorization'', ALICE)], rw_body = []\<rparr>)
     (Some ?ac) = Ret (Inr ''alice'')"
    by (simp_all add: authorize_request_def header_request_of header_names unauthorized_refusal basic_is_no_bearer
      alice_user basic_user_alice [where tokens = "the (service 600 3600)"])
qed

lemma health_answer:
  "contains (write_response lib_http (health_check_response (HEALTH_CHECK_MESSAGE ''0.2.2'')) True) (line ''content-type: text/plain; charset=utf-8'')"
  "contains (write_response lib_http (health_check_response (HEALTH_CHECK_MESSAGE ''0.2.2'')) True)
     (line (''content-length: '' @ show_nat (length (HEALTH_CHECK_MESSAGE ''0.2.2''))))"
  "suffix (HEALTH_CHECK_MESSAGE ''0.2.2'') (write_response lib_http (health_check_response (HEALTH_CHECK_MESSAGE ''0.2.2'')) True)"
  "\<not> contains (write_response lib_http (health_check_response (HEALTH_CHECK_MESSAGE ''0.2.2'')) True) ''x-ws2tcp-token''"
  "suffix (crlf @ crlf) (write_response lib_http (health_check_response (HEALTH_CHECK_MESSAGE ''0.2.2'')) False)"
  "rs_status (health_check_response m) = 200"
proof -
  have "length (HEALTH_CHECK_MESSAGE ''0.2.2'') = 78" by (simp add: HEALTH_CHECK_MESSAGE_def)
  moreover have "contains (write_response lib_http (health_check_response (HEALTH_CHECK_MESSAGE ''0.2.2'')) True) (line (''content-length: '' @ show_nat 78))"
    by code_simp
  ultimately show "contains (write_response lib_http (health_check_response (HEALTH_CHECK_MESSAGE ''0.2.2'')) True)
     (line (''content-length: '' @ show_nat (length (HEALTH_CHECK_MESSAGE ''0.2.2''))))" by simp
qed (code_simp+)

lemma plain_http_get_root_returns_health_check_message_passes: plain_http_get_root_returns_health_check_message
  by (simp add: plain_http_get_root_returns_health_check_message_def health_exchange authorize_request_def health_answer health_answer (2) [simplified] starts)

lemma plain_http_head_root_omits_body_passes: plain_http_head_root_omits_body
  using health_answer(5) by (simp add: plain_http_head_root_omits_body_def health_exchange authorize_request_def health_answer starts)

lemma plain_http_health_check_requires_auth_when_enabled_passes: plain_http_health_check_requires_auth_when_enabled
  by (simp add: plain_http_health_check_requires_auth_when_enabled_def health_exchange authorize_probe health_answer starts
    closed_answers refusal_status)

lemma tokenless: "ac_tokens (with_basic_auth_for_test x credential) = None" "ac_tokens (alice_with tokens) = Some tokens"
  by (simp_all add: with_basic_auth_for_test_def with_tokens_for_test_def)

lemma token_endpoints_do_not_exist_without_a_token_service_passes: token_endpoints_do_not_exist_without_a_token_service
  by (simp add: token_endpoints_do_not_exist_without_a_token_service_def post_exchange handle_auth_request_def
      tokenless length_credentials starts text_response_def)

text \<open>A login request that is not served.\<close>

lemma token_request:
  assumes "m = ''GET'' \<or> m = ''POST''"
    and "hs = [(''Host'', ''x''), (''Authorization'', ALICE)] \<or>
         hs = [(''Host'', ''x''), (''Authorization'', ALICE), (''Content-Length'', ''5'')]" and "length body \<le> 10"
  shows "raw_exchange e \<lparr>rw_method = m, rw_target = ''/auth/token'', rw_headers = hs, rw_body = body\<rparr> auth =
    (case handle_auth_request lib_ext e (request_of \<lparr>rw_method = m, rw_target = ''/auth/token'', rw_headers = hs, rw_body = body\<rparr>) auth of
       (Ret response, auth) \<Rightarrow> Some (write_response lib_http response True, auth)
     | (Panic, auth) \<Rightarrow> None)"
proof -
  let ?r = "\<lparr>rw_method = m, rw_target = ''/auth/token'', rw_headers = hs, rw_body = body\<rparr>"
  have path: "target_path ''/auth/token'' = ''/auth/token''" by (simp add: target_path_def)
  have "length (wire ?r) \<le> 2048" using assms by (auto simp: length_wire length_credentials)
  moreover have "plain_target ?r" by (simp add: plain_target_def path)
  moreover have "\<not> is_upgrade lib_ext (request_of ?r)"
    using assms(2) by (auto simp: is_upgrade_def header_request_of header_names)
  moreover have "rq_path (request_of ?r) = ''/auth/token''" by (simp add: request_of_def path)
  ultimately show ?thesis
    using assms(1) by (auto simp: exchange plain_response_def HEALTH_CHECK_PATH_def split: outcome.splits prod.splits)
qed

lemma announces_body:
  "has_body (request_of \<lparr>rw_method = m, rw_target = t, rw_headers = [(''Host'', ''x''), (''Authorization'', ALICE), (''Content-Length'', ''5'')],
     rw_body = body\<rparr>)"
  by (simp add: has_body_def request_of_def header_names as_bytes_def)

lemma allow_post:
  "contains (write_response lib_http (text_response 405 ''use POST'' \<lparr>rs_headers := rs_headers (text_response 405 ''use POST'') @
      [HdrInsert ''allow'' ''POST'']\<rparr>) True) (line ''allow: POST'')"
  by code_simp

lemma token_auth_tokens: obtains tokens where "token_auth = Some (alice_with tokens)"
  by (simp add: evals token_auth_def service_def)

lemma token_endpoints_accept_only_post_without_a_body_passes: token_endpoints_accept_only_post_without_a_body
proof -
  obtain tokens where auth: "token_auth = Some (alice_with tokens)" by (rule token_auth_tokens)
  have get: "rq_method (request_of \<lparr>rw_method = m, rw_target = ''/auth/token'', rw_headers = hs, rw_body = body\<rparr>) = m"
    "rq_path (request_of \<lparr>rw_method = m, rw_target = ''/auth/token'', rw_headers = hs, rw_body = body\<rparr>) = ''/auth/token''" for m hs body
    by (simp_all add: request_of_def target_path_def)
  have "target_path ''/auth/nope'' = ''/auth/nope''" by (simp add: target_path_def)
  moreover have "rs_status (text_response n body) = n" for n body by (simp add: text_response_def)
  ultimately show ?thesis
    using allow_post
    by (simp add: token_endpoints_accept_only_post_without_a_body_def auth token_request post_exchange handle_auth_request_def
        tokenless length_credentials get announces_body endpoint_for_def post_request starts Let_def)
qed

text \<open>A handshake that is refused, and one that ends in a relay.\<close>

lemma client_refused:
  assumes "length target \<le> 500" and "length (case h of None \<Rightarrow> [] | Some v \<Rightarrow> v) \<le> 1000"
    and "authorize_request lib_ext (env_unix e) (request_of (upgrade target h)) auth = Ret (Inl response)"
  shows "client_async e target h nt auth = Ret (HandshakeRefused response)"
  using client_async_callback [OF assms(1,2), of e nt auth] assms(3) by (auto simp: accept_callback_def)

lemma client_relayed:
  assumes "length (case h of None \<Rightarrow> [] | Some v \<Rightarrow> v) \<le> 1000" and "\<And>a. nt_connect_tcp nt a"
    and "authorize_request lib_ext (env_unix e) (request_of (upgrade ''/tcp:127.0.0.1:9'' h)) auth = Ret (Inr user)"
  obtains client ua target where "client_async e ''/tcp:127.0.0.1:9'' h nt auth = Ret (TcpRelayed client user ua target
    (proxy_tcp chunked_read 1024 (nt_inbox nt) (nt_bytes nt) (nt_tcp_schedule nt)))"
proof -
  have "target_path ''/tcp:127.0.0.1:9'' = ''/tcp:127.0.0.1:9''" by (simp add: target_path_def)
  with client_async_callback [OF _ assms(1), of "''/tcp:127.0.0.1:9''" e nt auth] assms(2,3) show ?thesis
    using that by (auto simp: accept_callback_def capture_requested_target_def upgrade_request local_target
        HEALTH_CHECK_PATH_def after_handshake_def connect_upstream_def)
qed

text \<open>What the tests need of a login: its tokens are short, and only the access token opens a connection.\<close>

lemma login_authorizes:
  obtains access refresh_token auth where
    "login_exchange (demo_env 0 1) token_auth = Some (access, refresh_token, auth)"
    "length access \<le> 900" "length refresh_token \<le> 900"
    "authorize_request lib_ext (env_unix (demo_env 0 2)) (request_of (upgrade ''/tcp:127.0.0.1:9'' (Some (''Bearer '' @ access)))) auth
       = Ret (Inr ''alice'')"
    "\<And>h. h \<in> {''Bearer '' @ refresh_token, ''Bearer garbage'', ''Bearer ''} \<Longrightarrow> \<exists>c.
       authorize_request lib_ext (env_unix (demo_env 0 2)) (request_of (upgrade ''/tcp:127.0.0.1:9'' (Some h))) auth
         = Ret (Inl (refusal [BASIC_CHALLENGE, c])) \<and> c \<in> {BEARER_CHALLENGE, BEARER_INVALID_CHALLENGE}"
proof -
  have bad: "bearer_token ''Bearer garbage'' = Some ''garbage''" "bearer_token ''Bearer '' = None" by code_simp+
  have user: "basic_user lib_ext (alice_with tokens) ''Bearer '' = None" for tokens
    using alice_user(3) [of tokens "[]"] by simp
  have "verify_access lib_ext now ''garbage'' svc = Ret None" for now svc
    by (simp add: verify_access_def decode_access_def split_once.simps)
  then have "case login_exchange (demo_env 0 1) token_auth of None \<Rightarrow> False
    | Some (access, refresh_token, auth) \<Rightarrow> length access \<le> 900 \<and> length refresh_token \<le> 900 \<and>
    authorize_request lib_ext (env_unix (demo_env 0 2)) (request_of (upgrade ''/tcp:127.0.0.1:9'' (Some (''Bearer '' @ access)))) auth
       = Ret (Inr ''alice'') \<and>
    (\<forall>h \<in> {''Bearer '' @ refresh_token, ''Bearer garbage'', ''Bearer ''}. \<exists>c.
       authorize_request lib_ext (env_unix (demo_env 0 2)) (request_of (upgrade ''/tcp:127.0.0.1:9'' (Some h))) auth
         = Ret (Inl (refusal [BASIC_CHALLENGE, c])) \<and> c \<in> {BEARER_CHALLENGE, BEARER_INVALID_CHALLENGE})"
    by (simp add: evals exchange_tests bad user Let_def
        del: exchange_folded) blast
  then show ?thesis using that by (auto split: option.splits prod.splits)
qed

lemma invalid_access_tokens_are_rejected_with_a_bearer_challenge_passes:
  invalid_access_tokens_are_rejected_with_a_bearer_challenge
proof -
  obtain access refresh_token auth where login:
      "login_exchange (demo_env 0 1) token_auth = Some (access, refresh_token, auth)" "length refresh_token \<le> 900"
    and invalid: "\<And>h. h \<in> {''Bearer '' @ refresh_token, ''Bearer garbage'', ''Bearer ''} \<Longrightarrow> \<exists>c.
       authorize_request lib_ext (env_unix (demo_env 0 2)) (request_of (upgrade ''/tcp:127.0.0.1:9'' (Some h))) auth
         = Ret (Inl (refusal [BASIC_CHALLENGE, c])) \<and> c \<in> {BEARER_CHALLENGE, BEARER_INVALID_CHALLENGE}"
    by (rule login_authorizes) blast
  have "prefix ''Basic '' BASIC_CHALLENGE" "prefix ''Bearer '' BEARER_CHALLENGE" "prefix ''Bearer '' BEARER_INVALID_CHALLENGE"
    by code_simp+
  moreover have "\<exists>c. client_async (demo_env 0 2) ''/tcp:127.0.0.1:9'' (Some h) demo_net auth =
      Ret (HandshakeRefused (refusal [BASIC_CHALLENGE, c])) \<and> c \<in> {BEARER_CHALLENGE, BEARER_INVALID_CHALLENGE}"
    if h: "h \<in> {''Bearer '' @ refresh_token, ''Bearer garbage'', ''Bearer ''}" for h
    using invalid [OF h] client_refused [of "''/tcp:127.0.0.1:9''" "Some h" "demo_env 0 2" auth] h login(2) by fastforce
  ultimately show ?thesis
    unfolding invalid_access_tokens_are_rejected_with_a_bearer_challenge_def login
    by (force simp: list_all_iff refusal_def)
qed

lemma access_token_authorizes_a_proxy_request_passes: access_token_authorizes_a_proxy_request
proof -
  obtain access refresh_token auth where login:
      "login_exchange (demo_env 0 1) token_auth = Some (access, refresh_token, auth)" "length access \<le> 900"
      "authorize_request lib_ext (env_unix (demo_env 0 2)) (request_of (upgrade ''/tcp:127.0.0.1:9'' (Some (''Bearer '' @ access)))) auth
       = Ret (Inr ''alice'')"
    by (rule login_authorizes) blast
  obtain client ua target where "client_async (demo_env 0 2) ''/tcp:127.0.0.1:9'' (Some (''Bearer '' @ access)) echo auth =
    Ret (TcpRelayed client ''alice'' ua target (proxy_tcp chunked_read 1024 (nt_inbox echo) (nt_bytes echo) (nt_tcp_schedule echo)))"
    using login(2) by (rule_tac client_relayed [OF _ _ login(3), of echo]) (auto simp: echo_def demo_net_def)
  then show ?thesis
    unfolding access_token_authorizes_a_proxy_request_def login
    by (simp add: proxy_tcp_def echo_def chunked_read_def write_tcp_def send_ws_def as_bytes_def)
qed

lemma open_handshake:
  assumes "length target \<le> 500"
  shows "\<exists>client. client_async e target None nt None =
    (case capture_requested_target (request_of (upgrade target None))
        \<lparr>sl_target = None, sl_user = Some ANONYMOUS_AUTH_USER, sl_user_agent = Some ''-''\<rparr> of
       (Inl response, sl) \<Rightarrow> Ret (HandshakeRefused response)
     | (Inr _, sl) \<Rightarrow> Ret (after_handshake ''0.2.2'' \<lparr>lm_buffer_size = 1024, lm_udp_idle_timeout = from_secs 1\<rparr> nt client sl))"
proof -
  have "\<not> eq_ignore_ascii_case ''Host'' ''user-agent''" "\<not> eq_ignore_ascii_case ''Connection'' ''user-agent''"
    "\<not> eq_ignore_ascii_case ''Upgrade'' ''user-agent''"
    by code_simp+
  then have "header_str lib_ext (request_of (upgrade target None)) ''user-agent'' = None"
    by (simp add: header_request_of upgrade_def)
  with client_async_callback [of target None e nt None] assms show ?thesis
    by (simp add: accept_callback_def authorize_request_def request_user_agent_def)
qed

lemma root_path_health_check_completes_handshake_and_closes_passes:
  root_path_health_check_completes_handshake_and_closes
proof -
  have "target_path ''/'' = ''/''" by (simp add: target_path_def)
  with open_handshake [of "''/''" "demo_env 0 1" demo_net] show ?thesis
    by (auto simp: root_path_health_check_completes_handshake_and_closes_def capture_requested_target_def upgrade_request
      HEALTH_CHECK_PATH_def after_handshake_def)
qed

lemma invalid_path_is_rejected_with_bad_request_passes: invalid_path_is_rejected_with_bad_request
proof -
  have "target_path ''/other'' = ''/other''" by (simp add: target_path_def)
  moreover have "case parse_target ''/other'' of Inl _ \<Rightarrow> True | Inr _ \<Rightarrow> False" by code_simp
  then obtain err where "parse_target ''/other'' = Inl err" by (auto split: sum.splits)
  moreover have "contains (''path must be /tcp:<host>:<port> or '' @
     ''/udp:<host>:<port>, with IPv6 hosts formatted as [host]:port'') ''path must be /tcp:<host>:<port>''"
    by code_simp
  ultimately show ?thesis
    using open_handshake [of "''/other''" "demo_env 0 1" demo_net]
    by (auto simp: invalid_path_is_rejected_with_bad_request_def capture_requested_target_def upgrade_request
      HEALTH_CHECK_PATH_def)
qed

lemma with_authorization: "header_str lib_ext (request_with_authorization h) ''authorization'' = h"
  by (cases h) (simp_all add: request_with_authorization_def header_str_def)

lemma access_tokens_of_a_removed_user_are_rejected_passes: access_tokens_of_a_removed_user_are_rejected
  by (simp add: evals exchange_tests with_authorization Let_def
     access_tokens_of_a_removed_user_are_rejected_def del: exchange_folded)

end
