(* ===== verification/LogTests.thy ===== *)
theory LogTests
  imports ExchangeTests
begin

text \<open>
  The tests of \<open>src/proxy.rs\<close> that read the log of a connection. They look for the address a request is logged under:
  the one a trusted proxy forwards, or the peer's. What \<open>tracing\<close> writes for an event is its message and its fields;
  only the events of health checks are formatted here, the ones these tests produce.
\<close>

section \<open>The tests\<close>

fun health_check_fields :: "log_event \<Rightarrow> string" where
  "health_check_fields (HttpHealthCheck client user ua) =
     ''http health check peer='' @ ClientAddr_display client @ '' user='' @ user @ '' UA='' @ ua"
| "health_check_fields (WebsocketHealthCheck client user ua) =
     ''websocket health check peer='' @ ClientAddr_display client @ '' user='' @ user @ '' UA='' @ ua"
| "health_check_fields _ = []"

definition captured :: "log_event list \<Rightarrow> string" where
  "captured events = concat (map (\<lambda>ev. health_check_fields ev @ [CHR 0x0A]) events)"

definition logs_of :: "raw \<Rightarrow> (chunked replay_stream \<Rightarrow> handshake_result) \<Rightarrow> trusted_proxies \<Rightarrow> string" where
  "logs_of r handshake trusted_proxies =
     captured (connection_log lib_ext (demo_env 0 1) (parser_of r) lib_http handshake demo_net
       \<lparr>lm_buffer_size = 1024, lm_udp_idle_timeout = from_secs 1\<rparr> trusted_proxies chunked_read
       \<lparr>ch_chunks = [wire r], ch_fails = False\<rparr> local_peer None)"

definition forwarded :: "string \<Rightarrow> raw" where
  "forwarded entries = \<lparr>rw_method = ''GET'', rw_target = ''/'',
     rw_headers = [(''Host'', ''x''), (''X-Forwarded-For'', entries)], rw_body = []\<rparr>"

definition logs_the_client_address_from_a_trusted_proxy :: bool where
  "logs_the_client_address_from_a_trusted_proxy \<longleftrightarrow>
     (let logs = logs_of (forwarded ''10.9.9.9, 203.0.113.7'') (\<lambda>_. HandshakeBroken) loopback_proxies
      in contains logs ''peer=203.0.113.7'' \<and> \<not> contains logs ''10.9.9.9'' \<and> \<not> contains logs ''127.0.0.1'')"

definition logs_the_peer_address_when_the_proxy_is_not_trusted :: bool where
  "logs_the_peer_address_when_the_proxy_is_not_trusted \<longleftrightarrow>
     (let logs = logs_of (forwarded ''203.0.113.7'') (\<lambda>_. HandshakeBroken) (TrustedProxies_new [])
      in contains logs ''peer=127.0.0.1:1'' \<and> \<not> contains logs ''203.0.113.7'') \<and>
     (case IpRange_from_str ''10.0.0.0/8'' of
        Inl _ \<Rightarrow> False
      | Inr other \<Rightarrow>
          contains (logs_of (forwarded ''203.0.113.7'') (\<lambda>_. HandshakeBroken) (TrustedProxies_new [other]))
            ''peer=127.0.0.1:1'')"

definition logs_a_websocket_handshake_under_the_forwarded_address_too :: bool where
  "logs_a_websocket_handshake_under_the_forwarded_address_too \<longleftrightarrow>
     (let request = (upgrade ''/'' None)\<lparr>rw_headers := rw_headers (upgrade ''/'' None) @
            [(''x-forwarded-for'', ''203.0.113.7'')]\<rparr>;
          logs = logs_of request (\<lambda>_. Handshake (request_of request) True) loopback_proxies
      in contains logs ''websocket health check'' \<and> contains logs ''peer=203.0.113.7'')"

section \<open>They pass\<close>

text \<open>Nobody needs to authenticate, so a request for the health check logs one line.\<close>

lemma logs_plain:
  assumes "length entries \<le> 100"
    and "ClientAddr_display (client_addr_of (parser_of (forwarded entries)) tp local_peer (wire (forwarded entries))) = shown"
  shows "logs_of (forwarded entries) handshake tp = ''http health check peer='' @ shown @ '' user=anonymous UA=-'' @ [CHR 0x0A]"
proof -
  let ?r = "forwarded entries"
  have path: "target_path ''/'' = ''/''" by (simp add: target_path_def)
  have names: "\<not> eq_ignore_ascii_case ''X-Forwarded-For'' ''upgrade''" "\<not> eq_ignore_ascii_case ''Host'' ''user-agent''"
    "\<not> eq_ignore_ascii_case ''X-Forwarded-For'' ''user-agent''" by code_simp+
  have "length (wire ?r) \<le> 2048" using assms(1) by (simp add: length_wire forwarded_def)
  moreover have "plain_target ?r" by (simp add: plain_target_def forwarded_def path)
  moreover have "\<not> is_upgrade lib_ext (request_of ?r)"
    by (simp add: is_upgrade_def header_request_of forwarded_def header_names names)
  moreover have "header_str lib_ext (request_of ?r) ''user-agent'' = None"
    by (simp add: header_request_of forwarded_def names)
  moreover have "rq_path (request_of ?r) = ''/''" by (simp add: request_of_def forwarded_def path)
  ultimately show ?thesis
    using assms(2) by (simp add: logs_of_def captured_def connection_log_def reads_wire parse_plain_wire plain_log_def
        HEALTH_CHECK_PATH_def authorize_log_def authorize_request_def ANONYMOUS_AUTH_USER_def request_user_agent_def Let_def)
qed

lemma client_of_raw:
  "client_addr_of (parser_of r) tp peer (wire r) =
     client_addr_of (\<lambda>_ _. Some \<lparr>ph_method = None, ph_path = None,
       ph_headers = map (\<lambda>(name, v). (name, as_bytes v)) (rw_headers r)\<rparr>) tp peer []"
  by (simp add: client_addr_of_def forwarded_client_def parser_of_def)

lemma forwarded_displays:
  "ClientAddr_display (client_addr_of (parser_of (forwarded ''10.9.9.9, 203.0.113.7'')) loopback_proxies local_peer
     (wire (forwarded ''10.9.9.9, 203.0.113.7''))) = ''203.0.113.7''"
  "ClientAddr_display (client_addr_of (parser_of (forwarded ''203.0.113.7'')) (TrustedProxies_new []) local_peer
     (wire (forwarded ''203.0.113.7''))) = ''127.0.0.1:1''"
  "ClientAddr_display (client_addr_of (parser_of (forwarded ''203.0.113.7''))
     (TrustedProxies_new [\<lparr>r_addr = V4 0x0A000000, r_prefix = 8\<rparr>]) local_peer (wire (forwarded ''203.0.113.7''))) = ''127.0.0.1:1''"
  unfolding client_of_raw by code_simp+

lemma logs_the_client_address_from_a_trusted_proxy_passes: logs_the_client_address_from_a_trusted_proxy
proof -
  let ?logs = "''http health check peer='' @ ''203.0.113.7'' @ '' user=anonymous UA=-'' @ [CHR 0x0A]"
  have "logs_of (forwarded ''10.9.9.9, 203.0.113.7'') (\<lambda>_. HandshakeBroken) loopback_proxies = ?logs"
    by (rule logs_plain [OF _ forwarded_displays(1)]) simp
  moreover have "contains ?logs ''peer=203.0.113.7''" "\<not> contains ?logs ''10.9.9.9''" "\<not> contains ?logs ''127.0.0.1''"
    by code_simp+
  ultimately show ?thesis
    unfolding logs_the_client_address_from_a_trusted_proxy_def Let_def by (simp only: simp_thms)
qed

lemma logs_the_peer_address_when_the_proxy_is_not_trusted_passes: logs_the_peer_address_when_the_proxy_is_not_trusted
proof -
  let ?logs = "''http health check peer='' @ ''127.0.0.1:1'' @ '' user=anonymous UA=-'' @ [CHR 0x0A]"
  have "logs_of (forwarded ''203.0.113.7'') (\<lambda>_. HandshakeBroken) (TrustedProxies_new []) = ?logs"
    "logs_of (forwarded ''203.0.113.7'') (\<lambda>_. HandshakeBroken) (TrustedProxies_new [\<lparr>r_addr = V4 0x0A000000, r_prefix = 8\<rparr>]) = ?logs"
    by (rule logs_plain [OF _ forwarded_displays(2)], simp) (rule logs_plain [OF _ forwarded_displays(3)], simp)
  moreover have "contains ?logs ''peer=127.0.0.1:1''" "\<not> contains ?logs ''203.0.113.7''" by code_simp+
  moreover have "IpRange_from_str ''10.0.0.0/8'' = Inr \<lparr>r_addr = V4 0x0A000000, r_prefix = 8\<rparr>" by code_simp
  ultimately show ?thesis
    unfolding logs_the_peer_address_when_the_proxy_is_not_trusted_def Let_def by (simp only: simp_thms sum.case)
qed

lemma logs_a_websocket_handshake_under_the_forwarded_address_too_passes:
  logs_a_websocket_handshake_under_the_forwarded_address_too
proof -
  define r where "r = (upgrade ''/'' None)\<lparr>rw_headers := rw_headers (upgrade ''/'' None) @
    [(''x-forwarded-for'', ''203.0.113.7'')]\<rparr>"
  have headers: "rw_headers r = [(''Host'', ''localhost''), (''Connection'', ''Upgrade''), (''Upgrade'', ''websocket''),
      (''x-forwarded-for'', ''203.0.113.7'')]" "rw_method r = ''GET''" "rw_target r = ''/''" "rw_body r = []"
    by (simp_all add: r_def upgrade_def)
  have "target_path ''/'' = ''/''" by (simp add: target_path_def)
  then have path: "rq_path (request_of r) = ''/''" by (simp add: request_of_def headers)
  have "\<not> eq_ignore_ascii_case ''Host'' ''user-agent''" "\<not> eq_ignore_ascii_case ''Connection'' ''user-agent''"
    "\<not> eq_ignore_ascii_case ''Upgrade'' ''user-agent''" "\<not> eq_ignore_ascii_case ''x-forwarded-for'' ''user-agent''"
    by code_simp+
  then have agent: "header_str lib_ext (request_of r) ''user-agent'' = None" by (simp add: header_request_of headers)
  have up: "is_upgrade lib_ext (request_of r)"
    by (simp add: is_upgrade_def header_request_of headers header_names header_names_upgrade)
  have display: "ClientAddr_display (client_addr_of (parser_of r) loopback_proxies local_peer (wire r)) = ''203.0.113.7''"
    unfolding client_of_raw headers by code_simp
  have "length (wire r) \<le> 2048" by (simp add: length_wire headers)
  then have "logs_of r (\<lambda>_. Handshake (request_of r) True) loopback_proxies =
      ''websocket health check peer='' @ ''203.0.113.7'' @ '' user=anonymous UA=-'' @ [CHR 0x0A]"
    by (simp add: logs_of_def captured_def connection_log_def reads_wire parse_plain_wire up callback_log_def path agent
        HEALTH_CHECK_PATH_def authorize_log_def authorize_request_def ANONYMOUS_AUTH_USER_def request_user_agent_def
        capture_log_def accept_callback_def capture_requested_target_def session_log_def display)
  moreover have "contains (''websocket health check peer='' @ ''203.0.113.7'' @ '' user=anonymous UA=-'' @ [CHR 0x0A])
      ''websocket health check''"
    "contains (''websocket health check peer='' @ ''203.0.113.7'' @ '' user=anonymous UA=-'' @ [CHR 0x0A])
      ''peer=203.0.113.7''" by code_simp+
  ultimately show ?thesis
    unfolding logs_a_websocket_handshake_under_the_forwarded_address_too_def r_def [symmetric] Let_def by simp
qed

end
