(* ===== verification/Spec2Isabelle.thy ===== *)
theory Spec2Isabelle
  imports RouterRun Serving Program EventProps LogLine Duplex RelayEnd TokenFaults TokenSpec
    UnitTests LogTests
begin

text \<open>
  \<^bold>\<open>ws2tcp-router\<close> accepts WebSocket connections and relays each to the TCP or UDP upstream that the
  request path names. This library models the whole program, file by file, and proves what makes it correct.

  \<^bold>\<open>The program.\<close> \<open>src/main.rs\<close> reads the options (\<open>src/args.rs\<close>), sets up logging (\<open>src/logging.rs\<close>),
  authentication (\<open>src/auth.rs\<close> with the token service of \<open>src/token.rs\<close>) and TLS (\<open>src/tls.rs\<close>), binds the
  listeners (\<open>src/listener.rs\<close>) and accepts connections. A connection (\<open>src/proxy.rs\<close>) first has its request
  head read and replayed (\<open>src/http_probe.rs\<close>), from which also the address it is reported under is taken
  (\<open>src/client_addr.rs\<close>). A plain request is answered: a health check, or one of the token endpoints
  (\<open>src/token_api.rs\<close>). Otherwise the websocket handshake calls back to authorize the request and to parse
  the target (\<open>src/target.rs\<close>), and the connection becomes a relay until one side ends. The configuration
  with its token service is the only state connections share; reload tasks replace its credentials and
  targets. The runtime has one thread, and no operation on the shared state awaits, so operations on it do
  not interleave; their order is arbitrary.

  \<^bold>\<open>The theories\<close>, in the order of their imports:
  \<^item> \<open>Prelude\<close>, \<open>RustStr\<close>, \<open>RustColl\<close>, \<open>StdNet\<close>: the vocabulary (words, \<open>outcome\<close> for code that may panic) and
    the parts of Rust's standard library the sources call: strings and UTF-8, hash maps (an interface by laws,
    the locale \<open>hash_map\<close>, interpreted on association lists), instants, IP addresses and their parser.
  \<^item> \<open>Ext\<close>: third-party crates. Their functions are parameters, the fields of \<open>ext\<close> (base64, SHA-256, HMAC,
    header values), of \<open>http_lib\<close> and of the records of \<open>Server\<close>; what is relied on is \<open>ext_ok\<close> and \<open>http_ok\<close>,
    and both have instances.
  \<^item> \<open>Target\<close>: \<open>parse_target\<close>, \<open>parse_target_addr\<close>, \<open>addr\<close>. Exactly which paths are accepted; printing and
    parsing round trip.
  \<^item> \<open>ClientAddr\<close>: \<open>IpRange\<close>, \<open>TrustedProxies\<close>, \<open>X-Forwarded-For\<close>. Exactly which ranges parse; a range is a prefix of bits; the reported
    address is the rightmost entry that is no trusted proxy, and what a client writes before a proxy's entry changes it only
    by making the head or the line unreadable.
  \<^item> \<open>Token\<close>: the token service, operation by operation, with its mutex and its poisoning. \<open>TokenInv\<close> has the
    locale \<open>store_invariant\<close>: what a predicate on the store must satisfy on the primitive changes so that every
    sequence of operations keeps it. \<open>TokenProps\<close> interprets it for the bound of the store, the deadline of a
    login, the death of a revoked login and the memory of a spent token. \<open>TokenThms\<close> has the properties:
    bounded store, exact and round-tripping access tokens, reuse detection, logout, thirty days.
    \<open>TokenSpec\<close> states what the service promises as a ledger that never forgets, and proves through the locale
    \<open>simulation\<close> that every sequence of answers of the service is one of the ledger, and how little the ledger leaves open. \<open>TokenFaults\<close> has the Unix clock
    and two faults: an access lifetime that wraps, and a refresh without random bytes.
  \<^item> \<open>Args\<close>: merging of command line and configuration file, defaults, validation; the table of what every option
    comes to, and the error of every refusal.
  \<^item> \<open>Auth\<close>, \<open>AuthProps\<close>: credentials, anonymous targets, reloading, and exactly who is authorized.
  \<^item> \<open>TokenApi\<close>: the endpoints. Tokens only for credentials or live refresh tokens, every request answered,
    logout tells nothing.
  \<^item> \<open>HttpProbe\<close>: the locale \<open>byte_source\<close> is what a readable stream promises, interpreted on a stream of
    chunks and on \<open>ReplayStream\<close>. The head is bounded, exactly which heads are plain requests, replaying
    loses nothing, responses are well framed.
    \<open>Duplex\<close> adds the writing half: the locales \<open>duplex\<close> and \<open>response_sink\<close> extend \<open>byte_source\<close>, interpreted on a pipe and
    on the replaying stream over it. Reads and writes in any order work on the original stream.
  \<^item> \<open>Relay\<close>: both relays as runs of a loop under an arbitrary schedule with failing reads and writes. What
    arrives is what was sent, in order, in both directions; exactly when a UDP session goes on and when its idle timeout ends
    it; draining. \<open>RelayEnd\<close>: every turn uses up something that was sent, and exactly when a TCP relay goes on.
  \<^item> \<open>Proxy\<close>: \<open>handle_connection\<close>, from the first byte to the relay. A relay needs an authorization.
  \<^item> \<open>Server\<close>: binding, certificates, logging, start-up, accept loop. Start-up sets up exactly what the options ask
    for (\<open>started_as\<close>); the accept loop ends at its first error.
  \<^item> \<open>EventLog\<close>, \<open>EventProps\<close>, \<open>LogLine\<close>: what is logged. Beside every operation that logs stands the list of the events it
    logs (\<open>authorize_log\<close> beside \<open>authorize_request\<close>, and so on, up to \<open>accepted_log\<close>). Every connection leaves exactly the trace its
    end calls for (\<open>audited\<close>, with \<open>token_audit\<close> for the token endpoints), announced relays are authorized, no line depends on
    a secret, only the log depends on the client's address; a line can be read back, colours and all.
  \<^item> \<open>Router\<close>: the running router, a transition system of connections and reload ticks in any order from a
    successful start-up. The shared state stays sound, only entitled users are relayed, no connection panics.
    \<open>RouterRun\<close>: a logout is final for the whole router. \<open>Serving\<close>: the accept loop with its tasks handles everybody in
    the order of arrival, answers everybody who makes himself understood, and is a run of the router. \<open>Program\<close>: from the command
    line to the running router; no option is ignored.
  \<^item> \<open>UnitTests\<close>, \<open>ConfigTests\<close>, \<open>TokenTests\<close>: the unit tests of the targets, the client addresses, the plain
    requests, the options, the authentication and the token service, translated test by test and passed by the model.
  \<^item> \<open>ExchangeTests\<close>, \<open>LogTests\<close>: the tests of the connection handler. What a test writes to the connection goes
    through \<open>handle_connection\<close> as bytes, and the test reads the answer, the relayed messages or the events of the log:
    health checks, logging in, refreshing, the reuse of a spent token, logging out, relaying under an access token.

  \<^bold>\<open>Modelling.\<close> Structs are records and enums datatypes; integers have the width of the source. A Rust
  \<open>str\<close> is the list of its bytes as characters. Errors are values of a sum, with one constructor per cause
  and without the wording of messages; a panic is \<open>Panic\<close>. Whatever is read from outside (clocks, random
  bytes, files, sockets) is an argument. \<open>Instant\<close> is a number of nanoseconds with a last representable
  one. Loops are structural recursions over what arrives, or over a schedule; the one that reads a request
  head is shown to terminate because each turn adds a byte and it stops at 16 KiB. No definition uses fuel. A schedule is
  finite and says what has happened so far: a side that is not chosen is open and idle, a side that is chosen and has nothing
  left was closed (a UDP upstream cannot close: there the timeout fires). Waiting is counted, writing is not: no write of the sources has a timeout, and TCP has no idle timeout, so
  nothing is claimed on how long a relay lasts. The tasks of a listener run concurrently; the model runs each to its end in the
  order of arrival, which is right for the state they share, since a task touches it once and without an await.

  \<^bold>\<open>Hypotheses.\<close> \<open>ext_ok\<close> says that decoding inverts encoding, that a signature verifies and that the
  constant-time comparison is equality. It does not say that signatures cannot be forged or that hashes do
  not collide: properties that need a token not to be drawn twice say so. Properties that relate the two
  clocks assume them in step.

  \<^bold>\<open>Where the code falls short.\<close> Five theorems show behaviour that the code does not intend: the map of
  revoked logins is not bounded (\<open>revoked_families_unbounded\<close>), an oversized refresh lifetime poisons the
  token service at the first login (\<open>oversized_lifetime_poisons\<close>), an oversized access lifetime makes every access token
  expired (\<open>wrapped_lifetime_expired\<close>), a refresh whose random generator fails spends the token and so ends the login
  (\<open>failed_refresh_costs_login\<close>), and one failed \<open>accept\<close> ends a listener for good (\<open>serve_stops_at_first_error\<close>). And the README says more of
  client addresses than the code keeps: bytes of the client that make a forwarded line unreadable hide what the proxy wrote on it
  (\<open>client_addr_no_forgery\<close>, \<open>undecodable_line_believes_client\<close>).

  \<^bold>\<open>Not modelled.\<close> The parsing of the command line by \<open>clap\<close> and of TOML, the websocket protocol inside
  \<open>tungstenite\<close>, PEM and TLS, name resolution and sockets are third-party or operating-system code and enter
  as parameters. The registration of the \<open>tracing\<close> subscriber, the text that \<open>tracing\<close> makes of an
  event's fields and the texts of error messages are left out, as are the three informational lines of start-up. Of
  the unit tests, those of \<open>clap\<close> itself and of the length of a token in base64 are left out. Concurrency inside one
  connection is the schedule of its relay; the timer of the reload tasks is left out, a tick may come at any time.
\<close>

end
